theory Spec2Isabelle
  imports Main
begin

section \<open>Paths\<close>

text \<open>
  The script builds every path with Node's \<^verbatim>\<open>path.resolve\<close> and \<^verbatim>\<open>path.join\<close> (POSIX
  flavour). An absolute, normalised path is the list of its segments from the root;
  the root itself is the empty list. A raw string of the program (a file name of the
  pull request, an environment variable) is split at every \<^verbatim>\<open>/\<close> and walked segment
  by segment, as Node's normalisation does: an empty segment and \<^verbatim>\<open>.\<close> are skipped,
  \<^verbatim>\<open>..\<close> drops the last segment (and stays at the root).
\<close>

type_synonym abs_path = "string list"

fun split_on :: "char \<Rightarrow> string \<Rightarrow> string list" where
  "split_on c [] = [[]]"
| "split_on c (x # xs) =
     (if x = c then [] # split_on c xs
      else (case split_on c xs of [] \<Rightarrow> [[x]] | s # ss \<Rightarrow> (x # s) # ss))"

definition segments :: "string \<Rightarrow> string list" where
  "segments s = split_on CHR ''/'' s"

fun normalizeString :: "abs_path \<Rightarrow> string list \<Rightarrow> abs_path" where
  "normalizeString acc [] = acc"
| "normalizeString acc (s # ss) =
     (if s = [] \<or> s = ''.'' then normalizeString acc ss
      else if s = ''..'' then normalizeString (butlast acc) ss
      else normalizeString (acc @ [s]) ss)"

text \<open>
  \<^verbatim>\<open>path.resolve(base, p)\<close> with an absolute \<open>base\<close>: an absolute \<open>p\<close> replaces the base,
  a relative one is walked from it. The result never ends with a separator.
\<close>

definition path_resolve :: "abs_path \<Rightarrow> string \<Rightarrow> abs_path" where
  "path_resolve base p =
     (if p \<noteq> [] \<and> hd p = CHR ''/'' then normalizeString [] (segments p)
      else normalizeString base (segments p))"

text \<open>
  \<^verbatim>\<open>path.join(base, a, b)\<close> with an absolute \<open>base\<close>: the arguments are glued with
  \<^verbatim>\<open>/\<close> (empty ones are left out) and the whole is normalised; a later argument that
  starts with \<^verbatim>\<open>/\<close> does not replace the base. Node keeps a trailing separator of the
  joined string, and the shell commands and \<^verbatim>\<open>fs.existsSync\<close> treat such a path
  differently, so the result is a location: the segments and the trailing-separator
  flag.
\<close>

type_synonym location = "abs_path \<times> bool"

definition ends_with_slash :: "string \<Rightarrow> bool" where
  "ends_with_slash s = (s \<noteq> [] \<and> last s = CHR ''/'')"

definition path_join :: "abs_path \<Rightarrow> string \<Rightarrow> string \<Rightarrow> location" where
  "path_join base a b =
     (normalizeString base (segments a @ segments b),
      ends_with_slash (if b \<noteq> [] then b else a))"

text \<open>\<^verbatim>\<open>path.dirname\<close> of a location: the trailing separator is ignored.\<close>

definition dirname :: "location \<Rightarrow> abs_path" where
  "dirname t = butlast (fst t)"

definition show_path :: "abs_path \<Rightarrow> string" where
  "show_path p = (if p = [] then ''/'' else concat (map (\<lambda>s. CHR ''/'' # s) p))"

definition show_location :: "location \<Rightarrow> string" where
  "show_location t =
     (if snd t \<and> fst t \<noteq> [] then show_path (fst t) @ ''/'' else show_path (fst t))"

section \<open>The file system and the three commands that act on it\<close>

text \<open>
  One file system holds the source checkout and the staged clone: a partial map from
  absolute paths to nodes, a node being a regular file with its bytes or a directory.
  The root is always a directory. A real file system is well formed (the parent of
  every node is a directory); the commands below are defined on every map and agree
  with \<^verbatim>\<open>mkdir -p\<close>, \<^verbatim>\<open>cp\<close> and \<^verbatim>\<open>rm\<close> on the well-formed ones. Permissions, links and
  a full disk are outside the model.
\<close>

datatype node = File string | Dir

type_synonym filesystem = "abs_path \<Rightarrow> node option"

definition lookup :: "filesystem \<Rightarrow> abs_path \<Rightarrow> node option" where
  "lookup f p = (if p = [] then Some Dir else f p)"

text \<open>
  \<^verbatim>\<open>fs.existsSync\<close>: true for a file and for a directory; a path with a trailing
  separator names a directory only.
\<close>

definition exists_at :: "filesystem \<Rightarrow> location \<Rightarrow> bool" where
  "exists_at f t =
     (case lookup f (fst t) of
        None \<Rightarrow> False
      | Some Dir \<Rightarrow> True
      | Some (File c) \<Rightarrow> \<not> snd t)"

text \<open>
  \<^verbatim>\<open>mkdir -p\<close> walks the chain from the root: an existing directory is entered, a
  missing one is created, a regular file on the way makes the command fail.
\<close>

fun mkdir_chain :: "filesystem \<Rightarrow> abs_path \<Rightarrow> string list \<Rightarrow> bool \<times> filesystem" where
  "mkdir_chain f pre [] = (True, f)"
| "mkdir_chain f pre (s # ss) =
     (case lookup f (pre @ [s]) of
        Some (File c) \<Rightarrow> (False, f)
      | Some Dir \<Rightarrow> mkdir_chain f (pre @ [s]) ss
      | None \<Rightarrow> mkdir_chain (f(pre @ [s] \<mapsto> Dir)) (pre @ [s]) ss)"

definition mkdir_p :: "filesystem \<Rightarrow> abs_path \<Rightarrow> bool \<times> filesystem" where
  "mkdir_p f p = mkdir_chain f [] p"

text \<open>
  \<^verbatim>\<open>cp src dst\<close> (no \<^verbatim>\<open>-r\<close>): the source must be a regular file. When \<open>dst\<close> is a
  directory the copy goes into it under the source's base name (and fails when a
  directory of that name is there); otherwise \<open>dst\<close> itself is created or
  overwritten, which needs its parent directory and no trailing separator. Copying a
  file onto itself fails.
\<close>

definition cp :: "filesystem \<Rightarrow> abs_path \<Rightarrow> location \<Rightarrow> filesystem option" where
  "cp f src t =
     (case lookup f src of
        Some (File c) \<Rightarrow>
          (case lookup f (fst t) of
             Some Dir \<Rightarrow>
               (if lookup f (fst t @ [last src]) = Some Dir \<or> fst t @ [last src] = src
                then None
                else Some (f(fst t @ [last src] \<mapsto> File c)))
           | Some (File d) \<Rightarrow>
               (if snd t \<or> fst t = src then None else Some (f(fst t \<mapsto> File c)))
           | None \<Rightarrow>
               (if snd t \<or> lookup f (butlast (fst t)) \<noteq> Some Dir then None
                else Some (f(fst t \<mapsto> File c))))
      | Some Dir \<Rightarrow> None
      | None \<Rightarrow> None)"

text \<open>\<^verbatim>\<open>rm path\<close> (no \<^verbatim>\<open>-r\<close>, no \<^verbatim>\<open>-f\<close>): removes a regular file, fails on anything else.\<close>

definition rm :: "filesystem \<Rightarrow> location \<Rightarrow> filesystem option" where
  "rm f t =
     (case lookup f (fst t) of
        Some (File c) \<Rightarrow> (if snd t then None else Some (f(fst t := None)))
      | Some Dir \<Rightarrow> None
      | None \<Rightarrow> None)"

section \<open>Data of the program\<close>

text \<open>
  A change entry is the object \<^verbatim>\<open>{status, path, previous_path}\<close> that \<^verbatim>\<open>getPRChanges\<close>
  builds; \<open>previous_path\<close> is \<open>None\<close> where the script leaves it \<^verbatim>\<open>undefined\<close>. A file
  descriptor is one item of the hosting API's file list, a pull request one object of
  its pull-request endpoints (\<open>None\<close> for a JSON \<^verbatim>\<open>null\<close> or a missing field; the
  script compares \<^verbatim>\<open>merged_at\<close> with \<^verbatim>\<open>null\<close>, so that field tells a missing key from a
  \<^verbatim>\<open>null\<close>). Pull-request numbers are the integers among the numbers of JSON. A
  response is taken as received whole: its status, its body as text, and its body as
  JSON (\<open>BadJson\<close> for a body that does not parse, \<open>OtherJson\<close> for JSON of any other
  shape). The body of a request is the list of the fields given to \<^verbatim>\<open>JSON.stringify\<close>.
\<close>

record change =
  status :: string
  path :: string
  previous_path :: "string option"

record gh_file =
  gh_status :: string
  filename :: string
  previous_filename :: "string option"

record gh_user =
  login :: string
  name :: "string option"
  email :: "string option"

datatype merge_stamp = Key_missing | Json_null | Merged string

record pull =
  number :: int
  title :: string
  user :: "gh_user option"
  html_url :: string
  body :: "string option"
  merged_at :: merge_stamp

datatype json = BadJson | PullJson pull | FilesJson "gh_file list" | PullsJson "pull list" | OtherJson

record request =
  req_method :: string
  req_url :: string
  req_headers :: "(string \<times> string) list"
  req_body :: "(string \<times> string) list"

record response =
  resp_status :: nat
  resp_statusText :: string
  resp_text :: string
  resp_json :: json

text \<open>
  Every shell command the script runs through \<^verbatim>\<open>$\<close>, and \<^verbatim>\<open>cd\<close>. The first three act on
  the modelled file system; the others (directory removal, git, \<^verbatim>\<open>cd\<close>) are answered by
  the environment.
\<close>

datatype command =
    MkdirP abs_path
  | Cp abs_path location
  | Rm location
  | RmRf abs_path
  | GitClone string abs_path
  | GitCheckoutB string
  | GitStatus
  | GitConfig string string
  | GitAddAll
  | GitCommit string
  | GitPush string
  | Cd abs_path

datatype error = TypeError | RangeError | SyntaxError | ProcessOutput command | FetchError

datatype level = Info | Warn | Err

datatype logarg = Txt string | ObjChange change | ObjFile gh_file | ObjError error

text \<open>
  What a run does to the outside is its trace: every console line, every command with
  its exit status (\<open>True\<close> for zero) and output, every HTTP request with its response
  (\<open>None\<close> when the request itself failed).
\<close>

datatype event =
    Console level "logarg list"
  | Ran command bool string
  | Fetched request "response option"

record world =
  fs :: filesystem
  trace :: "event list"

text \<open>
  The process's inputs (working directory at start, the third command-line word, the
  environment variables; \<open>None\<close> for an unset one) and the answers of the outside
  world, which may depend on everything that happened so far: the commands whose
  effect the model leaves open, the HTTP server, the clock, and the two built-ins of the runtime
  that read a reference string (\<^verbatim>\<open>isNaN(parseInt(s))\<close>, and \<^verbatim>\<open>new Date(s)\<close> with its
  ISO rendering, \<open>None\<close> for an invalid date).
\<close>

record config =
  cwd :: abs_path
  argv2 :: "string option"
  env_PR_NUMBER :: "string option"
  env_GH_TOKEN :: "string option"
  env_MONOREPO_PACKAGE_LOCATION :: "string option"
  env_SOURCE_REPO_NAME :: "string option"
  env_SOURCE_REPO_OWNER :: "string option"

record externals =
  shell_out :: "event list \<Rightarrow> filesystem \<Rightarrow> command \<Rightarrow> bool \<times> string \<times> filesystem"
  http :: "event list \<Rightarrow> request \<Rightarrow> response option"
  date_now :: "event list \<Rightarrow> nat"
  parseInt_isNaN :: "string \<Rightarrow> bool"
  date_toISOString :: "string \<Rightarrow> string option"

section \<open>Control: return, exit, throw\<close>

text \<open>
  An asynchronous function of the script is a function from the world to an outcome
  and the new world. \<^verbatim>\<open>process.exit(n)\<close> ends the run and is not caught by a
  \<^verbatim>\<open>catch\<close>; a rejected promise is a thrown error.
\<close>

datatype 'a outcome = Returned 'a | Exited nat | Threw error

type_synonym 'a io = "world \<Rightarrow> 'a outcome \<times> world"

definition io_return :: "'a \<Rightarrow> 'a io" where
  "io_return x w = (Returned x, w)"

definition io_throw :: "error \<Rightarrow> 'a io" where
  "io_throw e w = (Threw e, w)"

definition process_exit :: "nat \<Rightarrow> 'a io" where
  "process_exit n w = (Exited n, w)"

definition io_bind :: "'a io \<Rightarrow> ('a \<Rightarrow> 'b io) \<Rightarrow> 'b io" where
  "io_bind m k w =
     (case m w of
        (Returned x, w') \<Rightarrow> k x w'
      | (Exited n, w') \<Rightarrow> (Exited n, w')
      | (Threw e, w') \<Rightarrow> (Threw e, w'))"

definition io_seq :: "'a io \<Rightarrow> 'b io \<Rightarrow> 'b io" where
  "io_seq m k = io_bind m (\<lambda>x. k)"

definition io_catch :: "'a io \<Rightarrow> (error \<Rightarrow> 'a io) \<Rightarrow> 'a io" where
  "io_catch m h w =
     (case m w of
        (Threw e, w') \<Rightarrow> h e w'
      | (Returned x, w') \<Rightarrow> (Returned x, w')
      | (Exited n, w') \<Rightarrow> (Exited n, w'))"

definition console :: "level \<Rightarrow> logarg list \<Rightarrow> unit io" where
  "console l args w = (Returned (), w\<lparr>trace := trace w @ [Console l args]\<rparr>)"

definition existsSync :: "location \<Rightarrow> bool io" where
  "existsSync t w = (Returned (exists_at (fs w) t), w)"

text \<open>
  Awaiting a shell command of the script: the command runs (on the modelled file
  system, or as the outside world answers), is recorded with its exit status and
  output, and a non-zero exit status is thrown.
\<close>

definition exec_command :: "externals \<Rightarrow> command \<Rightarrow> world \<Rightarrow> bool \<times> string \<times> filesystem" where
  "exec_command ext c w =
     (case c of
        MkdirP p \<Rightarrow> (fst (mkdir_p (fs w) p), [], snd (mkdir_p (fs w) p))
      | Cp s t \<Rightarrow> (case cp (fs w) s t of None \<Rightarrow> (False, [], fs w) | Some f \<Rightarrow> (True, [], f))
      | Rm t \<Rightarrow> (case rm (fs w) t of None \<Rightarrow> (False, [], fs w) | Some f \<Rightarrow> (True, [], f))
      | RmRf p \<Rightarrow> shell_out ext (trace w) (fs w) c
      | GitClone u p \<Rightarrow> shell_out ext (trace w) (fs w) c
      | GitCheckoutB b \<Rightarrow> shell_out ext (trace w) (fs w) c
      | GitStatus \<Rightarrow> shell_out ext (trace w) (fs w) c
      | GitConfig k v \<Rightarrow> shell_out ext (trace w) (fs w) c
      | GitAddAll \<Rightarrow> shell_out ext (trace w) (fs w) c
      | GitCommit m \<Rightarrow> shell_out ext (trace w) (fs w) c
      | GitPush b \<Rightarrow> shell_out ext (trace w) (fs w) c
      | Cd p \<Rightarrow> shell_out ext (trace w) (fs w) c)"

definition run :: "externals \<Rightarrow> command \<Rightarrow> string io" where
  "run ext c w =
     (case exec_command ext c w of
        (ok, out, f) \<Rightarrow>
          (if ok then Returned out else Threw (ProcessOutput c),
           w\<lparr>fs := f, trace := trace w @ [Ran c ok out]\<rparr>))"

definition fetch :: "externals \<Rightarrow> request \<Rightarrow> response io" where
  "fetch ext rq w =
     (case http ext (trace w) rq of
        None \<Rightarrow> (Threw FetchError, w\<lparr>trace := trace w @ [Fetched rq None]\<rparr>)
      | Some r \<Rightarrow> (Returned r, w\<lparr>trace := trace w @ [Fetched rq (Some r)]\<rparr>))"

definition Date_now :: "externals \<Rightarrow> nat io" where
  "Date_now ext w = (Returned (date_now ext (trace w)), w)"

definition response_ok :: "response \<Rightarrow> bool" where
  "response_ok r = (200 \<le> resp_status r \<and> resp_status r \<le> 299)"

section \<open>Strings of the runtime\<close>

definition truthy :: "string option \<Rightarrow> bool" where
  "truthy v = (case v of None \<Rightarrow> False | Some s \<Rightarrow> s \<noteq> [])"

definition js_or :: "string option \<Rightarrow> string option \<Rightarrow> string option" where
  "js_or a b = (if truthy a then a else b)"

definition show_opt :: "string option \<Rightarrow> string" where
  "show_opt v = (case v of None \<Rightarrow> ''undefined'' | Some s \<Rightarrow> s)"

definition digit :: "nat \<Rightarrow> char" where
  "digit d = char_of (48 + d)"

fun show_nat :: "nat \<Rightarrow> string" where
  "show_nat n = (if n < 10 then [digit n] else show_nat (n div 10) @ [digit (n mod 10)])"

declare show_nat.simps [simp del]

definition show_int :: "int \<Rightarrow> string" where
  "show_int i = (if i < 0 then CHR ''-'' # show_nat (nat (- i)) else show_nat (nat i))"

definition slice_last :: "nat \<Rightarrow> string \<Rightarrow> string" where
  "slice_last k s = drop (length s - k) s"

text \<open>
  \<^verbatim>\<open>!s.trim()\<close>: the string is empty once the white space at both ends is gone. A
  character of the model is a code unit below 256; the white space and line
  terminators of \<^verbatim>\<open>String.prototype.trim\<close> in that range are the tab, the line feed, the
  vertical tab, the form feed, the carriage return, the space and the no-break space.
\<close>

definition is_space :: "char \<Rightarrow> bool" where
  "is_space c = (c = CHR '' '' \<or> c = CHR 0x09 \<or> c = CHR 0x0A \<or> c = CHR 0x0B
     \<or> c = CHR 0x0C \<or> c = CHR 0x0D \<or> c = CHR 0xA0)"

definition trim_is_empty :: "string \<Rightarrow> bool" where
  "trim_is_empty s = list_all is_space s"

section \<open>The script\<close>

subsection \<open>Constants of the module\<close>

definition ROOT_DIR :: "config \<Rightarrow> abs_path" where
  "ROOT_DIR cfg = cwd cfg"

definition MONOREPO_URL :: string where
  "MONOREPO_URL = ''https://github.com/formio/formio-monorepo''"

definition TEMP_DIR :: "config \<Rightarrow> abs_path" where
  "TEMP_DIR cfg = path_resolve (path_resolve (ROOT_DIR cfg) ''..'') ''tmp/formio-monorepo''"

definition SOURCE_REPO_OWNER :: "config \<Rightarrow> string" where
  "SOURCE_REPO_OWNER cfg = show_opt (js_or (env_SOURCE_REPO_OWNER cfg) (Some ''formio''))"

definition api_headers :: "config \<Rightarrow> (string \<times> string) list" where
  "api_headers cfg =
     [(''Authorization'', ''token '' @ show_opt (env_GH_TOKEN cfg)),
      (''Accept'', ''application/vnd.github.v3+json'')]"

definition api_get :: "config \<Rightarrow> string \<Rightarrow> request" where
  "api_get cfg u = \<lparr>req_method = ''GET'', req_url = u, req_headers = api_headers cfg, req_body = []\<rparr>"

definition repo_url :: "config \<Rightarrow> string" where
  "repo_url cfg =
     ''https://api.github.com/repos/'' @ SOURCE_REPO_OWNER cfg @ ''/''
       @ show_opt (env_SOURCE_REPO_NAME cfg)"

definition api_error :: "response \<Rightarrow> string" where
  "api_error r = ''GitHub API error: '' @ show_nat (resp_status r) @ '' '' @ resp_statusText r"

subsection \<open>Repository staging\<close>

definition cloneMonoRepo :: "config \<Rightarrow> externals \<Rightarrow> unit io" where
  "cloneMonoRepo cfg ext =
     io_seq
       (io_catch
          (io_seq (run ext (RmRf (TEMP_DIR cfg))) (io_return ()))
          (\<lambda>e. console Err [Txt ''Error deleting temp directory:'', ObjError e]))
       (io_catch
          (io_seq (run ext (GitClone (MONOREPO_URL @ ''.git'') (TEMP_DIR cfg)))
             (console Info [Txt ''Monorepo cloned successfully.'']))
          (\<lambda>e. io_seq (console Err [Txt ''Error cloning monorepo:'', ObjError e])
                 (process_exit 1)))"

definition createBranch :: "config \<Rightarrow> externals \<Rightarrow> string \<Rightarrow> unit io" where
  "createBranch cfg ext branchName =
     io_seq (console Info [Txt ''Creating branch:'', Txt branchName])
    (io_seq (run ext (Cd (TEMP_DIR cfg)))
    (io_seq
       (io_catch
          (io_seq (run ext (GitCheckoutB branchName))
             (console Info [Txt (''Branch '' @ branchName @ '' created successfully.'')]))
          (\<lambda>e. io_seq (console Err [Txt ''Error creating branch:'', ObjError e])
                 (process_exit 1)))
    (io_seq (run ext (Cd (ROOT_DIR cfg))) (io_return ()))))"

subsection \<open>Change-set retrieval\<close>

text \<open>
  The reference of \<^verbatim>\<open>getMergedPullRequests\<close> is a JavaScript number (pull-request numbers
  are integers) or a string.
\<close>

datatype reference = JNum int | JStr string

definition show_reference :: "reference \<Rightarrow> string" where
  "show_reference r = (case r of JNum n \<Rightarrow> show_int n | JStr s \<Rightarrow> s)"

definition closed_query :: string where
  "closed_query = ''?base=master&state=closed&sort=updated&direction=desc''"

definition getMergedPullRequests :: "config \<Rightarrow> externals \<Rightarrow> reference \<Rightarrow> pull list io" where
  "getMergedPullRequests cfg ext since =
     io_seq (console Info [Txt (''Getting merged PRs since '' @ show_reference since @ ''...'')])
    (io_bind
       (case since of
          JNum n \<Rightarrow> io_return closed_query
        | JStr s \<Rightarrow>
            (if \<not> parseInt_isNaN ext s then io_return closed_query
             else (case date_toISOString ext s of
                     None \<Rightarrow> io_throw RangeError
                   | Some stamp \<Rightarrow> io_return (closed_query @ ''&since='' @ stamp))))
       (\<lambda>query.
          io_seq (console Info [Txt (''Fetching PRs from: '' @ repo_url cfg @ ''/pulls'' @ query)])
         (io_bind (fetch ext (api_get cfg (repo_url cfg @ ''/pulls'' @ query)))
            (\<lambda>response.
               if \<not> response_ok response then
                 io_seq (console Err [Txt (api_error response)])
                (io_seq (console Err [Txt (resp_text response)])
                   (process_exit 1))
               else
                 (case resp_json response of
                    BadJson \<Rightarrow> io_throw SyntaxError
                  | PullsJson prs \<Rightarrow>
                      io_seq
                        (console Info
                           [Txt (''Found ''
                              @ show_nat (length (filter (\<lambda>pr. merged_at pr \<noteq> Json_null) prs))
                              @ '' merged PRs'')])
                        (case since of
                           JNum n \<Rightarrow>
                             io_return
                               (filter (\<lambda>pr. number pr > n)
                                  (filter (\<lambda>pr. merged_at pr \<noteq> Json_null) prs))
                         | JStr s \<Rightarrow> io_return (filter (\<lambda>pr. merged_at pr \<noteq> Json_null) prs))
                  | PullJson p \<Rightarrow> io_throw TypeError
                  | FilesJson files \<Rightarrow> io_throw TypeError
                  | OtherJson \<Rightarrow> io_throw TypeError)))))"

definition getPRDetails :: "config \<Rightarrow> externals \<Rightarrow> string \<Rightarrow> json io" where
  "getPRDetails cfg ext prNumber =
     io_seq (console Info [Txt (''Getting details for PR #'' @ prNumber @ ''...'')])
    (io_bind (fetch ext (api_get cfg (repo_url cfg @ ''/pulls/'' @ prNumber)))
       (\<lambda>response.
          if \<not> response_ok response then
            io_seq (console Err [Txt (api_error response)]) (process_exit 1)
          else
            (case resp_json response of
               BadJson \<Rightarrow> io_throw SyntaxError
             | PullJson p \<Rightarrow> io_return (PullJson p)
             | FilesJson files \<Rightarrow> io_return (FilesJson files)
             | PullsJson ps \<Rightarrow> io_return (PullsJson ps)
             | OtherJson \<Rightarrow> io_return OtherJson)))"

text \<open>The callback of \<^verbatim>\<open>files.map\<close>: the status normalisation of one descriptor.\<close>

definition normalize_status :: "string \<Rightarrow> string" where
  "normalize_status s =
     (if s = ''added'' then ''added''
      else if s = ''modified'' then ''modified''
      else if s = ''removed'' then ''removed''
      else if s = ''renamed'' then ''renamed''
      else ''unknown'')"

definition convert_file :: "gh_file \<Rightarrow> change" where
  "convert_file file =
     \<lparr>status = normalize_status (gh_status file),
      path = filename file,
      previous_path =
        (if normalize_status (gh_status file) = ''renamed'' then previous_filename file
         else None)\<rparr>"

fun convert_files :: "gh_file list \<Rightarrow> change list io" where
  "convert_files [] = io_return []"
| "convert_files (file # files) =
     io_seq (console Info [Txt ''gh file:'', ObjFile file])
    (io_bind (convert_files files) (\<lambda>rest. io_return (convert_file file # rest)))"

definition getPRChanges :: "config \<Rightarrow> externals \<Rightarrow> string \<Rightarrow> change list io" where
  "getPRChanges cfg ext prNumber =
     io_seq (console Info [Txt (''Getting changes for PR #'' @ prNumber @ ''...'')])
    (io_seq
       (console Info
          [Txt (''Fetching changes from: '' @ repo_url cfg @ ''/pulls/'' @ prNumber @ ''/files'')])
    (io_bind (fetch ext (api_get cfg (repo_url cfg @ ''/pulls/'' @ prNumber @ ''/files'')))
       (\<lambda>response.
          if \<not> response_ok response then
            io_seq (console Err [Txt (api_error response)]) (process_exit 1)
          else
            (case resp_json response of
               BadJson \<Rightarrow> io_throw SyntaxError
             | FilesJson files \<Rightarrow> convert_files files
             | PullJson p \<Rightarrow> io_throw TypeError
             | PullsJson ps \<Rightarrow> io_throw TypeError
             | OtherJson \<Rightarrow> io_throw TypeError))))"

subsection \<open>Change replay\<close>

text \<open>
  \<^verbatim>\<open>syncChange\<close>. The two paths are computed before the \<^verbatim>\<open>switch\<close>; \<^verbatim>\<open>path.join\<close> throws
  a \<^verbatim>\<open>TypeError\<close> on an argument that is not a string (an unset package location, a
  renamed entry without previous path). A status outside the four cases falls through
  the \<^verbatim>\<open>switch\<close>. The source path is the local \<^verbatim>\<open>sourcePath\<close>, the translated
  locations are \<^verbatim>\<open>targetPath\<close> and \<^verbatim>\<open>previousTargetPath\<close>; deleting a target if it exists
  (\<open>remove_target\<close>) is written twice in the source.
\<close>

definition sourcePath :: "config \<Rightarrow> change \<Rightarrow> abs_path" where
  "sourcePath cfg change = path_resolve (ROOT_DIR cfg) (path change)"

definition targetPath :: "config \<Rightarrow> string \<Rightarrow> change \<Rightarrow> location" where
  "targetPath cfg pkg change = path_join (TEMP_DIR cfg) pkg (path change)"

definition previousTargetPath :: "config \<Rightarrow> string \<Rightarrow> string \<Rightarrow> location" where
  "previousTargetPath cfg pkg previous = path_join (TEMP_DIR cfg) pkg previous"

definition copy_source :: "externals \<Rightarrow> abs_path \<Rightarrow> location \<Rightarrow> unit io" where
  "copy_source ext src t = io_seq (run ext (Cp src t)) (io_return ())"

definition remove_target :: "externals \<Rightarrow> location \<Rightarrow> unit io" where
  "remove_target ext t =
     io_bind (existsSync t)
       (\<lambda>present. if present then io_seq (run ext (Rm t)) (io_return ()) else io_return ())"

definition warn_missing :: "abs_path \<Rightarrow> unit io" where
  "warn_missing src = console Warn [Txt (''Source file does not exist: '' @ show_path src)]"

definition syncChange :: "config \<Rightarrow> externals \<Rightarrow> change \<Rightarrow> unit io" where
  "syncChange cfg ext change =
     io_seq (console Info [Txt ''Syncing change:'', ObjChange change])
       (case env_MONOREPO_PACKAGE_LOCATION cfg of
          None \<Rightarrow> io_throw TypeError
        | Some pkg \<Rightarrow>
            (if status change = ''added'' \<or> status change = ''modified'' then
               io_seq
                 (console Info
                    [Txt (''Copying '' @ show_path (sourcePath cfg change) @ '' to ''
                       @ show_location (targetPath cfg pkg change))])
              (io_seq (run ext (MkdirP (dirname (targetPath cfg pkg change))))
              (io_bind (existsSync (sourcePath cfg change, False))
                 (\<lambda>present.
                    if present then
                      copy_source ext (sourcePath cfg change) (targetPath cfg pkg change)
                    else warn_missing (sourcePath cfg change))))
             else if status change = ''removed'' then
               io_seq
                 (console Info [Txt (''Removing '' @ show_location (targetPath cfg pkg change))])
                 (remove_target ext (targetPath cfg pkg change))
             else if status change = ''renamed'' then
               (case previous_path change of
                  None \<Rightarrow> io_throw TypeError
                | Some previous \<Rightarrow>
                    io_seq
                      (console Info
                         [Txt (''Renaming '' @ show_location (previousTargetPath cfg pkg previous)
                            @ '' to '' @ show_location (targetPath cfg pkg change))])
                   (io_seq (remove_target ext (previousTargetPath cfg pkg previous))
                   (io_bind (existsSync (sourcePath cfg change, False))
                      (\<lambda>present.
                         if present then
                           io_seq (run ext (MkdirP (dirname (targetPath cfg pkg change))))
                             (copy_source ext (sourcePath cfg change) (targetPath cfg pkg change))
                         else warn_missing (sourcePath cfg change)))))
             else io_return ()))"

text \<open>The loop of \<^verbatim>\<open>syncPR\<close> over the change list.\<close>

fun syncChanges :: "config \<Rightarrow> externals \<Rightarrow> change list \<Rightarrow> unit io" where
  "syncChanges cfg ext [] = io_return ()"
| "syncChanges cfg ext (change # changes) =
     io_seq (syncChange cfg ext change) (syncChanges cfg ext changes)"

subsection \<open>Commit and publish\<close>

definition newline :: char where
  "newline = CHR 0x0A"

definition branch_name :: "pull \<Rightarrow> nat \<Rightarrow> string" where
  "branch_name pr now = ''sync-pr-'' @ show_int (number pr) @ ''-'' @ slice_last 6 (show_nat now)"

definition commitMessage :: "pull \<Rightarrow> string" where
  "commitMessage pr =
     ''Sync changes from PR #'' @ show_int (number pr) @ '': '' @ title pr
       @ [newline, newline] @ ''Original PR: '' @ html_url pr"

definition prBody :: "config \<Rightarrow> pull \<Rightarrow> string \<Rightarrow> string" where
  "prBody cfg pr prUser =
     ''This PR syncs changes from ['' @ show_opt (env_SOURCE_REPO_NAME cfg) @ '' PR #''
       @ show_int (number pr) @ '']('' @ html_url pr @ '') by @'' @ prUser @ ''.''
       @ [newline, newline]
       @ (if truthy (body pr) then
            ''## Original PR Description'' @ [newline, newline] @ show_opt (body pr)
              @ [newline, newline]
          else [])
       @ ''## Note'' @ [newline, newline]
       @ ''This PR was automatically created by the repository sync tool.''"

definition create_pr_request :: "config \<Rightarrow> pull \<Rightarrow> string \<Rightarrow> string \<Rightarrow> request" where
  "create_pr_request cfg pr prUser branchName =
     \<lparr>req_method = ''POST'',
      req_url = ''https://api.github.com/repos/formio/formio-monorepo/pulls'',
      req_headers =
        [(''Authorization'', ''token '' @ show_opt (env_GH_TOKEN cfg)),
         (''Content-Type'', ''application/json'')],
      req_body =
        [(''title'', ''[Sync PR #'' @ show_int (number pr) @ ''] '' @ title pr),
         (''body'', prBody cfg pr prUser),
         (''head'', branchName),
         (''base'', ''main'')]\<rparr>"

text \<open>
  The part of \<^verbatim>\<open>syncPR\<close> after the replay loop, in the order of the source: the status
  query and the no-op return (\<open>publish\<close>), the author identity, staging, commit and push
  (\<open>commit_and_push\<close>), and the request that opens the pull request with its two ways
  out (\<open>open_pull_request\<close>). The result is \<open>None\<close> for \<^verbatim>\<open>null\<close>, or the JSON of the
  created pull request. A command carries the values of the script's expressions;
  what the shell makes of them (the two \<^verbatim>\<open>git config\<close> lines put the value between
  double quotes, where the quoting that \<^verbatim>\<open>$\<close> adds to a name with a space stays
  literal) is part of the command's answer.
\<close>

definition commit_and_push :: "externals \<Rightarrow> pull \<Rightarrow> gh_user \<Rightarrow> string \<Rightarrow> unit io" where
  "commit_and_push ext pr u branchName =
     io_seq (run ext (GitConfig ''user.name'' (show_opt (js_or (name u) (Some (login u))))))
    (io_seq
       (run ext
          (GitConfig ''user.email''
             (show_opt (js_or (email u) (Some (login u @ ''@users.noreply.github.com''))))))
    (io_seq (run ext GitAddAll)
    (io_seq (run ext (GitCommit (commitMessage pr)))
    (io_seq (run ext (GitPush branchName)) (io_return ())))))"

definition open_pull_request :: "config \<Rightarrow> externals \<Rightarrow> pull \<Rightarrow> gh_user \<Rightarrow> string \<Rightarrow> json option io" where
  "open_pull_request cfg ext pr u branchName =
     io_bind (fetch ext (create_pr_request cfg pr (login u) branchName))
       (\<lambda>response.
          if \<not> response_ok response then
            io_seq
              (console Err
                 [Txt (''Failed to create PR: '' @ show_nat (resp_status response) @ '' ''
                    @ resp_statusText response)])
           (io_seq (console Err [Txt (resp_text response)])
              (io_return None))
          else
            (case resp_json response of
               BadJson \<Rightarrow> io_throw SyntaxError
             | PullJson p \<Rightarrow>
                 io_seq (console Info [Txt (''Created monorepo PR: '' @ html_url p)])
                   (io_return (Some (PullJson p)))
             | FilesJson files \<Rightarrow>
                 io_seq (console Info [Txt ''Created monorepo PR: undefined''])
                   (io_return (Some (FilesJson files)))
             | PullsJson ps \<Rightarrow>
                 io_seq (console Info [Txt ''Created monorepo PR: undefined''])
                   (io_return (Some (PullsJson ps)))
             | OtherJson \<Rightarrow>
                 io_seq (console Info [Txt ''Created monorepo PR: undefined''])
                   (io_return (Some OtherJson))))"

definition publish :: "config \<Rightarrow> externals \<Rightarrow> pull \<Rightarrow> gh_user \<Rightarrow> string \<Rightarrow> json option io" where
  "publish cfg ext pr u branchName =
     io_seq (run ext (Cd (TEMP_DIR cfg)))
    (io_bind (run ext GitStatus)
       (\<lambda>gitStatus.
          if trim_is_empty gitStatus then
            io_seq (console Info [Txt (''No changes to commit for PR #'' @ show_int (number pr))])
              (io_return None)
          else
            io_seq (commit_and_push ext pr u branchName)
              (open_pull_request cfg ext pr u branchName)))"

definition syncPR_pull :: "config \<Rightarrow> externals \<Rightarrow> pull \<Rightarrow> gh_user \<Rightarrow> json option io" where
  "syncPR_pull cfg ext pr u =
     io_seq
       (console Info
          [Txt (''Syncing PR #'' @ show_int (number pr) @ '': '' @ [CHR 0x22] @ title pr
             @ [CHR 0x22] @ '' by '' @ login u)])
    (io_bind (Date_now ext)
       (\<lambda>now.
          io_seq (createBranch cfg ext (branch_name pr now))
         (io_bind (getPRChanges cfg ext (show_int (number pr)))
            (\<lambda>changes.
               io_seq (syncChanges cfg ext changes)
                 (publish cfg ext pr u (branch_name pr now))))))"

text \<open>
  \<^verbatim>\<open>syncPR\<close>: reading \<^verbatim>\<open>pr.user.login\<close> throws a \<^verbatim>\<open>TypeError\<close> when the JSON is not a
  pull request with a user.
\<close>

definition syncPR :: "config \<Rightarrow> externals \<Rightarrow> json \<Rightarrow> json option io" where
  "syncPR cfg ext j =
     (case j of
        PullJson pr \<Rightarrow>
          (case user pr of
             None \<Rightarrow> io_throw TypeError
           | Some u \<Rightarrow> syncPR_pull cfg ext pr u)
      | BadJson \<Rightarrow> io_throw TypeError
      | FilesJson files \<Rightarrow> io_throw TypeError
      | PullsJson ps \<Rightarrow> io_throw TypeError
      | OtherJson \<Rightarrow> io_throw TypeError)"

subsection \<open>Orchestration\<close>

definition prNumber_arg :: "config \<Rightarrow> string option" where
  "prNumber_arg cfg = js_or (argv2 cfg) (env_PR_NUMBER cfg)"

definition sync :: "config \<Rightarrow> externals \<Rightarrow> unit io" where
  "sync cfg ext =
     (if \<not> truthy (prNumber_arg cfg) then
        io_seq (console Err [Txt ''Please provide a PR number or date to sync from.''])
          (process_exit 1)
      else if \<not> truthy (env_GH_TOKEN cfg) then
        io_seq
          (console Err
             [Txt ''Please set the GH_TOKEN environment variable with a valid GitHub token.''])
          (process_exit 1)
      else if \<not> truthy (env_MONOREPO_PACKAGE_LOCATION cfg) then
        io_seq
          (console Err
             [Txt (''Please set the MONOREPO_PACKAGE_LOCATION environment variable ''
                @ ''with the relative monorepo path to package.'')])
          (process_exit 1)
      else if \<not> truthy (env_SOURCE_REPO_NAME cfg) then
        io_seq
          (console Err
             [Txt (''Please set the SOURCE_REPO_NAME environment variable ''
                @ ''with the name of the source repo.'')])
          (process_exit 1)
      else
        io_seq (cloneMonoRepo cfg ext)
       (io_bind (getPRDetails cfg ext (show_opt (prNumber_arg cfg)))
          (\<lambda>prDetails.
             io_seq (syncPR cfg ext prDetails)
               (console Info [Txt ''Sync completed successfully!'']))))"

section \<open>Reading a trace\<close>

text \<open>
  Kinds of events. The events of a run up to the status query are staging events:
  console lines, the commands of cloning, branching and replay, and \<^verbatim>\<open>GET\<close> requests.
  The publishing events are the author configuration, staging, commit and push
  commands, and a \<^verbatim>\<open>POST\<close> request.
\<close>

fun status_run :: "event \<Rightarrow> bool" where
  "status_run (Ran c ok out) = (c = GitStatus)"
| "status_run (Console l args) = False"
| "status_run (Fetched rq r) = False"

fun is_fetch :: "event \<Rightarrow> bool" where
  "is_fetch (Fetched rq r) = True"
| "is_fetch (Console l args) = False"
| "is_fetch (Ran c ok out) = False"

fun is_staging_command :: "command \<Rightarrow> bool" where
  "is_staging_command (MkdirP p) = True"
| "is_staging_command (Cp s t) = True"
| "is_staging_command (Rm t) = True"
| "is_staging_command (RmRf p) = True"
| "is_staging_command (GitClone u p) = True"
| "is_staging_command (GitCheckoutB b) = True"
| "is_staging_command (Cd p) = True"
| "is_staging_command GitStatus = False"
| "is_staging_command (GitConfig k v) = False"
| "is_staging_command GitAddAll = False"
| "is_staging_command (GitCommit m) = False"
| "is_staging_command (GitPush b) = False"

fun staging_event :: "event \<Rightarrow> bool" where
  "staging_event (Console l args) = True"
| "staging_event (Ran c ok out) = is_staging_command c"
| "staging_event (Fetched rq r) = (req_method rq = ''GET'')"

fun publishing_event :: "event \<Rightarrow> bool" where
  "publishing_event (Console l args) = False"
| "publishing_event (Ran c ok out) =
     (case c of GitCommit m \<Rightarrow> True | GitPush b \<Rightarrow> True | GitAddAll \<Rightarrow> True
      | GitConfig k v \<Rightarrow> True | MkdirP p \<Rightarrow> False | Cp s t \<Rightarrow> False | Rm t \<Rightarrow> False
      | RmRf p \<Rightarrow> False | GitClone u p \<Rightarrow> False | GitCheckoutB b \<Rightarrow> False
      | GitStatus \<Rightarrow> False | Cd p \<Rightarrow> False)"
| "publishing_event (Fetched rq r) = (req_method rq = ''POST'')"

text \<open>
  An action emits \<open>P\<close> when, from every world, it only appends events that satisfy \<open>P\<close>
  to the trace.
\<close>

definition emits :: "(event \<Rightarrow> bool) \<Rightarrow> 'a io \<Rightarrow> bool" where
  "emits P m = (\<forall>w. \<exists>evs. trace (snd (m w)) = trace w @ evs \<and> list_all P evs)"

text \<open>
  The run of \<^verbatim>\<open>sync\<close> with a complete configuration, up to the point where \<^verbatim>\<open>syncPR\<close>
  queries the status: cloning, the pull request's details, the branch, the change list
  and its replay. It hands the pull request, its author and the branch name to the
  rest of \<^verbatim>\<open>syncPR\<close>.
\<close>

definition stage_pull :: "config \<Rightarrow> externals \<Rightarrow> pull \<Rightarrow> gh_user \<Rightarrow> (pull \<times> gh_user \<times> string) io" where
  "stage_pull cfg ext pr u =
     io_seq
       (console Info
          [Txt (''Syncing PR #'' @ show_int (number pr) @ '': '' @ [CHR 0x22] @ title pr
             @ [CHR 0x22] @ '' by '' @ login u)])
    (io_bind (Date_now ext)
       (\<lambda>now.
          io_seq (createBranch cfg ext (branch_name pr now))
         (io_bind (getPRChanges cfg ext (show_int (number pr)))
            (\<lambda>changes.
               io_seq (syncChanges cfg ext changes)
                 (io_return (pr, u, branch_name pr now))))))"

definition stage_json :: "config \<Rightarrow> externals \<Rightarrow> json \<Rightarrow> (pull \<times> gh_user \<times> string) io" where
  "stage_json cfg ext j =
     (case j of
        PullJson pr \<Rightarrow>
          (case user pr of
             None \<Rightarrow> io_throw TypeError
           | Some u \<Rightarrow> stage_pull cfg ext pr u)
      | BadJson \<Rightarrow> io_throw TypeError
      | FilesJson files \<Rightarrow> io_throw TypeError
      | PullsJson ps \<Rightarrow> io_throw TypeError
      | OtherJson \<Rightarrow> io_throw TypeError)"

definition staging :: "config \<Rightarrow> externals \<Rightarrow> (pull \<times> gh_user \<times> string) io" where
  "staging cfg ext =
     io_seq (cloneMonoRepo cfg ext)
       (io_bind (getPRDetails cfg ext (show_opt (prNumber_arg cfg))) (stage_json cfg ext))"


text \<open>
  The bytes read through a location: those of the regular file it names, if any.
\<close>

definition content_at :: "filesystem \<Rightarrow> location \<Rightarrow> string option" where
  "content_at f t =
     (case lookup f (fst t) of
        Some (File c) \<Rightarrow> (if snd t then None else Some c)
      | Some Dir \<Rightarrow> None
      | None \<Rightarrow> None)"

text \<open>
  What the added/modified case of \<^verbatim>\<open>syncChange\<close> does to the file system, and whether
  it returns: the directory chain, the existence check, the copy.
\<close>

definition copy_step :: "filesystem \<Rightarrow> abs_path \<Rightarrow> location \<Rightarrow> bool \<times> filesystem" where
  "copy_step f src t =
     (if \<not> fst (mkdir_p f (dirname t)) then (False, snd (mkdir_p f (dirname t)))
      else if exists_at (snd (mkdir_p f (dirname t))) (src, False) then
        (case cp (snd (mkdir_p f (dirname t))) src t of
           None \<Rightarrow> (False, snd (mkdir_p f (dirname t)))
         | Some f' \<Rightarrow> (True, f'))
      else (True, snd (mkdir_p f (dirname t))))"

text \<open>
  The same for the renamed case: the deletion at the previous location, then the
  existence check, the directory chain and the copy.
\<close>

definition rename_step :: "filesystem \<Rightarrow> location \<Rightarrow> abs_path \<Rightarrow> location \<Rightarrow> bool \<times> filesystem" where
  "rename_step f p src t =
     (case (if exists_at f p then rm f p else Some f) of
        None \<Rightarrow> (False, f)
      | Some f1 \<Rightarrow>
          (if exists_at f1 (src, False) then
             (if \<not> fst (mkdir_p f1 (dirname t)) then (False, snd (mkdir_p f1 (dirname t)))
              else (case cp (snd (mkdir_p f1 (dirname t))) src t of
                      None \<Rightarrow> (False, snd (mkdir_p f1 (dirname t)))
                    | Some f2 \<Rightarrow> (True, f2)))
           else (True, f1)))"

text \<open>
  A change list of added and modified entries, seen from the file system: the list of
  its source paths and translated locations, replayed by \<open>copy_step\<close> until a step
  fails. The copy of an entry writes one regular file: at the translated location,
  or inside it when it is a directory (\<open>dest\<close>); \<open>writes\<close> lists these destinations
  with the bytes written, in order. Two file systems have the same kind when they
  hold directories at the same paths and regular files at the same paths.
\<close>

fun replay_fs :: "filesystem \<Rightarrow> (abs_path \<times> location) list \<Rightarrow> bool \<times> filesystem" where
  "replay_fs f [] = (True, f)"
| "replay_fs f (x # xs) =
     (if fst (copy_step f (fst x) (snd x)) then replay_fs (snd (copy_step f (fst x) (snd x))) xs
      else (False, snd (copy_step f (fst x) (snd x))))"

definition dest :: "filesystem \<Rightarrow> abs_path \<Rightarrow> location \<Rightarrow> abs_path" where
  "dest f s t = (if lookup f (fst t) = Some Dir then fst t @ [last s] else fst t)"

definition bytes_of :: "filesystem \<Rightarrow> abs_path \<Rightarrow> string" where
  "bytes_of f s = (case lookup f s of Some (File b) \<Rightarrow> b | Some Dir \<Rightarrow> [] | None \<Rightarrow> [])"

fun writes :: "filesystem \<Rightarrow> (abs_path \<times> location) list \<Rightarrow> (abs_path \<times> string) list" where
  "writes f [] = []"
| "writes f (x # xs) =
     (dest f (fst x) (snd x), bytes_of f (fst x)) # writes (snd (copy_step f (fst x) (snd x))) xs"

fun apply_writes :: "(abs_path \<times> string) list \<Rightarrow> filesystem \<Rightarrow> filesystem" where
  "apply_writes [] g = g"
| "apply_writes (x # xs) g = apply_writes xs (g(fst x \<mapsto> File (snd x)))"

definition same_kind :: "filesystem \<Rightarrow> filesystem \<Rightarrow> bool" where
  "same_kind g f =
     (\<forall>q. (lookup g q = Some Dir) = (lookup f q = Some Dir) \<and>
          (\<exists>b. lookup g q = Some (File b)) = (\<exists>b. lookup f q = Some (File b)))"

definition sources_apart :: "(abs_path \<times> location) list \<Rightarrow> bool" where
  "sources_apart xs =
     (\<forall>x\<in>set xs. \<forall>y\<in>set xs. fst x \<noteq> fst (snd y) \<and> fst x \<noteq> fst (snd y) @ [last (fst y)])"

definition regular_sources :: "filesystem \<Rightarrow> (abs_path \<times> location) list \<Rightarrow> bool" where
  "regular_sources f xs = (\<forall>x\<in>set xs. \<exists>b. lookup f (fst x) = Some (File b))"

text \<open>
  A path is inside a directory when it is that directory or lies below it.
\<close>

definition inside :: "abs_path \<Rightarrow> abs_path \<Rightarrow> bool" where
  "inside d p = (take (length d) p = d)"

definition replay_pairs :: "config \<Rightarrow> string \<Rightarrow> change list \<Rightarrow> (abs_path \<times> location) list" where
  "replay_pairs cfg pkg cs = map (\<lambda>c. (sourcePath cfg c, targetPath cfg pkg c)) cs"

section \<open>Concrete inputs\<close>

text \<open>
  A checkout at \<^verbatim>\<open>/work/formio\<close>, so that the staged clone is \<^verbatim>\<open>/work/tmp/formio-monorepo\<close>,
  with the package location \<^verbatim>\<open>apps/server\<close>; an outside world in which every command
  the model does not interpret succeeds silently and no HTTP request gets through.
\<close>

definition demo_config :: config where
  "demo_config =
     \<lparr>cwd = [''work'', ''formio''], argv2 = Some ''7'', env_PR_NUMBER = None,
      env_GH_TOKEN = Some ''secret'', env_MONOREPO_PACKAGE_LOCATION = Some ''apps/server'',
      env_SOURCE_REPO_NAME = Some ''formio'', env_SOURCE_REPO_OWNER = None\<rparr>"

definition demo_externals :: externals where
  "demo_externals =
     \<lparr>shell_out = (\<lambda>tr f c. (True, [], f)), http = (\<lambda>tr rq. None), date_now = (\<lambda>tr. 0),
      parseInt_isNaN = (\<lambda>s. True), date_toISOString = (\<lambda>s. None)\<rparr>"

definition staged_root :: abs_path where
  "staged_root = [''work'', ''tmp'', ''formio-monorepo'']"

definition demo_dirs :: filesystem where
  "demo_dirs =
     [[''work''] \<mapsto> Dir, [''work'', ''formio''] \<mapsto> Dir, [''work'', ''tmp''] \<mapsto> Dir,
      staged_root \<mapsto> Dir, staged_root @ [''apps''] \<mapsto> Dir,
      staged_root @ [''apps'', ''server''] \<mapsto> Dir]"

definition copied_file :: gh_file where
  "copied_file = \<lparr>gh_status = ''copied'', filename = ''a/b.txt'', previous_filename = Some ''a/c.txt''\<rparr>"

text \<open>
  A file list of two descriptors, the first with a status the script does not know,
  and an outside world that answers every request with it.
\<close>

definition added_file :: gh_file where
  "added_file = \<lparr>gh_status = ''added'', filename = ''a/b.txt'', previous_filename = None\<rparr>"

definition files_response :: response where
  "files_response =
     \<lparr>resp_status = 200, resp_statusText = ''OK'', resp_text = [],
      resp_json = FilesJson [copied_file, added_file]\<rparr>"

definition files_externals :: externals where
  "files_externals = demo_externals\<lparr>http := (\<lambda>tr rq. Some files_response)\<rparr>"

text \<open>
  A pull request of the source repository, and an outside world that answers the two
  \<^verbatim>\<open>GET\<close> requests of a run for it (with an empty file list), prints \<open>porcelain\<close> for the
  status query and answers the \<^verbatim>\<open>POST\<close> with the status code \<open>created\<close>.
\<close>

definition demo_pull :: pull where
  "demo_pull =
     \<lparr>number = 7, title = ''Fix'',
      user = Some \<lparr>login = ''ann'', name = None, email = None\<rparr>,
      html_url = ''https://github.com/formio/formio/pull/7'', body = None,
      merged_at = Merged ''2024-01-01T00:00:00Z''\<rparr>"

definition scripted_externals :: "string \<Rightarrow> nat \<Rightarrow> externals" where
  "scripted_externals porcelain created =
     \<lparr>shell_out = (\<lambda>tr f c. (True, if c = GitStatus then porcelain else [], f)),
      http = (\<lambda>tr rq.
        if req_method rq = ''POST'' then
          Some \<lparr>resp_status = created, resp_statusText = ''Unprocessable Entity'',
                resp_text = ''Validation Failed'', resp_json = OtherJson\<rparr>
        else
          Some \<lparr>resp_status = 200, resp_statusText = ''OK'', resp_text = [],
                resp_json =
                  (if req_url rq = ''https://api.github.com/repos/formio/formio/pulls/7''
                   then PullJson demo_pull else FilesJson [])\<rparr>),
      date_now = (\<lambda>tr. 123456),
      parseInt_isNaN = (\<lambda>s. True), date_toISOString = (\<lambda>s. None)\<rparr>"

text \<open>
  Three pull requests of a listing: numbers 3 and 9 are merged, number 10 is closed
  without a merge. The outside world of the listing answers every request with the
  three, and its runtime reads an integer from a string as \<^verbatim>\<open>parseInt\<close> does: after
  leading white space and a sign, a decimal digit, or a hexadecimal digit after
  \<^verbatim>\<open>0x\<close>.
\<close>

definition listed_pull :: "int \<Rightarrow> merge_stamp \<Rightarrow> pull" where
  "listed_pull n merged =
     \<lparr>number = n, title = ''t'', user = None, html_url = [], body = None, merged_at = merged\<rparr>"

definition leading_number :: "string \<Rightarrow> bool" where
  "leading_number s =
     (case dropWhile is_space s of
        [] \<Rightarrow> False
      | c # cs \<Rightarrow>
          (case (if c = CHR ''+'' \<or> c = CHR ''-'' then cs else c # cs) of
             [] \<Rightarrow> False
           | d # ds \<Rightarrow>
               (if d = CHR ''0'' \<and> ds \<noteq> [] \<and> (hd ds = CHR ''x'' \<or> hd ds = CHR ''X'')
                then tl ds \<noteq> [] \<and> hd (tl ds) \<in> set ''0123456789abcdefABCDEF''
                else d \<in> set ''0123456789'')))"

definition listing_externals :: externals where
  "listing_externals =
     \<lparr>shell_out = (\<lambda>tr f c. (True, [], f)),
      http = (\<lambda>tr rq.
        Some \<lparr>resp_status = 200, resp_statusText = ''OK'', resp_text = [],
              resp_json =
                PullsJson [listed_pull 3 (Merged ''2024-01-01T00:00:00Z''),
                           listed_pull 9 (Merged ''2024-02-01T00:00:00Z''),
                           listed_pull 10 Json_null]\<rparr>),
      date_now = (\<lambda>tr. 0),
      parseInt_isNaN = (\<lambda>s. \<not> leading_number s), date_toISOString = (\<lambda>s. None)\<rparr>"

text \<open>
  Change entries and file systems for the replay: the specification's example (the
  added file \<^verbatim>\<open>a/b.txt\<close> with content \<^verbatim>\<open>hello\<close>); an added file \<^verbatim>\<open>docs\<close> where the staged
  package has a directory of that name; a file renamed from \<^verbatim>\<open>docs/docs\<close> to \<^verbatim>\<open>docs\<close>; a
  plain rename inside \<^verbatim>\<open>a\<close>; two renamed entries and an added entry whose source files
  are missing, the second renamed one with a previous path that is a directory of the
  staged package.
\<close>

definition hello_entry :: change where
  "hello_entry = \<lparr>status = ''added'', path = ''a/b.txt'', previous_path = None\<rparr>"

definition hello_fs :: filesystem where
  "hello_fs =
     demo_dirs([''work'', ''formio'', ''a''] \<mapsto> Dir,
               [''work'', ''formio'', ''a'', ''b.txt''] \<mapsto> File ''hello'')"

definition docs_entry :: change where
  "docs_entry = \<lparr>status = ''added'', path = ''docs'', previous_path = None\<rparr>"

definition docs_fs :: filesystem where
  "docs_fs =
     demo_dirs([''work'', ''formio'', ''docs''] \<mapsto> File ''hello'',
               staged_root @ [''apps'', ''server'', ''docs''] \<mapsto> Dir)"

definition moved_entry :: change where
  "moved_entry = \<lparr>status = ''renamed'', path = ''docs'', previous_path = Some ''docs/docs''\<rparr>"

definition moved_fs :: filesystem where
  "moved_fs =
     demo_dirs([''work'', ''formio'', ''docs''] \<mapsto> File ''new'',
               staged_root @ [''apps'', ''server'', ''docs''] \<mapsto> Dir,
               staged_root @ [''apps'', ''server'', ''docs'', ''docs''] \<mapsto> File ''old'')"

definition renamed_entry :: change where
  "renamed_entry = \<lparr>status = ''renamed'', path = ''a/b.txt'', previous_path = Some ''a/old.txt''\<rparr>"

definition renamed_fs :: filesystem where
  "renamed_fs =
     hello_fs(staged_root @ [''apps'', ''server'', ''a''] \<mapsto> Dir,
              staged_root @ [''apps'', ''server'', ''a'', ''old.txt''] \<mapsto> File ''old'')"

definition vanished_entry :: change where
  "vanished_entry = \<lparr>status = ''renamed'', path = ''gone.txt'', previous_path = Some ''a/old.txt''\<rparr>"

definition folder_entry :: change where
  "folder_entry = \<lparr>status = ''renamed'', path = ''gone.txt'', previous_path = Some ''a''\<rparr>"

definition orphan_entry :: change where
  "orphan_entry = \<lparr>status = ''added'', path = ''lib/new/f.txt'', previous_path = None\<rparr>"

text \<open>
  A checkout in a directory named \<^verbatim>\<open>tmp\<close>: the staged clone \<^verbatim>\<open>../tmp/formio-monorepo\<close> then
  lies inside the checkout, and the staged file \<^verbatim>\<open>apps/server/x.txt\<close> is the source of
  the first of two added entries and the translated location of the second. And a
  change list of two entries in the ordinary checkout.
\<close>

definition nested_config :: config where
  "nested_config = demo_config\<lparr>cwd := [''work'', ''tmp'']\<rparr>"

definition staged_entry :: change where
  "staged_entry =
     \<lparr>status = ''added'', path = ''formio-monorepo/apps/server/x.txt'', previous_path = None\<rparr>"

definition outer_entry :: change where
  "outer_entry = \<lparr>status = ''added'', path = ''x.txt'', previous_path = None\<rparr>"

definition nested_changes :: "change list" where
  "nested_changes = [staged_entry, outer_entry]"

definition nested_fs :: filesystem where
  "nested_fs =
     [[''work''] \<mapsto> Dir, [''work'', ''tmp''] \<mapsto> Dir,
      [''work'', ''tmp'', ''x.txt''] \<mapsto> File ''new'',
      [''work'', ''tmp'', ''formio-monorepo''] \<mapsto> Dir,
      [''work'', ''tmp'', ''formio-monorepo'', ''apps''] \<mapsto> Dir,
      [''work'', ''tmp'', ''formio-monorepo'', ''apps'', ''server''] \<mapsto> Dir,
      [''work'', ''tmp'', ''formio-monorepo'', ''apps'', ''server'', ''x.txt''] \<mapsto> File ''old'']"

definition nested_copy :: abs_path where
  "nested_copy =
     [''work'', ''tmp'', ''formio-monorepo'', ''apps'', ''server'',
      ''formio-monorepo'', ''apps'', ''server'', ''x.txt'']"

definition readme_changes :: "change list" where
  "readme_changes =
     [hello_entry, \<lparr>status = ''modified'', path = ''README.md'', previous_path = None\<rparr>]"

definition readme_fs :: filesystem where
  "readme_fs = hello_fs([''work'', ''formio'', ''README.md''] \<mapsto> File ''read me'')"

text \<open>
  The staged package with a regular file where the added entry \<^verbatim>\<open>lib/new/f.txt\<close> needs a
  directory.
\<close>

definition blocked_fs :: filesystem where
  "blocked_fs = demo_dirs(staged_root @ [''apps'', ''server'', ''lib''] \<mapsto> File ''notes'')"

section \<open>Change-set retrieval and the unknown status\<close>

lemma convert_files_result:
  "convert_files files w =
     (Returned (map convert_file files),
      w\<lparr>trace := trace w @ map (\<lambda>file. Console Info [Txt ''gh file:'', ObjFile file]) files\<rparr>)"
  by (induction files arbitrary: w)
     (simp_all add: io_return_def io_seq_def io_bind_def console_def)

lemma normalize_status_unknown:
  "s \<notin> {''added'', ''modified'', ''removed'', ''renamed''} \<Longrightarrow> normalize_status s = ''unknown''"
  by (simp add: normalize_status_def)

lemma syncChange_unknown:
  "status change = ''unknown'' \<Longrightarrow>
     syncChange cfg ext change w =
       (case env_MONOREPO_PACKAGE_LOCATION cfg of
          None \<Rightarrow>
            (Threw TypeError,
             w\<lparr>trace := trace w @ [Console Info [Txt ''Syncing change:'', ObjChange change]]\<rparr>)
        | Some pkg \<Rightarrow>
            (Returned (),
             w\<lparr>trace := trace w @ [Console Info [Txt ''Syncing change:'', ObjChange change]]\<rparr>))"
  by (simp add: syncChange_def io_seq_def io_bind_def console_def io_throw_def io_return_def
           split: option.splits)

lemma getPRChanges_trace:
  "\<exists>x evs. trace (snd (getPRChanges cfg ext prNumber w)) =
       trace w @
         [Console Info [Txt (''Getting changes for PR #'' @ prNumber @ ''...'')],
          Console Info
            [Txt (''Fetching changes from: '' @ repo_url cfg @ ''/pulls/'' @ prNumber @ ''/files'')],
          Fetched (api_get cfg (repo_url cfg @ ''/pulls/'' @ prNumber @ ''/files'')) x] @ evs \<and>
     \<not> list_ex is_fetch evs \<and>
     (\<forall>r files. x = Some r \<and> response_ok r \<and> resp_json r = FilesJson files \<longrightarrow>
        fst (getPRChanges cfg ext prNumber w) = Returned (map convert_file files))"
proof (cases "http ext (trace w @
    [Console Info [Txt (''Getting changes for PR #'' @ prNumber @ ''...'')],
     Console Info
       [Txt (''Fetching changes from: '' @ repo_url cfg @ ''/pulls/'' @ prNumber @ ''/files'')]])
    (api_get cfg (repo_url cfg @ ''/pulls/'' @ prNumber @ ''/files''))")
  case None
  then show ?thesis
    by (simp add: getPRChanges_def io_seq_def io_bind_def console_def fetch_def)
next
  case (Some r)
  show ?thesis
  proof (cases "response_ok r")
    case False
    with Some show ?thesis
      by (simp add: getPRChanges_def io_seq_def io_bind_def console_def fetch_def
            process_exit_def)
  next
    case True
    have "\<not> list_ex is_fetch (map (\<lambda>file. Console Info [Txt ''gh file:'', ObjFile file]) files)"
      for files
      by (induction files) simp_all
    with True Some show ?thesis
      by (cases "resp_json r")
         (simp_all add: getPRChanges_def io_seq_def io_bind_def console_def fetch_def
            io_throw_def convert_files_result)
  qed
qed

text \<open>
  Claim C5. Take a call of \<^verbatim>\<open>getPRChanges\<close> whose request was answered with a success
  status and a file list. It returns one entry per descriptor, in order, with the
  descriptor's file name; the entry of a descriptor whose status string is none of
  added, modified, removed, renamed has the status \<^verbatim>\<open>unknown\<close>, and for that entry
  \<^verbatim>\<open>syncChange\<close> leaves the file system as it was and does nothing but print its first
  console line: no command runs.
\<close>

theorem unknown_status_is_noop:
  assumes tr: "trace (snd (getPRChanges cfg ext prNumber w)) = trace w @ evs"
    and rq: "Fetched rq (Some r) \<in> set evs"
    and ok: "response_ok r" and js: "resp_json r = FilesJson files"
  shows "\<exists>changes. fst (getPRChanges cfg ext prNumber w) = Returned changes \<and>
     length changes = length files \<and>
     (\<forall>i<length files.
        path (changes ! i) = filename (files ! i) \<and>
        (gh_status (files ! i) \<notin> {''added'', ''modified'', ''removed'', ''renamed''} \<longrightarrow>
           status (changes ! i) = ''unknown'' \<and>
           fs (snd (syncChange cfg' ext' (changes ! i) w')) = fs w' \<and>
           trace (snd (syncChange cfg' ext' (changes ! i) w')) =
             trace w' @ [Console Info [Txt ''Syncing change:'', ObjChange (changes ! i)]]))"
proof -
  from getPRChanges_trace [of cfg ext prNumber w] obtain x tl where
    tr': "trace (snd (getPRChanges cfg ext prNumber w)) =
       trace w @
         [Console Info [Txt (''Getting changes for PR #'' @ prNumber @ ''...'')],
          Console Info
            [Txt (''Fetching changes from: '' @ repo_url cfg @ ''/pulls/'' @ prNumber @ ''/files'')],
          Fetched (api_get cfg (repo_url cfg @ ''/pulls/'' @ prNumber @ ''/files'')) x] @ tl"
    and quiet: "\<not> list_ex is_fetch tl"
    and res: "\<And>r files. x = Some r \<Longrightarrow> response_ok r \<Longrightarrow> resp_json r = FilesJson files \<Longrightarrow>
        fst (getPRChanges cfg ext prNumber w) = Returned (map convert_file files)"
    by blast
  from tr tr' have "evs =
      [Console Info [Txt (''Getting changes for PR #'' @ prNumber @ ''...'')],
       Console Info
         [Txt (''Fetching changes from: '' @ repo_url cfg @ ''/pulls/'' @ prNumber @ ''/files'')],
       Fetched (api_get cfg (repo_url cfg @ ''/pulls/'' @ prNumber @ ''/files'')) x] @ tl"
    by simp
  with rq quiet have "x = Some r" by (auto simp: list_ex_iff)
  from res [OF this ok js]
  have ret: "fst (getPRChanges cfg ext prNumber w) = Returned (map convert_file files)" .
  have "status (convert_file d) = ''unknown'' \<and>
        fs (snd (syncChange cfg' ext' (convert_file d) w')) = fs w' \<and>
        trace (snd (syncChange cfg' ext' (convert_file d) w')) =
          trace w' @ [Console Info [Txt ''Syncing change:'', ObjChange (convert_file d)]]"
    if "gh_status d \<notin> {''added'', ''modified'', ''removed'', ''renamed''}" for d
  proof -
    from that have u: "status (convert_file d) = ''unknown''"
      by (simp add: convert_file_def normalize_status_unknown)
    from syncChange_unknown [OF u, of cfg' ext' w'] u show ?thesis
      by (simp split: option.splits)
  qed
  moreover have "path (convert_file d) = filename d" for d
    by (simp add: convert_file_def)
  ultimately show ?thesis using ret by simp
qed

theorem unknown_status_is_noop_witness:
  "fst (getPRChanges demo_config files_externals ''7'' \<lparr>fs = demo_dirs, trace = []\<rparr>) =
     Returned [\<lparr>status = ''unknown'', path = ''a/b.txt'', previous_path = None\<rparr>,
               \<lparr>status = ''added'', path = ''a/b.txt'', previous_path = None\<rparr>] \<and>
   fs (snd (syncChange demo_config demo_externals
              \<lparr>status = ''unknown'', path = ''a/b.txt'', previous_path = None\<rparr>
              \<lparr>fs = demo_dirs, trace = []\<rparr>)) = demo_dirs"
proof -
  define w0 :: world where "w0 = \<lparr>fs = demo_dirs, trace = []\<rparr>"
  define rq where "rq = api_get demo_config (repo_url demo_config @ ''/pulls/7/files'')"
  have run: "getPRChanges demo_config files_externals ''7'' w0 =
      (Returned [\<lparr>status = ''unknown'', path = ''a/b.txt'', previous_path = None\<rparr>,
                 \<lparr>status = ''added'', path = ''a/b.txt'', previous_path = None\<rparr>],
       w0\<lparr>trace :=
         [Console Info [Txt ''Getting changes for PR #7...''],
          Console Info [Txt (''Fetching changes from: '' @ repo_url demo_config @ ''/pulls/7/files'')],
          Fetched rq (Some files_response),
          Console Info [Txt ''gh file:'', ObjFile copied_file],
          Console Info [Txt ''gh file:'', ObjFile added_file]]\<rparr>)"
    by (simp add: getPRChanges_def io_seq_def io_bind_def console_def fetch_def io_return_def
          files_externals_def files_response_def response_ok_def w0_def rq_def convert_file_def
          normalize_status_def copied_file_def added_file_def)
  have 1: "trace (snd (getPRChanges demo_config files_externals ''7'' w0)) = trace w0 @
      [Console Info [Txt ''Getting changes for PR #7...''],
       Console Info [Txt (''Fetching changes from: '' @ repo_url demo_config @ ''/pulls/7/files'')],
       Fetched rq (Some files_response),
       Console Info [Txt ''gh file:'', ObjFile copied_file],
       Console Info [Txt ''gh file:'', ObjFile added_file]]"
    unfolding run by (simp add: w0_def)
  have 2: "Fetched rq (Some files_response) \<in> set
      [Console Info [Txt ''Getting changes for PR #7...''],
       Console Info [Txt (''Fetching changes from: '' @ repo_url demo_config @ ''/pulls/7/files'')],
       Fetched rq (Some files_response),
       Console Info [Txt ''gh file:'', ObjFile copied_file],
       Console Info [Txt ''gh file:'', ObjFile added_file]]"
    by simp
  have 3: "response_ok files_response" "resp_json files_response = FilesJson [copied_file, added_file]"
    by (simp_all add: files_response_def response_ok_def)
  have "fst (getPRChanges demo_config files_externals ''7'' w0) =
     Returned [\<lparr>status = ''unknown'', path = ''a/b.txt'', previous_path = None\<rparr>,
               \<lparr>status = ''added'', path = ''a/b.txt'', previous_path = None\<rparr>] \<and>
   fs (snd (syncChange demo_config demo_externals
              \<lparr>status = ''unknown'', path = ''a/b.txt'', previous_path = None\<rparr> w0)) = fs w0"
    using unknown_status_is_noop [OF 1 2 3, of demo_config demo_externals w0]
    by (elim exE conjE allE [of _ 0]) (simp add: run copied_file_def)
  then show ?thesis by (simp add: w0_def)
qed

section \<open>Configuration is checked before anything is done\<close>

text \<open>
  Claim C6. When the pull-request number, the token, the package location or the
  source repository name is missing (unset or empty), \<^verbatim>\<open>sync\<close> ends the process with
  status 1; the file system is untouched and the only thing the run did is print one
  error line: no command ran and no HTTP request was sent.
\<close>

theorem missing_configuration_exits:
  assumes "\<not> truthy (prNumber_arg cfg) \<or> \<not> truthy (env_GH_TOKEN cfg)
     \<or> \<not> truthy (env_MONOREPO_PACKAGE_LOCATION cfg) \<or> \<not> truthy (env_SOURCE_REPO_NAME cfg)"
  shows "fst (sync cfg ext w) = Exited 1 \<and> fs (snd (sync cfg ext w)) = fs w \<and>
     (\<exists>msg. trace (snd (sync cfg ext w)) = trace w @ [Console Err [Txt msg]])"
  using assms
  by (auto simp: sync_def io_seq_def io_bind_def console_def process_exit_def)

theorem missing_configuration_exits_witness:
  "fst (sync (demo_config\<lparr>env_SOURCE_REPO_NAME := None\<rparr>) demo_externals
          \<lparr>fs = demo_dirs, trace = []\<rparr>) = Exited 1 \<and>
   fs (snd (sync (demo_config\<lparr>env_SOURCE_REPO_NAME := None\<rparr>) demo_externals
          \<lparr>fs = demo_dirs, trace = []\<rparr>)) = demo_dirs"
  using missing_configuration_exits [of "demo_config\<lparr>env_SOURCE_REPO_NAME := None\<rparr>"
      demo_externals "\<lparr>fs = demo_dirs, trace = []\<rparr>"]
  by (simp add: truthy_def)

section \<open>The trace of a run\<close>

lemma io_bind_assoc: "io_bind (io_bind m f) g = io_bind m (\<lambda>x. io_bind (f x) g)"
  by (rule ext) (simp add: io_bind_def split: prod.splits outcome.splits)

lemma io_bind_return: "io_bind (io_return x) k = k x"
  by (rule ext) (simp add: io_bind_def io_return_def)

lemma io_bind_throw: "io_bind (io_throw e) k = io_throw e"
  by (rule ext) (simp add: io_bind_def io_throw_def)

lemma syncPR_pull_stage:
  "syncPR_pull cfg ext pr u =
     io_bind (stage_pull cfg ext pr u) (\<lambda>(p, v, b). publish cfg ext p v b)"
  by (simp add: syncPR_pull_def stage_pull_def io_seq_def io_bind_assoc io_bind_return)

lemma syncPR_stage:
  "syncPR cfg ext j = io_bind (stage_json cfg ext j) (\<lambda>(p, v, b). publish cfg ext p v b)"
  by (simp add: syncPR_def stage_json_def syncPR_pull_stage io_bind_throw
           split: json.splits option.splits)

lemma sync_stage:
  assumes "truthy (prNumber_arg cfg)" "truthy (env_GH_TOKEN cfg)"
    "truthy (env_MONOREPO_PACKAGE_LOCATION cfg)" "truthy (env_SOURCE_REPO_NAME cfg)"
  shows "sync cfg ext =
     io_bind (staging cfg ext)
       (\<lambda>(p, v, b). io_seq (publish cfg ext p v b)
                       (console Info [Txt ''Sync completed successfully!'']))"
  using assms
  by (simp add: sync_def staging_def syncPR_stage io_seq_def io_bind_assoc split_def)

lemma emits_return: "emits P (io_return x)"
  by (simp add: emits_def io_return_def)

lemma emits_throw: "emits P (io_throw e)"
  by (simp add: emits_def io_throw_def)

lemma emits_exit: "emits P (process_exit n)"
  by (simp add: emits_def process_exit_def)

lemma emits_console: "P (Console l args) \<Longrightarrow> emits P (console l args)"
  by (simp add: emits_def console_def)

lemma emits_existsSync: "emits P (existsSync t)"
  by (simp add: emits_def existsSync_def)

lemma emits_Date_now: "emits P (Date_now ext)"
  by (simp add: emits_def Date_now_def)

lemma emits_run: "(\<And>ok out. P (Ran c ok out)) \<Longrightarrow> emits P (run ext c)"
  by (simp add: emits_def run_def split: prod.splits)

lemma emits_fetch: "(\<And>r. P (Fetched rq r)) \<Longrightarrow> emits P (fetch ext rq)"
  by (simp add: emits_def fetch_def split: option.splits)

lemma emits_bind:
  assumes m: "emits P m" and k: "\<And>x. emits P (k x)"
  shows "emits P (io_bind m k)"
  unfolding emits_def
proof
  fix w
  from m obtain evs where evs: "trace (snd (m w)) = trace w @ evs" "list_all P evs"
    unfolding emits_def by blast
  show "\<exists>evs. trace (snd (io_bind m k w)) = trace w @ evs \<and> list_all P evs"
  proof (cases "m w")
    case (Pair r w1)
    show ?thesis
    proof (cases r)
      case (Returned x)
      from k obtain evs' where evs': "trace (snd (k x w1)) = trace w1 @ evs'" "list_all P evs'"
        unfolding emits_def by blast
      with evs Pair Returned show ?thesis
        by (intro exI [of _ "evs @ evs'"]) (simp add: io_bind_def)
    next
      case (Exited n)
      with evs Pair show ?thesis by (intro exI [of _ evs]) (simp add: io_bind_def)
    next
      case (Threw e)
      with evs Pair show ?thesis by (intro exI [of _ evs]) (simp add: io_bind_def)
    qed
  qed
qed

lemma emits_seq: "emits P m \<Longrightarrow> emits P k \<Longrightarrow> emits P (io_seq m k)"
  by (simp add: io_seq_def emits_bind)

lemma emits_catch:
  assumes m: "emits P m" and h: "\<And>e. emits P (h e)"
  shows "emits P (io_catch m h)"
  unfolding emits_def
proof
  fix w
  from m obtain evs where evs: "trace (snd (m w)) = trace w @ evs" "list_all P evs"
    unfolding emits_def by blast
  show "\<exists>evs. trace (snd (io_catch m h w)) = trace w @ evs \<and> list_all P evs"
  proof (cases "m w")
    case (Pair r w1)
    show ?thesis
    proof (cases r)
      case (Threw e)
      from h obtain evs' where evs': "trace (snd (h e w1)) = trace w1 @ evs'" "list_all P evs'"
        unfolding emits_def by blast
      with evs Pair Threw show ?thesis
        by (intro exI [of _ "evs @ evs'"]) (simp add: io_catch_def)
    next
      case (Exited n)
      with evs Pair show ?thesis by (intro exI [of _ evs]) (simp add: io_catch_def)
    next
      case (Returned x)
      with evs Pair show ?thesis by (intro exI [of _ evs]) (simp add: io_catch_def)
    qed
  qed
qed

lemmas emits_intros = emits_return emits_throw emits_exit emits_console emits_existsSync
  emits_Date_now emits_run emits_fetch emits_bind emits_seq emits_catch

lemma emits_cloneMonoRepo: "emits staging_event (cloneMonoRepo cfg ext)"
  unfolding cloneMonoRepo_def by (intro emits_intros) simp_all

lemma emits_createBranch: "emits staging_event (createBranch cfg ext b)"
  unfolding createBranch_def by (intro emits_intros) simp_all

lemma emits_getPRDetails: "emits staging_event (getPRDetails cfg ext n)"
  unfolding getPRDetails_def
  by (intro emits_intros) (simp_all add: api_get_def emits_intros split: json.splits)

lemma emits_convert_files: "emits staging_event (convert_files files)"
  by (induction files) (simp_all add: emits_intros)

lemma emits_getPRChanges: "emits staging_event (getPRChanges cfg ext n)"
  unfolding getPRChanges_def
  by (intro emits_intros)
     (simp_all add: api_get_def emits_intros emits_convert_files split: json.splits)

lemma emits_syncChange: "emits staging_event (syncChange cfg ext c)"
  unfolding syncChange_def copy_source_def warn_missing_def remove_target_def
  by (intro emits_intros) (simp_all add: emits_intros split: option.splits)

lemma emits_syncChanges: "emits staging_event (syncChanges cfg ext cs)"
  by (induction cs) (simp_all add: emits_intros emits_syncChange)

lemma emits_stage_pull: "emits staging_event (stage_pull cfg ext pr u)"
  unfolding stage_pull_def
  by (intro emits_intros emits_createBranch emits_getPRChanges emits_syncChanges) simp_all

lemma emits_stage_json: "emits staging_event (stage_json cfg ext j)"
  unfolding stage_json_def
  by (simp add: emits_intros emits_stage_pull split: json.splits option.splits)

lemma emits_staging: "emits staging_event (staging cfg ext)"
  unfolding staging_def
  by (intro emits_intros emits_cloneMonoRepo emits_getPRDetails emits_stage_json)


lemma emits_commit_and_push:
  "emits (\<lambda>e. \<not> status_run e \<and> \<not> is_fetch e) (commit_and_push ext p v b)"
  unfolding commit_and_push_def by (intro emits_intros) simp_all


lemma open_pull_request_cases:
  fixes w :: world and cfg ext p v b
  defines "rq \<equiv> create_pr_request cfg p (login v) b"
  defines "res \<equiv> open_pull_request cfg ext p v b w"
  shows "(trace (snd res) = trace w @ [Fetched rq None] \<and> fst res = Threw FetchError)
    \<or> (\<exists>r. \<not> response_ok r \<and> fst res = Returned None \<and>
          trace (snd res) = trace w @
            [Fetched rq (Some r),
             Console Err [Txt (''Failed to create PR: '' @ show_nat (resp_status r) @ '' ''
                @ resp_statusText r)],
             Console Err [Txt (resp_text r)]])
    \<or> (\<exists>r. response_ok r \<and>
          ((trace (snd res) = trace w @ [Fetched rq (Some r)] \<and> fst res = Threw SyntaxError)
           \<or> (\<exists>msg j. trace (snd res) = trace w @ [Fetched rq (Some r), Console Info [Txt msg]]
                 \<and> fst res = Returned (Some j))))"
proof (cases "http ext (trace w) rq")
  case None
  then have "res = (Threw FetchError, w\<lparr>trace := trace w @ [Fetched rq None]\<rparr>)"
    by (simp add: res_def rq_def open_pull_request_def io_bind_def fetch_def)
  then show ?thesis by simp
next
  case (Some r)
  show ?thesis
  proof (cases "response_ok r")
    case False
    with Some have "res = (Returned None, w\<lparr>trace := trace w @
            [Fetched rq (Some r),
             Console Err [Txt (''Failed to create PR: '' @ show_nat (resp_status r) @ '' ''
                @ resp_statusText r)],
             Console Err [Txt (resp_text r)]]\<rparr>)"
      by (simp add: res_def rq_def open_pull_request_def io_bind_def io_seq_def fetch_def
            console_def io_return_def)
    with False show ?thesis by auto
  next
    case True
    with Some have "(trace (snd res) = trace w @ [Fetched rq (Some r)] \<and> fst res = Threw SyntaxError)
           \<or> (\<exists>msg j. trace (snd res) = trace w @ [Fetched rq (Some r), Console Info [Txt msg]]
                 \<and> fst res = Returned (Some j))"
      by (cases "resp_json r")
         (simp_all add: res_def rq_def open_pull_request_def io_bind_def io_seq_def fetch_def
            console_def io_return_def io_throw_def)
    with True show ?thesis by blast
  qed
qed

lemma run_result:
  "run ext c w =
     (if fst (exec_command ext c w) then Returned (fst (snd (exec_command ext c w)))
      else Threw (ProcessOutput c),
      w\<lparr>fs := snd (snd (exec_command ext c w)),
        trace := trace w @ [Ran c (fst (exec_command ext c w)) (fst (snd (exec_command ext c w)))]\<rparr>)"
  by (simp add: run_def split: prod.splits)

lemma after_push_cases:
  fixes w :: world and cfg ext p v b
  defines "rq \<equiv> create_pr_request cfg p (login v) b"
  defines "res \<equiv> io_seq (io_seq (commit_and_push ext p v b) (open_pull_request cfg ext p v b))
                     (console Info [Txt ''Sync completed successfully!'']) w"
  shows "\<exists>evc tl. trace (snd res) = trace w @ evc @ tl \<and>
           list_all (\<lambda>e. \<not> status_run e \<and> \<not> is_fetch e) evc \<and>
           (tl = [] \<or> tl = [Fetched rq None]
            \<or> (\<exists>r. \<not> response_ok r \<and> fst res = Returned () \<and>
                  tl = [Fetched rq (Some r),
                        Console Err [Txt (''Failed to create PR: '' @ show_nat (resp_status r)
                           @ '' '' @ resp_statusText r)],
                        Console Err [Txt (resp_text r)],
                        Console Info [Txt ''Sync completed successfully!'']])
            \<or> (\<exists>r. response_ok r \<and>
                  (tl = [Fetched rq (Some r)]
                   \<or> (\<exists>msg. tl = [Fetched rq (Some r), Console Info [Txt msg],
                                   Console Info [Txt ''Sync completed successfully!'']]))))"
proof -
  obtain evc where evc: "trace (snd (commit_and_push ext p v b w)) = trace w @ evc"
      "list_all (\<lambda>e. \<not> status_run e \<and> \<not> is_fetch e) evc"
    using emits_commit_and_push [of ext p v b] unfolding emits_def by blast
  obtain r1 w1 where cap: "commit_and_push ext p v b w = (r1, w1)"
    by (cases "commit_and_push ext p v b w")
  from evc cap have t1: "trace w1 = trace w @ evc" by simp
  show ?thesis
  proof (cases r1)
    case (Exited n)
    with cap have "res = (Exited n, w1)" by (simp add: res_def io_seq_def io_bind_def)
    with t1 evc(2) show ?thesis by (intro exI [of _ evc] exI [of _ "[]"]) simp
  next
    case (Threw e)
    with cap have "res = (Threw e, w1)" by (simp add: res_def io_seq_def io_bind_def)
    with t1 evc(2) show ?thesis by (intro exI [of _ evc] exI [of _ "[]"]) simp
  next
    case (Returned x)
    obtain r2 w2 where res2: "open_pull_request cfg ext p v b w1 = (r2, w2)"
      by (cases "open_pull_request cfg ext p v b w1")
    from Returned cap res2 have res:
      "res = (case r2 of Returned y \<Rightarrow> console Info [Txt ''Sync completed successfully!''] w2
              | Exited n \<Rightarrow> (Exited n, w2) | Threw e \<Rightarrow> (Threw e, w2))"
      by (simp add: res_def io_seq_def io_bind_def)
    from open_pull_request_cases [where w = w1 and cfg = cfg and ext = ext and p = p and v = v and b = b]
    consider (nofetch) "trace w2 = trace w1 @ [Fetched rq None]" "r2 = Threw FetchError"
      | (bad) r where "\<not> response_ok r" "r2 = Returned None"
          "trace w2 = trace w1 @
            [Fetched rq (Some r),
             Console Err [Txt (''Failed to create PR: '' @ show_nat (resp_status r) @ '' ''
                @ resp_statusText r)],
             Console Err [Txt (resp_text r)]]"
      | (badjson) r where "response_ok r" "trace w2 = trace w1 @ [Fetched rq (Some r)]"
          "r2 = Threw SyntaxError"
      | (good) r msg j where "response_ok r"
          "trace w2 = trace w1 @ [Fetched rq (Some r), Console Info [Txt msg]]"
          "r2 = Returned (Some j)"
      unfolding res2 rq_def by auto
    then show ?thesis
    proof cases
      case nofetch
      with res have "trace (snd res) = trace w1 @ [Fetched rq None]" by simp
      with t1 evc(2) show ?thesis
        by (intro exI [of _ evc] exI [of _ "[Fetched rq None]"]) simp
    next
      case bad
      with res have "trace (snd res) = trace w1 @
            [Fetched rq (Some r),
             Console Err [Txt (''Failed to create PR: '' @ show_nat (resp_status r) @ '' ''
                @ resp_statusText r)],
             Console Err [Txt (resp_text r)],
             Console Info [Txt ''Sync completed successfully!'']]" "fst res = Returned ()"
        by (simp_all add: console_def)
      with t1 evc(2) bad(1) show ?thesis
        by (intro exI [of _ evc]
              exI [of _ "[Fetched rq (Some r),
             Console Err [Txt (''Failed to create PR: '' @ show_nat (resp_status r) @ '' ''
                @ resp_statusText r)],
             Console Err [Txt (resp_text r)],
             Console Info [Txt ''Sync completed successfully!'']]"]) auto
    next
      case badjson
      with res have "trace (snd res) = trace w1 @ [Fetched rq (Some r)]" by simp
      with t1 evc(2) badjson(1) show ?thesis
        by (intro exI [of _ evc] exI [of _ "[Fetched rq (Some r)]"]) auto
    next
      case good
      with res have "trace (snd res) = trace w1 @ [Fetched rq (Some r), Console Info [Txt msg],
             Console Info [Txt ''Sync completed successfully!'']]"
        by (simp add: console_def)
      with t1 evc(2) good(1) show ?thesis
        by (intro exI [of _ evc] exI [of _ "[Fetched rq (Some r), Console Info [Txt msg],
             Console Info [Txt ''Sync completed successfully!'']]"]) auto
    qed
  qed
qed


lemma finish_cases:
  fixes w :: world and cfg ext p v b
  defines "rq \<equiv> create_pr_request cfg p (login v) b"
  defines "res \<equiv> io_seq (publish cfg ext p v b)
                     (console Info [Txt ''Sync completed successfully!'']) w"
  shows "(\<exists>o1. trace (snd res) = trace w @ [Ran (Cd (TEMP_DIR cfg)) False o1])
    \<or> (\<exists>o1 s. trace (snd res) = trace w @ [Ran (Cd (TEMP_DIR cfg)) True o1, Ran GitStatus False s])
    \<or> (\<exists>o1 s. trim_is_empty s \<and> fst res = Returned () \<and>
          trace (snd res) = trace w @
            [Ran (Cd (TEMP_DIR cfg)) True o1, Ran GitStatus True s,
             Console Info [Txt (''No changes to commit for PR #'' @ show_int (number p))],
             Console Info [Txt ''Sync completed successfully!'']])
    \<or> (\<exists>o1 s evc tl. \<not> trim_is_empty s \<and>
          trace (snd res) = trace w @ [Ran (Cd (TEMP_DIR cfg)) True o1, Ran GitStatus True s] @ evc @ tl \<and>
          list_all (\<lambda>e. \<not> status_run e \<and> \<not> is_fetch e) evc \<and>
          (tl = [] \<or> tl = [Fetched rq None]
            \<or> (\<exists>r. \<not> response_ok r \<and> fst res = Returned () \<and>
                  tl = [Fetched rq (Some r),
                        Console Err [Txt (''Failed to create PR: '' @ show_nat (resp_status r)
                           @ '' '' @ resp_statusText r)],
                        Console Err [Txt (resp_text r)],
                        Console Info [Txt ''Sync completed successfully!'']])
            \<or> (\<exists>r. response_ok r \<and>
                  (tl = [Fetched rq (Some r)]
                   \<or> (\<exists>msg. tl = [Fetched rq (Some r), Console Info [Txt msg],
                                   Console Info [Txt ''Sync completed successfully!'']])))))"
proof -
  define ok1 where "ok1 = fst (exec_command ext (Cd (TEMP_DIR cfg)) w)"
  define o1 where "o1 = fst (snd (exec_command ext (Cd (TEMP_DIR cfg)) w))"
  define w1 where "w1 = w\<lparr>fs := snd (snd (exec_command ext (Cd (TEMP_DIR cfg)) w)),
      trace := trace w @ [Ran (Cd (TEMP_DIR cfg)) ok1 o1]\<rparr>"
  define ok2 where "ok2 = fst (exec_command ext GitStatus w1)"
  define s where "s = fst (snd (exec_command ext GitStatus w1))"
  define w2 where "w2 = w1\<lparr>fs := snd (snd (exec_command ext GitStatus w1)),
      trace := trace w1 @ [Ran GitStatus ok2 s]\<rparr>"
  have r1: "run ext (Cd (TEMP_DIR cfg)) w = (if ok1 then Returned o1 else Threw (ProcessOutput (Cd (TEMP_DIR cfg))), w1)"
    by (simp add: run_result ok1_def o1_def w1_def)
  have r2: "run ext GitStatus w1 = (if ok2 then Returned s else Threw (ProcessOutput GitStatus), w2)"
    by (simp add: run_result ok2_def s_def w2_def)
  have t1: "trace w1 = trace w @ [Ran (Cd (TEMP_DIR cfg)) ok1 o1]" by (simp add: w1_def)
  have t2: "trace w2 = trace w @ [Ran (Cd (TEMP_DIR cfg)) ok1 o1, Ran GitStatus ok2 s]"
    by (simp add: w2_def t1)
  show ?thesis
  proof (cases ok1)
    case False
    with r1 have "res = (Threw (ProcessOutput (Cd (TEMP_DIR cfg))), w1)"
      by (simp add: res_def publish_def io_seq_def io_bind_def)
    with t1 False show ?thesis by auto
  next
    case ok1: True
    show ?thesis
    proof (cases ok2)
      case False
      with r1 r2 ok1 have "res = (Threw (ProcessOutput GitStatus), w2)"
        by (simp add: res_def publish_def io_seq_def io_bind_def)
      with t2 False ok1 show ?thesis by auto
    next
      case ok2: True
      show ?thesis
      proof (cases "trim_is_empty s")
        case True
        with r1 r2 ok1 ok2 have "res = (Returned (), w2\<lparr>trace := trace w2 @
            [Console Info [Txt (''No changes to commit for PR #'' @ show_int (number p))],
             Console Info [Txt ''Sync completed successfully!'']]\<rparr>)"
          by (simp add: res_def publish_def io_seq_def io_bind_def console_def io_return_def)
        with t2 True ok1 ok2 show ?thesis by auto
      next
        case False
        with r1 r2 ok1 ok2 have "res =
            io_seq (io_seq (commit_and_push ext p v b) (open_pull_request cfg ext p v b))
                     (console Info [Txt ''Sync completed successfully!'']) w2"
          by (simp add: res_def publish_def io_seq_def io_bind_def)
        with after_push_cases [where w = w2 and cfg = cfg and ext = ext and p = p and v = v and b = b]
        obtain evc tl where "trace (snd res) = trace w2 @ evc @ tl"
           "list_all (\<lambda>e. \<not> status_run e \<and> \<not> is_fetch e) evc"
           "tl = [] \<or> tl = [Fetched rq None]
            \<or> (\<exists>r. \<not> response_ok r \<and> fst res = Returned () \<and>
                  tl = [Fetched rq (Some r),
                        Console Err [Txt (''Failed to create PR: '' @ show_nat (resp_status r)
                           @ '' '' @ resp_statusText r)],
                        Console Err [Txt (resp_text r)],
                        Console Info [Txt ''Sync completed successfully!'']])
            \<or> (\<exists>r. response_ok r \<and>
                  (tl = [Fetched rq (Some r)]
                   \<or> (\<exists>msg. tl = [Fetched rq (Some r), Console Info [Txt msg],
                                   Console Info [Txt ''Sync completed successfully!'']])))"
          unfolding rq_def by auto
        with t2 False ok1 ok2 show ?thesis
          by (intro disjI2 exI [of _ o1] exI [of _ s] exI [of _ evc] exI [of _ tl]) simp
      qed
    qed
  qed
qed


lemma sync_unconfigured:
  assumes "\<not> truthy (prNumber_arg cfg) \<or> \<not> truthy (env_GH_TOKEN cfg)
     \<or> \<not> truthy (env_MONOREPO_PACKAGE_LOCATION cfg) \<or> \<not> truthy (env_SOURCE_REPO_NAME cfg)"
  shows "\<exists>msg. trace (snd (sync cfg ext w)) = trace w @ [Console Err [Txt msg]]"
  using assms
  by (auto simp: sync_def io_seq_def io_bind_def console_def process_exit_def)

lemma staging_event_kind:
  "staging_event e \<Longrightarrow> \<not> publishing_event e \<and> \<not> status_run e"
  by (cases e; simp) (rename_tac c ok out, case_tac c; simp)

lemma staging_event_fetch:
  "staging_event (Fetched rq r) \<Longrightarrow> req_method rq \<noteq> ''POST''"
  by simp

lemma sync_run_cases:
  assumes "truthy (prNumber_arg cfg)" "truthy (env_GH_TOKEN cfg)"
    "truthy (env_MONOREPO_PACKAGE_LOCATION cfg)" "truthy (env_SOURCE_REPO_NAME cfg)"
  shows "\<exists>evs1. list_all staging_event evs1 \<and>
     (trace (snd (sync cfg ext w)) = trace w @ evs1 \<or>
      (\<exists>p v b w1. trace w1 = trace w @ evs1 \<and>
         sync cfg ext w =
           io_seq (publish cfg ext p v b) (console Info [Txt ''Sync completed successfully!'']) w1))"
proof -
  obtain evs1 where evs1: "trace (snd (staging cfg ext w)) = trace w @ evs1"
      "list_all staging_event evs1"
    using emits_staging [of cfg ext] unfolding emits_def by blast
  obtain r w1 where st: "staging cfg ext w = (r, w1)" by (cases "staging cfg ext w")
  with evs1 have t1: "trace w1 = trace w @ evs1" by simp
  show ?thesis
  proof (cases r)
    case (Returned x)
    obtain p v b where x: "x = (p, v, b)" by (cases x)
    with Returned st have "sync cfg ext w =
        io_seq (publish cfg ext p v b) (console Info [Txt ''Sync completed successfully!'']) w1"
      by (simp add: sync_stage [OF assms] io_bind_def)
    with t1 evs1(2) show ?thesis by blast
  next
    case (Exited n)
    with st have "sync cfg ext w = (Exited n, w1)"
      by (simp add: sync_stage [OF assms] io_bind_def)
    with t1 evs1(2) show ?thesis by (intro exI [of _ evs1]) simp
  next
    case (Threw e)
    with st have "sync cfg ext w = (Threw e, w1)"
      by (simp add: sync_stage [OF assms] io_bind_def)
    with t1 evs1(2) show ?thesis by (intro exI [of _ evs1]) simp
  qed
qed

text \<open>
  Claim C3. Take any run of \<^verbatim>\<open>sync\<close> and the events it appended to the trace. If among
  them the status query succeeded with an output that is empty after trimming, then
  the run returned normally (the process is not ended with a non-zero status), it ran
  none of the author-configuration, staging, commit or push commands and sent no
  \<^verbatim>\<open>POST\<close> request, and after the status query it only printed the no-changes line and
  the final success line.
\<close>

theorem clean_status_no_publish:
  assumes tr: "trace (snd (sync cfg ext w)) = trace w @ evs"
    and st: "Ran GitStatus True s \<in> set evs" and blank: "trim_is_empty s"
  shows "fst (sync cfg ext w) = Returned () \<and> \<not> list_ex publishing_event evs \<and>
     (\<exists>pre n. evs = pre @
        [Ran GitStatus True s,
         Console Info [Txt (''No changes to commit for PR #'' @ n)],
         Console Info [Txt ''Sync completed successfully!'']])"
proof (cases "truthy (prNumber_arg cfg) \<and> truthy (env_GH_TOKEN cfg)
     \<and> truthy (env_MONOREPO_PACKAGE_LOCATION cfg) \<and> truthy (env_SOURCE_REPO_NAME cfg)")
  case False
  then obtain msg where "trace (snd (sync cfg ext w)) = trace w @ [Console Err [Txt msg]]"
    using sync_unconfigured [of cfg ext w] by blast
  with tr have "evs = [Console Err [Txt msg]]" by simp
  with st show ?thesis by simp
next
  case True
  then obtain evs1 where evs1: "list_all staging_event evs1"
     and alt: "trace (snd (sync cfg ext w)) = trace w @ evs1 \<or>
      (\<exists>p v b w1. trace w1 = trace w @ evs1 \<and>
         sync cfg ext w =
           io_seq (publish cfg ext p v b) (console Info [Txt ''Sync completed successfully!'']) w1)"
    using sync_run_cases [of cfg ext w] by blast
  have nost: "\<not> status_run e \<and> \<not> publishing_event e" if "e \<in> set evs1" for e
    using that evs1 staging_event_kind by (auto simp: list_all_iff)
  from alt show ?thesis
  proof
    assume "trace (snd (sync cfg ext w)) = trace w @ evs1"
    with tr have "evs = evs1" by simp
    with st nost show ?thesis by fastforce
  next
    assume "\<exists>p v b w1. trace w1 = trace w @ evs1 \<and>
         sync cfg ext w =
           io_seq (publish cfg ext p v b) (console Info [Txt ''Sync completed successfully!'']) w1"
    then obtain p v b w1 where t1: "trace w1 = trace w @ evs1"
      and run: "sync cfg ext w =
           io_seq (publish cfg ext p v b) (console Info [Txt ''Sync completed successfully!'']) w1"
      by blast
    define res where "res = io_seq (publish cfg ext p v b)
        (console Info [Txt ''Sync completed successfully!'']) w1"
    define rq where "rq = create_pr_request cfg p (login v) b"
    from run t1 tr have evs_res: "trace (snd res) = trace w1 @ X \<Longrightarrow> evs = evs1 @ X" for X
      by (simp add: res_def)
    from finish_cases [where w = w1 and cfg = cfg and ext = ext and p = p and v = v and b = b]
    consider (cd_failed) o1 where "trace (snd res) = trace w1 @ [Ran (Cd (TEMP_DIR cfg)) False o1]"
      | (status_failed) o1 s' where
          "trace (snd res) = trace w1 @ [Ran (Cd (TEMP_DIR cfg)) True o1, Ran GitStatus False s']"
      | (clean) o1 s' where "trim_is_empty s'" "fst res = Returned ()"
          "trace (snd res) = trace w1 @
            [Ran (Cd (TEMP_DIR cfg)) True o1, Ran GitStatus True s',
             Console Info [Txt (''No changes to commit for PR #'' @ show_int (number p))],
             Console Info [Txt ''Sync completed successfully!'']]"
      | (dirty) o1 s' evc tl where "\<not> trim_is_empty s'"
          "trace (snd res) = trace w1 @ ([Ran (Cd (TEMP_DIR cfg)) True o1, Ran GitStatus True s'] @ evc @ tl)"
          "list_all (\<lambda>e. \<not> status_run e \<and> \<not> is_fetch e) evc"
          "tl = [] \<or> tl = [Fetched rq None]
            \<or> (\<exists>r. \<not> response_ok r \<and> fst res = Returned () \<and>
                  tl = [Fetched rq (Some r),
                        Console Err [Txt (''Failed to create PR: '' @ show_nat (resp_status r)
                           @ '' '' @ resp_statusText r)],
                        Console Err [Txt (resp_text r)],
                        Console Info [Txt ''Sync completed successfully!'']])
            \<or> (\<exists>r. response_ok r \<and>
                  (tl = [Fetched rq (Some r)]
                   \<or> (\<exists>msg. tl = [Fetched rq (Some r), Console Info [Txt msg],
                                   Console Info [Txt ''Sync completed successfully!'']])))"
      unfolding res_def rq_def by blast
    then show ?thesis
    proof cases
      case cd_failed
      then have "evs = evs1 @ [Ran (Cd (TEMP_DIR cfg)) False o1]" by (rule evs_res)
      with st nost show ?thesis by fastforce
    next
      case status_failed
      then have "evs = evs1 @ [Ran (Cd (TEMP_DIR cfg)) True o1, Ran GitStatus False s']"
        by (rule evs_res)
      with st nost show ?thesis by fastforce
    next
      case clean
      from clean(3) have evs: "evs = evs1 @
            [Ran (Cd (TEMP_DIR cfg)) True o1, Ran GitStatus True s',
             Console Info [Txt (''No changes to commit for PR #'' @ show_int (number p))],
             Console Info [Txt ''Sync completed successfully!'']]" by (rule evs_res)
      with st nost have s: "s' = s" by fastforce
      have "\<not> list_ex publishing_event evs"
        using nost by (auto simp: evs list_ex_iff)
      moreover have "evs = (evs1 @ [Ran (Cd (TEMP_DIR cfg)) True o1]) @
        [Ran GitStatus True s,
         Console Info [Txt (''No changes to commit for PR #'' @ show_int (number p))],
         Console Info [Txt ''Sync completed successfully!'']]"
        by (simp add: evs s)
      moreover from clean(2) run have "fst (sync cfg ext w) = Returned ()" by (simp add: res_def)
      ultimately show ?thesis by blast
    next
      case dirty
      from dirty(2) have evs: "evs = evs1 @ ([Ran (Cd (TEMP_DIR cfg)) True o1, Ran GitStatus True s'] @ evc @ tl)"
        by (rule evs_res)
      have "\<not> status_run e" if "e \<in> set evc" for e
        using that dirty(3) by (auto simp: list_all_iff)
      moreover have "\<not> status_run e" if "e \<in> set tl" for e
        using that dirty(4) by auto
      ultimately have "s = s'" using st nost unfolding evs by fastforce
      with blank dirty(1) show ?thesis by simp
    qed
  qed
qed


lemmas run_defs = sync_def cloneMonoRepo_def getPRDetails_def syncPR_def syncPR_pull_def
  createBranch_def getPRChanges_def publish_def commit_and_push_def open_pull_request_def
  io_seq_def io_bind_def io_catch_def io_return_def io_throw_def process_exit_def console_def
  run_def exec_command_def fetch_def Date_now_def response_ok_def truthy_def js_or_def
  prNumber_arg_def show_opt_def api_get_def repo_url_def SOURCE_REPO_OWNER_def
  create_pr_request_def trim_is_empty_def

theorem clean_status_no_publish_witness:
  "fst (sync demo_config (scripted_externals [] 201) \<lparr>fs = demo_dirs, trace = []\<rparr>) = Returned () \<and>
   \<not> list_ex publishing_event
       (trace (snd (sync demo_config (scripted_externals [] 201) \<lparr>fs = demo_dirs, trace = []\<rparr>)))"
proof -
  define w0 :: world where "w0 = \<lparr>fs = demo_dirs, trace = []\<rparr>"
  have 1: "trace (snd (sync demo_config (scripted_externals [] 201) w0)) =
      trace w0 @ trace (snd (sync demo_config (scripted_externals [] 201) w0))"
    by (simp add: w0_def)
  have 2: "Ran GitStatus True [] \<in>
      set (trace (snd (sync demo_config (scripted_externals [] 201) w0)))"
    by (simp add: w0_def run_defs demo_config_def scripted_externals_def demo_pull_def)
  have 3: "trim_is_empty []"
    by (simp add: trim_is_empty_def)
  from clean_status_no_publish [OF 1 2 3] show ?thesis
    unfolding w0_def by blast
qed

text \<open>
  Claim C8. Take any run of \<^verbatim>\<open>sync\<close> and the events it appended to the trace. If among
  them a \<^verbatim>\<open>POST\<close> request (sent only after commit and push succeeded) got a response
  outside 200..299, then the run returned normally, and after that request the run
  did exactly three things: it printed the failure line with the response's status
  code and status text, printed the response body, and printed the final success
  line. No command ran after the request: nothing is rolled back.
\<close>

theorem failed_pr_creation_is_reported:
  assumes tr: "trace (snd (sync cfg ext w)) = trace w @ evs"
    and ft: "Fetched rq (Some r) \<in> set evs" and post: "req_method rq = ''POST''"
    and bad: "\<not> response_ok r"
  shows "fst (sync cfg ext w) = Returned () \<and>
     (\<exists>pre. evs = pre @
        [Fetched rq (Some r),
         Console Err [Txt (''Failed to create PR: '' @ show_nat (resp_status r) @ '' ''
            @ resp_statusText r)],
         Console Err [Txt (resp_text r)],
         Console Info [Txt ''Sync completed successfully!'']])"
proof (cases "truthy (prNumber_arg cfg) \<and> truthy (env_GH_TOKEN cfg)
     \<and> truthy (env_MONOREPO_PACKAGE_LOCATION cfg) \<and> truthy (env_SOURCE_REPO_NAME cfg)")
  case False
  then obtain msg where "trace (snd (sync cfg ext w)) = trace w @ [Console Err [Txt msg]]"
    using sync_unconfigured [of cfg ext w] by blast
  with tr have "evs = [Console Err [Txt msg]]" by simp
  with ft show ?thesis by simp
next
  case True
  then obtain evs1 where evs1: "list_all staging_event evs1"
     and alt: "trace (snd (sync cfg ext w)) = trace w @ evs1 \<or>
      (\<exists>p v b w1. trace w1 = trace w @ evs1 \<and>
         sync cfg ext w =
           io_seq (publish cfg ext p v b) (console Info [Txt ''Sync completed successfully!'']) w1)"
    using sync_run_cases [of cfg ext w] by blast
  have "staging_event e" if "e \<in> set evs1" for e
    using that evs1 by (auto simp: list_all_iff)
  with post have nopost: "Fetched rq (Some r) \<notin> set evs1"
    by (auto dest: staging_event_fetch)
  from alt show ?thesis
  proof
    assume "trace (snd (sync cfg ext w)) = trace w @ evs1"
    with tr have "evs = evs1" by simp
    with ft nopost show ?thesis by simp
  next
    assume "\<exists>p v b w1. trace w1 = trace w @ evs1 \<and>
         sync cfg ext w =
           io_seq (publish cfg ext p v b) (console Info [Txt ''Sync completed successfully!'']) w1"
    then obtain p v b w1 where t1: "trace w1 = trace w @ evs1"
      and run: "sync cfg ext w =
           io_seq (publish cfg ext p v b) (console Info [Txt ''Sync completed successfully!'']) w1"
      by blast
    define res where "res = io_seq (publish cfg ext p v b)
        (console Info [Txt ''Sync completed successfully!'']) w1"
    define rq' where "rq' = create_pr_request cfg p (login v) b"
    from run t1 tr have evs_res: "trace (snd res) = trace w1 @ X \<Longrightarrow> evs = evs1 @ X" for X
      by (simp add: res_def)
    from finish_cases [where w = w1 and cfg = cfg and ext = ext and p = p and v = v and b = b]
    consider (cd_failed) o1 where "trace (snd res) = trace w1 @ [Ran (Cd (TEMP_DIR cfg)) False o1]"
      | (status_failed) o1 s' where
          "trace (snd res) = trace w1 @ [Ran (Cd (TEMP_DIR cfg)) True o1, Ran GitStatus False s']"
      | (clean) o1 s' where "trim_is_empty s'" "fst res = Returned ()"
          "trace (snd res) = trace w1 @
            [Ran (Cd (TEMP_DIR cfg)) True o1, Ran GitStatus True s',
             Console Info [Txt (''No changes to commit for PR #'' @ show_int (number p))],
             Console Info [Txt ''Sync completed successfully!'']]"
      | (dirty) o1 s' evc tl where "\<not> trim_is_empty s'"
          "trace (snd res) = trace w1 @ ([Ran (Cd (TEMP_DIR cfg)) True o1, Ran GitStatus True s'] @ evc @ tl)"
          "list_all (\<lambda>e. \<not> status_run e \<and> \<not> is_fetch e) evc"
          "tl = [] \<or> tl = [Fetched rq' None]
            \<or> (\<exists>r. \<not> response_ok r \<and> fst res = Returned () \<and>
                  tl = [Fetched rq' (Some r),
                        Console Err [Txt (''Failed to create PR: '' @ show_nat (resp_status r)
                           @ '' '' @ resp_statusText r)],
                        Console Err [Txt (resp_text r)],
                        Console Info [Txt ''Sync completed successfully!'']])
            \<or> (\<exists>r. response_ok r \<and>
                  (tl = [Fetched rq' (Some r)]
                   \<or> (\<exists>msg. tl = [Fetched rq' (Some r), Console Info [Txt msg],
                                   Console Info [Txt ''Sync completed successfully!'']])))"
      unfolding res_def rq'_def by blast
    then show ?thesis
    proof cases
      case cd_failed
      then have "evs = evs1 @ [Ran (Cd (TEMP_DIR cfg)) False o1]" by (rule evs_res)
      with ft nopost show ?thesis by simp
    next
      case status_failed
      then have "evs = evs1 @ [Ran (Cd (TEMP_DIR cfg)) True o1, Ran GitStatus False s']"
        by (rule evs_res)
      with ft nopost show ?thesis by simp
    next
      case clean
      from clean(3) have "evs = evs1 @
            [Ran (Cd (TEMP_DIR cfg)) True o1, Ran GitStatus True s',
             Console Info [Txt (''No changes to commit for PR #'' @ show_int (number p))],
             Console Info [Txt ''Sync completed successfully!'']]" by (rule evs_res)
      with ft nopost show ?thesis by simp
    next
      case dirty
      from dirty(2) have evs: "evs = evs1 @ ([Ran (Cd (TEMP_DIR cfg)) True o1, Ran GitStatus True s'] @ evc @ tl)"
        by (rule evs_res)
      have "\<not> is_fetch e" if "e \<in> set evc" for e
        using that dirty(3) by (auto simp: list_all_iff)
      then have "Fetched rq (Some r) \<notin> set evc" by fastforce
      with ft nopost have intl: "Fetched rq (Some r) \<in> set tl" unfolding evs by simp
      with dirty(4) bad have ret: "fst res = Returned ()" and tl: "tl = [Fetched rq (Some r),
                        Console Err [Txt (''Failed to create PR: '' @ show_nat (resp_status r)
                           @ '' '' @ resp_statusText r)],
                        Console Err [Txt (resp_text r)],
                        Console Info [Txt ''Sync completed successfully!'']]"
        by auto
      from ret run have "fst (sync cfg ext w) = Returned ()" by (simp add: res_def)
      moreover have "evs = (evs1 @ [Ran (Cd (TEMP_DIR cfg)) True o1, Ran GitStatus True s'] @ evc) @
          [Fetched rq (Some r),
                        Console Err [Txt (''Failed to create PR: '' @ show_nat (resp_status r)
                           @ '' '' @ resp_statusText r)],
                        Console Err [Txt (resp_text r)],
                        Console Info [Txt ''Sync completed successfully!'']]"
        unfolding evs tl by simp
      ultimately show ?thesis by blast
    qed
  qed
qed

theorem failed_pr_creation_is_reported_witness:
  "fst (sync demo_config (scripted_externals '' M a.txt'' 422) \<lparr>fs = demo_dirs, trace = []\<rparr>)
     = Returned ()"
proof -
  define w0 :: world where "w0 = \<lparr>fs = demo_dirs, trace = []\<rparr>"
  define rq where "rq = create_pr_request demo_config demo_pull ''ann''
      (branch_name demo_pull 123456)"
  define r where "r = \<lparr>resp_status = 422, resp_statusText = ''Unprocessable Entity'',
      resp_text = ''Validation Failed'', resp_json = OtherJson\<rparr>"
  have 1: "trace (snd (sync demo_config (scripted_externals '' M a.txt'' 422) w0)) =
      trace w0 @ trace (snd (sync demo_config (scripted_externals '' M a.txt'' 422) w0))"
    by (simp add: w0_def)
  have 2: "Fetched rq (Some r) \<in>
      set (trace (snd (sync demo_config (scripted_externals '' M a.txt'' 422) w0)))"
    by (simp add: w0_def rq_def r_def run_defs demo_config_def scripted_externals_def
          demo_pull_def is_space_def)
  have 3: "req_method rq = ''POST''"
    by (simp add: rq_def create_pr_request_def)
  have 4: "\<not> response_ok r"
    by (simp add: r_def response_ok_def)
  from failed_pr_creation_is_reported [OF 1 2 3 4] show ?thesis
    unfolding w0_def by blast
qed

section \<open>Listing merged pull requests\<close>

lemma getMergedPullRequests_number:
  assumes "getMergedPullRequests cfg ext (JNum n) w = (Returned prs, w')"
  shows "list_all (\<lambda>pr. merged_at pr \<noteq> Json_null \<and> n < number pr) prs"
proof (cases "http ext (trace w @
    [Console Info [Txt (''Getting merged PRs since '' @ show_reference (JNum n) @ ''...'')],
     Console Info [Txt (''Fetching PRs from: '' @ repo_url cfg @ ''/pulls'' @ closed_query)]])
    (api_get cfg (repo_url cfg @ ''/pulls'' @ closed_query))")
  case None
  with assms show ?thesis
    by (simp add: getMergedPullRequests_def io_seq_def io_bind_def console_def io_return_def
          fetch_def)
next
  case (Some r)
  show ?thesis
  proof (cases "response_ok r")
    case False
    with Some assms show ?thesis
      by (simp add: getMergedPullRequests_def io_seq_def io_bind_def console_def io_return_def
            fetch_def process_exit_def)
  next
    case True
    with Some assms show ?thesis
      by (cases "resp_json r")
         (auto simp: getMergedPullRequests_def io_seq_def io_bind_def console_def io_return_def
            fetch_def io_throw_def list_all_iff)
  qed
qed

text \<open>
  Claim C9. The number filter is applied only when the reference is a JavaScript
  number. A reference that is a string of digits is taken as a pull-request number
  when the query is built (no date bound is sent), yet the merged pull requests come
  back unfiltered: for the reference \<^verbatim>\<open>"5"\<close> and a listing with the merged pull requests
  3 and 9, the result holds number 3.
\<close>

theorem numeric_string_bound_not_applied:
  "fst (getMergedPullRequests demo_config listing_externals (JStr ''5'')
          \<lparr>fs = demo_dirs, trace = []\<rparr>) =
     Returned [listed_pull 3 (Merged ''2024-01-01T00:00:00Z''),
               listed_pull 9 (Merged ''2024-02-01T00:00:00Z'')]"
  by (simp add: getMergedPullRequests_def io_seq_def io_bind_def console_def io_return_def
        fetch_def listing_externals_def leading_number_def is_space_def response_ok_def listed_pull_def)

text \<open>
  Claim C10. A reference string that the runtime reads neither as an integer nor as a
  date makes \<^verbatim>\<open>getMergedPullRequests\<close> throw a \<^verbatim>\<open>RangeError\<close> (the ISO rendering of an
  invalid date) after its first console line: the fallback date is never taken and no
  HTTP request is sent.
\<close>

theorem unparseable_reference_throws:
  assumes "parseInt_isNaN ext s" and "date_toISOString ext s = None"
  shows "getMergedPullRequests cfg ext (JStr s) w =
     (Threw RangeError,
      w\<lparr>trace := trace w @ [Console Info [Txt (''Getting merged PRs since '' @ s @ ''...'')]]\<rparr>)"
  using assms
  by (simp add: getMergedPullRequests_def io_seq_def io_bind_def console_def io_throw_def
        show_reference_def)

theorem unparseable_reference_throws_witness:
  "getMergedPullRequests demo_config demo_externals (JStr ''next week'')
     \<lparr>fs = demo_dirs, trace = []\<rparr> =
     (Threw RangeError,
      \<lparr>fs = demo_dirs,
       trace = [Console Info [Txt ''Getting merged PRs since next week...'']]\<rparr>)"
  using unparseable_reference_throws [of demo_externals "''next week''" demo_config
      "\<lparr>fs = demo_dirs, trace = []\<rparr>"]
  by (simp add: demo_externals_def)

section \<open>The commands on the file system\<close>

lemma mkdir_chain_keeps:
  "f q \<noteq> None \<Longrightarrow> snd (mkdir_chain f pre ss) q = f q"
proof (induction ss arbitrary: f pre)
  case Nil
  then show ?case by simp
next
  case (Cons s ss)
  show ?case
  proof (cases "lookup f (pre @ [s])")
    case None
    with Cons.prems have "q \<noteq> pre @ [s]" by (auto simp: lookup_def)
    with Cons None show ?thesis by simp
  next
    case (Some n)
    with Cons show ?thesis by (cases n) simp_all
  qed
qed

lemma mkdir_chain_changes:
  "snd (mkdir_chain f pre ss) q \<noteq> f q \<Longrightarrow>
     snd (mkdir_chain f pre ss) q = Some Dir \<and> f q = None \<and>
     (\<exists>k. 0 < k \<and> k \<le> length ss \<and> q = pre @ take k ss)"
proof (induction ss arbitrary: f pre)
  case Nil
  then show ?case by simp
next
  case (Cons s ss)
  show ?case
  proof (cases "lookup f (pre @ [s])")
    case None
    show ?thesis
    proof (cases "q = pre @ [s]")
      case True
      have "(f(pre @ [s] \<mapsto> Dir)) q \<noteq> None" using True by simp
      then have "snd (mkdir_chain (f(pre @ [s] \<mapsto> Dir)) (pre @ [s]) ss) q = (f(pre @ [s] \<mapsto> Dir)) q"
        by (rule mkdir_chain_keeps)
      with None True show ?thesis
        by (auto simp: lookup_def intro!: exI [of _ "Suc 0"])
    next
      case False
      with Cons.prems None
      have "snd (mkdir_chain (f(pre @ [s] \<mapsto> Dir)) (pre @ [s]) ss) q \<noteq> (f(pre @ [s] \<mapsto> Dir)) q"
        by simp
      from Cons.IH [OF this]
      have a: "snd (mkdir_chain (f(pre @ [s] \<mapsto> Dir)) (pre @ [s]) ss) q = Some Dir"
        and b: "(f(pre @ [s] \<mapsto> Dir)) q = None"
        and c: "\<exists>k. 0 < k \<and> k \<le> length ss \<and> q = (pre @ [s]) @ take k ss"
        by blast+
      from c obtain k where k: "0 < k" "k \<le> length ss" "q = (pre @ [s]) @ take k ss" by blast
      then have "0 < Suc k \<and> Suc k \<le> length (s # ss) \<and> q = pre @ take (Suc k) (s # ss)"
        by simp
      then have "\<exists>k. 0 < k \<and> k \<le> length (s # ss) \<and> q = pre @ take k (s # ss)" by blast
      moreover from b False have "f q = None" by simp
      moreover from a None have "snd (mkdir_chain f pre (s # ss)) q = Some Dir" by simp
      ultimately show ?thesis by blast
    qed
  next
    case (Some n)
    show ?thesis
    proof (cases n)
      case (File c)
      with Some Cons.prems show ?thesis by simp
    next
      case Dir
      with Some Cons.prems have "snd (mkdir_chain f (pre @ [s]) ss) q \<noteq> f q" by simp
      from Cons.IH [OF this]
      have a: "snd (mkdir_chain f (pre @ [s]) ss) q = Some Dir"
        and b: "f q = None"
        and c: "\<exists>k. 0 < k \<and> k \<le> length ss \<and> q = (pre @ [s]) @ take k ss"
        by blast+
      from c obtain k where k: "0 < k" "k \<le> length ss" "q = (pre @ [s]) @ take k ss" by blast
      then have "0 < Suc k \<and> Suc k \<le> length (s # ss) \<and> q = pre @ take (Suc k) (s # ss)"
        by simp
      then have "\<exists>k. 0 < k \<and> k \<le> length (s # ss) \<and> q = pre @ take k (s # ss)" by blast
      moreover from a Some Dir have "snd (mkdir_chain f pre (s # ss)) q = Some Dir" by simp
      ultimately show ?thesis using b by blast
    qed
  qed
qed

lemma mkdir_chain_ok:
  "fst (mkdir_chain f pre ss) \<Longrightarrow> lookup f pre = Some Dir \<Longrightarrow> k \<le> length ss \<Longrightarrow>
     lookup (snd (mkdir_chain f pre ss)) (pre @ take k ss) = Some Dir"
proof (induction ss arbitrary: f pre k)
  case Nil
  then show ?case by simp
next
  case (Cons s ss)
  show ?case
  proof (cases k)
    case 0
    show ?thesis
    proof (cases "pre = []")
      case True
      with 0 show ?thesis by (simp add: lookup_def)
    next
      case False
      with Cons.prems(2) have "f pre \<noteq> None" by (simp add: lookup_def)
      then have "snd (mkdir_chain f pre (s # ss)) pre = f pre" by (rule mkdir_chain_keeps)
      with 0 False Cons.prems(2) show ?thesis by (simp add: lookup_def)
    qed
  next
    case (Suc j)
    show ?thesis
    proof (cases "lookup f (pre @ [s])")
      case None
      with Cons.prems have "fst (mkdir_chain (f(pre @ [s] \<mapsto> Dir)) (pre @ [s]) ss)" by simp
      moreover have "lookup (f(pre @ [s] \<mapsto> Dir)) (pre @ [s]) = Some Dir" by (simp add: lookup_def)
      moreover from Suc Cons.prems have "j \<le> length ss" by simp
      ultimately have "lookup (snd (mkdir_chain (f(pre @ [s] \<mapsto> Dir)) (pre @ [s]) ss))
          ((pre @ [s]) @ take j ss) = Some Dir" by (rule Cons.IH)
      with None Suc show ?thesis by simp
    next
      case (Some n)
      show ?thesis
      proof (cases n)
        case (File c)
        with Some Cons.prems show ?thesis by simp
      next
        case Dir
        with Some Cons.prems have "fst (mkdir_chain f (pre @ [s]) ss)" by simp
        moreover from Some Dir have "lookup f (pre @ [s]) = Some Dir" by simp
        moreover from Suc Cons.prems have "j \<le> length ss" by simp
        ultimately have "lookup (snd (mkdir_chain f (pre @ [s]) ss))
          ((pre @ [s]) @ take j ss) = Some Dir" by (rule Cons.IH)
        with Some Dir Suc show ?thesis by simp
      qed
    qed
  qed
qed

lemma mkdir_chain_noop:
  "(\<And>k. 0 < k \<Longrightarrow> k \<le> length ss \<Longrightarrow> lookup f (pre @ take k ss) = Some Dir) \<Longrightarrow>
     mkdir_chain f pre ss = (True, f)"
proof (induction ss arbitrary: pre)
  case Nil
  then show ?case by simp
next
  case (Cons s ss)
  from Cons.prems [of "Suc 0"] have d: "lookup f (pre @ [s]) = Some Dir" by simp
  have "lookup f ((pre @ [s]) @ take k ss) = Some Dir" if "0 < k" "k \<le> length ss" for k
    using Cons.prems [of "Suc k"] that by simp
  then have "mkdir_chain f (pre @ [s]) ss = (True, f)" by (rule Cons.IH)
  with d show ?case by simp
qed


lemma mkdir_chain_succeeds:
  "(\<And>k c. 0 < k \<Longrightarrow> k \<le> length ss \<Longrightarrow> lookup f (pre @ take k ss) \<noteq> Some (File c)) \<Longrightarrow>
     fst (mkdir_chain f pre ss)"
proof (induction ss arbitrary: f pre)
  case Nil
  then show ?case by simp
next
  case (Cons s ss)
  from Cons.prems [of "Suc 0"] have nf: "lookup f (pre @ [s]) \<noteq> Some (File c)" for c by simp
  have step: "lookup f ((pre @ [s]) @ take k ss) \<noteq> Some (File c)"
    if "0 < k" "k \<le> length ss" for k c
    using Cons.prems [of "Suc k" c] that by simp
  show ?case
  proof (cases "lookup f (pre @ [s])")
    case None
    have "lookup (f(pre @ [s] \<mapsto> Dir)) ((pre @ [s]) @ take k ss) \<noteq> Some (File c)"
      if "0 < k" "k \<le> length ss" for k c
      using step [OF that, of c] by (simp add: lookup_def)
    then have "fst (mkdir_chain (f(pre @ [s] \<mapsto> Dir)) (pre @ [s]) ss)" by (rule Cons.IH)
    with None show ?thesis by simp
  next
    case (Some n)
    with nf have n: "n = Dir" by (cases n) auto
    from step have "fst (mkdir_chain f (pre @ [s]) ss)" by (rule Cons.IH)
    with Some n show ?thesis by simp
  qed
qed

lemma mkdir_p_keeps: "lookup f q \<noteq> None \<Longrightarrow> lookup (snd (mkdir_p f p)) q = lookup f q"
  by (cases "q = []") (simp_all add: lookup_def mkdir_p_def mkdir_chain_keeps)

lemma mkdir_p_changes:
  assumes "snd (mkdir_p f p) q \<noteq> f q"
  shows "snd (mkdir_p f p) q = Some Dir \<and> f q = None \<and> (\<exists>k. 0 < k \<and> k \<le> length p \<and> q = take k p)"
  using mkdir_chain_changes [of f "[]" p q] assms by (simp add: mkdir_p_def)

lemma mkdir_p_ok:
  "fst (mkdir_p f p) \<Longrightarrow> k \<le> length p \<Longrightarrow> lookup (snd (mkdir_p f p)) (take k p) = Some Dir"
  using mkdir_chain_ok [of f "[]" p k] by (simp add: mkdir_p_def lookup_def)

lemma mkdir_p_dirname_target:
  "lookup (snd (mkdir_p f (dirname t))) (fst t) = lookup f (fst t)"
proof (cases "snd (mkdir_p f (dirname t)) (fst t) = f (fst t)")
  case True
  then show ?thesis by (simp add: lookup_def)
next
  case False
  from mkdir_p_changes [OF this] obtain k where "k \<le> length (dirname t)" "fst t = take k (dirname t)"
    by blast
  then have "length (fst t) \<le> length (butlast (fst t))" by (metis dirname_def length_take min.cobounded1)
  then have "fst t = []" by (cases "fst t" rule: rev_cases) simp_all
  then show ?thesis by (simp add: lookup_def)
qed

lemma mkdir_p_content: "content_at (snd (mkdir_p f p)) t = content_at f t"
proof (cases "lookup f (fst t)")
  case None
  then have ne: "fst t \<noteq> []" and fn: "f (fst t) = None" by (auto simp: lookup_def split: if_splits)
  have "snd (mkdir_p f p) (fst t) = None \<or> snd (mkdir_p f p) (fst t) = Some Dir"
  proof (cases "snd (mkdir_p f p) (fst t) = f (fst t)")
    case True
    with fn show ?thesis by simp
  next
    case False
    from mkdir_p_changes [OF this] show ?thesis by simp
  qed
  with ne fn show ?thesis by (auto simp: content_at_def lookup_def)
next
  case (Some n)
  then show ?thesis by (simp add: content_at_def mkdir_p_keeps)
qed

lemma syncChange_copy:
  assumes "env_MONOREPO_PACKAGE_LOCATION cfg = Some pkg"
    and "status c = ''added'' \<or> status c = ''modified''"
  shows "fs (snd (syncChange cfg ext c w)) =
           snd (copy_step (fs w) (sourcePath cfg c) (targetPath cfg pkg c))"
    and "(fst (syncChange cfg ext c w) = Returned ()) =
           fst (copy_step (fs w) (sourcePath cfg c) (targetPath cfg pkg c))"
    and "\<exists>e. fst (syncChange cfg ext c w) = Returned () \<or> fst (syncChange cfg ext c w) = Threw e"
  using assms
  by (auto simp: syncChange_def copy_step_def io_seq_def io_bind_def console_def run_def
        exec_command_def existsSync_def copy_source_def warn_missing_def io_return_def
      split: option.splits prod.splits)

lemma cp_onto_target:
  assumes "lookup f src = Some (File bytes)" and "lookup f (fst t) \<noteq> Some Dir"
    and "cp f src t = Some f'"
  shows "f' = f(fst t \<mapsto> File bytes)" and "\<not> snd t" and "fst t \<noteq> []"
  using assms
  by (auto simp: cp_def lookup_def split: option.splits node.splits if_splits)

lemma cp_succeeds:
  assumes "lookup f src = Some (File bytes)" and "lookup f (fst t) \<noteq> Some Dir"
    and "lookup f (butlast (fst t)) = Some Dir" and "\<not> snd t" and "fst t \<noteq> src"
  shows "cp f src t \<noteq> None"
  using assms
  by (auto simp: cp_def split: option.splits node.splits)

lemma run_MkdirP:
  "run ext (MkdirP p) w =
     (if fst (mkdir_p (fs w) p) then Returned [] else Threw (ProcessOutput (MkdirP p)),
      w\<lparr>fs := snd (mkdir_p (fs w) p),
        trace := trace w @ [Ran (MkdirP p) (fst (mkdir_p (fs w) p)) []]\<rparr>)"
  by (simp add: run_def exec_command_def)

lemma run_Cp:
  "run ext (Cp s t) w =
     (case cp (fs w) s t of
        None \<Rightarrow> (Threw (ProcessOutput (Cp s t)), w\<lparr>trace := trace w @ [Ran (Cp s t) False []]\<rparr>)
      | Some f \<Rightarrow> (Returned [], w\<lparr>fs := f, trace := trace w @ [Ran (Cp s t) True []]\<rparr>))"
  by (simp add: run_def exec_command_def split: option.splits)

lemma run_Rm:
  "run ext (Rm t) w =
     (case rm (fs w) t of
        None \<Rightarrow> (Threw (ProcessOutput (Rm t)), w\<lparr>trace := trace w @ [Ran (Rm t) False []]\<rparr>)
      | Some f \<Rightarrow> (Returned [], w\<lparr>fs := f, trace := trace w @ [Ran (Rm t) True []]\<rparr>))"
  by (simp add: run_def exec_command_def split: option.splits)

lemma remove_target_result:
  "remove_target ext t w =
     (case (if exists_at (fs w) t then rm (fs w) t else Some (fs w)) of
        None \<Rightarrow> (Threw (ProcessOutput (Rm t)), w\<lparr>trace := trace w @ [Ran (Rm t) False []]\<rparr>)
      | Some f \<Rightarrow>
          (Returned (),
           w\<lparr>fs := f,
             trace := trace w @ (if exists_at (fs w) t then [Ran (Rm t) True []] else [])\<rparr>))"
  by (simp add: remove_target_def io_bind_def io_seq_def existsSync_def run_Rm io_return_def
        split: option.splits)

lemma copy_if_present_result:
  "io_bind (existsSync (src, False))
     (\<lambda>present. if present then io_seq (run ext (MkdirP d)) (copy_source ext src t)
                 else warn_missing src) w =
   (if exists_at (fs w) (src, False) then
      (if \<not> fst (mkdir_p (fs w) d) then
         (Threw (ProcessOutput (MkdirP d)),
          w\<lparr>fs := snd (mkdir_p (fs w) d), trace := trace w @ [Ran (MkdirP d) False []]\<rparr>)
       else
         (case cp (snd (mkdir_p (fs w) d)) src t of
            None \<Rightarrow>
              (Threw (ProcessOutput (Cp src t)),
               w\<lparr>fs := snd (mkdir_p (fs w) d),
                 trace := trace w @ [Ran (MkdirP d) True [], Ran (Cp src t) False []]\<rparr>)
          | Some f \<Rightarrow>
              (Returned (),
               w\<lparr>fs := f,
                 trace := trace w @ [Ran (MkdirP d) True [], Ran (Cp src t) True []]\<rparr>)))
    else
      (Returned (),
       w\<lparr>trace := trace w @
          [Console Warn [Txt (''Source file does not exist: '' @ show_path src)]]\<rparr>))"
  by (simp add: io_bind_def io_seq_def existsSync_def run_MkdirP run_Cp copy_source_def
        warn_missing_def console_def io_return_def split: option.splits)

lemma syncChange_renamed_unfold:
  assumes "env_MONOREPO_PACKAGE_LOCATION cfg = Some pkg"
    and "status c = ''renamed''" and "previous_path c = Some previous"
  shows "syncChange cfg ext c w =
     io_seq (remove_target ext (previousTargetPath cfg pkg previous))
       (io_bind (existsSync (sourcePath cfg c, False))
          (\<lambda>present.
             if present then
               io_seq (run ext (MkdirP (dirname (targetPath cfg pkg c))))
                 (copy_source ext (sourcePath cfg c) (targetPath cfg pkg c))
             else warn_missing (sourcePath cfg c)))
       (w\<lparr>trace := trace w @
          [Console Info [Txt ''Syncing change:'', ObjChange c],
           Console Info
             [Txt (''Renaming '' @ show_location (previousTargetPath cfg pkg previous)
                @ '' to '' @ show_location (targetPath cfg pkg c))]]\<rparr>)"
  using assms by (simp add: syncChange_def io_seq_def io_bind_def console_def)

lemma syncChange_rename:
  assumes "env_MONOREPO_PACKAGE_LOCATION cfg = Some pkg"
    and "status c = ''renamed''" and "previous_path c = Some previous"
  shows "fs (snd (syncChange cfg ext c w)) =
           snd (rename_step (fs w) (previousTargetPath cfg pkg previous) (sourcePath cfg c)
                  (targetPath cfg pkg c))"
    and "(fst (syncChange cfg ext c w) = Returned ()) =
           fst (rename_step (fs w) (previousTargetPath cfg pkg previous) (sourcePath cfg c)
                  (targetPath cfg pkg c))"
proof -
  define p where "p = previousTargetPath cfg pkg previous"
  define w1 where "w1 = w\<lparr>trace := trace w @
          [Console Info [Txt ''Syncing change:'', ObjChange c],
           Console Info
             [Txt (''Renaming '' @ show_location (previousTargetPath cfg pkg previous)
                @ '' to '' @ show_location (targetPath cfg pkg c))]]\<rparr>"
  have fw: "fs w1 = fs w" by (simp add: w1_def)
  have u: "syncChange cfg ext c w =
     io_seq (remove_target ext p)
       (io_bind (existsSync (sourcePath cfg c, False))
          (\<lambda>present.
             if present then
               io_seq (run ext (MkdirP (dirname (targetPath cfg pkg c))))
                 (copy_source ext (sourcePath cfg c) (targetPath cfg pkg c))
             else warn_missing (sourcePath cfg c))) w1"
    unfolding p_def w1_def by (rule syncChange_renamed_unfold [OF assms])
  show "fs (snd (syncChange cfg ext c w)) =
           snd (rename_step (fs w) (previousTargetPath cfg pkg previous) (sourcePath cfg c)
                  (targetPath cfg pkg c))"
    unfolding u p_def [symmetric]
    by (cases "exists_at (fs w) p"; cases "rm (fs w) p")
       (simp_all add: io_seq_def io_bind_def [of "remove_target ext p"] remove_target_result
          copy_if_present_result rename_step_def fw split: option.splits)
  show "(fst (syncChange cfg ext c w) = Returned ()) =
           fst (rename_step (fs w) (previousTargetPath cfg pkg previous) (sourcePath cfg c)
                  (targetPath cfg pkg c))"
    unfolding u p_def [symmetric]
    by (cases "exists_at (fs w) p"; cases "rm (fs w) p")
       (simp_all add: io_seq_def io_bind_def [of "remove_target ext p"] remove_target_result
          copy_if_present_result rename_step_def fw split: option.splits)
qed


lemma rm_result:
  assumes "rm f t = Some f'"
  shows "f' = f(fst t := None)" and "\<not> snd t" and "fst t \<noteq> []"
    and "\<exists>c. f (fst t) = Some (File c)"
  using assms by (auto simp: rm_def lookup_def split: option.splits node.splits if_splits)

lemma lookup_after_rm:
  "rm f t = Some f' \<Longrightarrow> lookup f' q = (if q = fst t then None else lookup f q)"
  by (auto simp: rm_def lookup_def split: option.splits node.splits if_splits)

lemma not_exists_after_rm:
  "rm f t = Some f' \<Longrightarrow> \<not> exists_at f (s, b) \<Longrightarrow> \<not> exists_at f' (s, b)"
  by (simp add: exists_at_def lookup_after_rm)

lemma cp_result:
  assumes "cp f src t = Some f'" and "lookup f (fst t) \<noteq> Some Dir"
  shows "\<exists>bytes. lookup f src = Some (File bytes) \<and> f' = f(fst t \<mapsto> File bytes)"
    and "\<not> snd t" and "fst t \<noteq> []"
  using assms
  by (auto simp: cp_def lookup_def split: option.splits node.splits if_splits)

lemma content_at_absent: "\<not> exists_at f t \<Longrightarrow> content_at f t = None"
  by (auto simp: exists_at_def content_at_def split: option.splits node.splits)

lemma syncChange_rename_missing:
  assumes pkg: "env_MONOREPO_PACKAGE_LOCATION cfg = Some pkg"
    and st: "status c = ''renamed''" and prev: "previous_path c = Some previous"
    and missing: "\<not> exists_at (fs w) (sourcePath cfg c, False)"
    and ret: "fst (syncChange cfg ext c w) = Returned ()"
  shows "fs (snd (syncChange cfg ext c w)) =
     (if exists_at (fs w) (previousTargetPath cfg pkg previous)
      then (fs w)(fst (previousTargetPath cfg pkg previous) := None) else fs w)"
   and "trace (snd (syncChange cfg ext c w)) =
     trace w @
       [Console Info [Txt ''Syncing change:'', ObjChange c],
        Console Info
          [Txt (''Renaming '' @ show_location (previousTargetPath cfg pkg previous)
             @ '' to '' @ show_location (targetPath cfg pkg c))]]
       @ (if exists_at (fs w) (previousTargetPath cfg pkg previous)
          then [Ran (Rm (previousTargetPath cfg pkg previous)) True []] else [])
       @ [Console Warn [Txt (''Source file does not exist: '' @ show_path (sourcePath cfg c))]]"
proof -
  define p where "p = previousTargetPath cfg pkg previous"
  define w1 where "w1 = w\<lparr>trace := trace w @
          [Console Info [Txt ''Syncing change:'', ObjChange c],
           Console Info
             [Txt (''Renaming '' @ show_location p
                @ '' to '' @ show_location (targetPath cfg pkg c))]]\<rparr>"
  have fw: "fs w1 = fs w" by (simp add: w1_def)
  have u: "syncChange cfg ext c w =
     io_seq (remove_target ext p)
       (io_bind (existsSync (sourcePath cfg c, False))
          (\<lambda>present.
             if present then
               io_seq (run ext (MkdirP (dirname (targetPath cfg pkg c))))
                 (copy_source ext (sourcePath cfg c) (targetPath cfg pkg c))
             else warn_missing (sourcePath cfg c))) w1"
    unfolding w1_def p_def by (rule syncChange_renamed_unfold [OF pkg st prev])
  show "fs (snd (syncChange cfg ext c w)) =
     (if exists_at (fs w) (previousTargetPath cfg pkg previous)
      then (fs w)(fst (previousTargetPath cfg pkg previous) := None) else fs w)"
  proof (cases "exists_at (fs w) p")
    case False
    with missing show ?thesis
      unfolding u p_def [symmetric]
      by (simp add: io_seq_def io_bind_def [of "remove_target ext p"] remove_target_result
            copy_if_present_result fw)
  next
    case True
    show ?thesis
    proof (cases "rm (fs w) p")
      case None
      with True ret show ?thesis
        unfolding u
        by (simp add: io_seq_def io_bind_def [of "remove_target ext p"] remove_target_result fw)
    next
      case (Some f1)
      from not_exists_after_rm [OF Some missing] rm_result(1) [OF Some] True Some show ?thesis
        unfolding u p_def [symmetric]
        by (simp add: io_seq_def io_bind_def [of "remove_target ext p"] remove_target_result
              copy_if_present_result fw)
    qed
  qed
  show "trace (snd (syncChange cfg ext c w)) =
     trace w @
       [Console Info [Txt ''Syncing change:'', ObjChange c],
        Console Info
          [Txt (''Renaming '' @ show_location (previousTargetPath cfg pkg previous)
             @ '' to '' @ show_location (targetPath cfg pkg c))]]
       @ (if exists_at (fs w) (previousTargetPath cfg pkg previous)
          then [Ran (Rm (previousTargetPath cfg pkg previous)) True []] else [])
       @ [Console Warn [Txt (''Source file does not exist: '' @ show_path (sourcePath cfg c))]]"
  proof (cases "exists_at (fs w) p")
    case False
    with missing show ?thesis
      unfolding u p_def [symmetric]
      by (simp add: io_seq_def io_bind_def [of "remove_target ext p"] remove_target_result
            copy_if_present_result fw w1_def)
  next
    case True
    show ?thesis
    proof (cases "rm (fs w) p")
      case None
      with True ret show ?thesis
        unfolding u
        by (simp add: io_seq_def io_bind_def [of "remove_target ext p"] remove_target_result fw)
    next
      case (Some f1)
      from not_exists_after_rm [OF Some missing] True Some show ?thesis
        unfolding u p_def [symmetric]
        by (simp add: io_seq_def io_bind_def [of "remove_target ext p"] remove_target_result
              copy_if_present_result fw w1_def)
    qed
  qed
qed

lemmas replay_defs = syncChange_def io_seq_def io_bind_def console_def run_def exec_command_def
  mkdir_p_def cp_def rm_def lookup_def existsSync_def exists_at_def copy_source_def
  remove_target_def warn_missing_def io_return_def sourcePath_def targetPath_def
  previousTargetPath_def path_join_def path_resolve_def TEMP_DIR_def ROOT_DIR_def segments_def
  dirname_def ends_with_slash_def content_at_def demo_config_def demo_dirs_def staged_root_def

section \<open>Replaying one change\<close>

text \<open>
  Claim C2 (amended). Take an added entry whose source is a regular file and whose
  translated location (staged root, package location, entry path) is not an existing
  directory. If \<^verbatim>\<open>syncChange\<close> returns, the translated location holds exactly the
  source's bytes. And it does return when no regular file lies on the way to the
  translated location, the entry's path does not end in a separator, and the
  translated location is not the source file itself.
\<close>

theorem added_entry_copied:
  assumes pkg: "env_MONOREPO_PACKAGE_LOCATION cfg = Some pkg"
    and st: "status c = ''added''"
    and src: "lookup (fs w) (sourcePath cfg c) = Some (File bytes)"
    and nodir: "lookup (fs w) (fst (targetPath cfg pkg c)) \<noteq> Some Dir"
  shows "(fst (syncChange cfg ext c w) = Returned () \<longrightarrow>
            content_at (fs (snd (syncChange cfg ext c w))) (targetPath cfg pkg c) = Some bytes) \<and>
         ((\<forall>k<length (fst (targetPath cfg pkg c)). \<forall>d.
              lookup (fs w) (take k (fst (targetPath cfg pkg c))) \<noteq> Some (File d)) \<and>
          \<not> snd (targetPath cfg pkg c) \<and> fst (targetPath cfg pkg c) \<noteq> sourcePath cfg c \<longrightarrow>
            fst (syncChange cfg ext c w) = Returned ())"
proof -
  define t where "t = targetPath cfg pkg c"
  define s where "s = sourcePath cfg c"
  define f1 where "f1 = snd (mkdir_p (fs w) (dirname t))"
  have src1: "lookup f1 s = Some (File bytes)"
    using src by (simp add: f1_def s_def mkdir_p_keeps)
  then have ex: "exists_at f1 (s, False)" by (simp add: exists_at_def)
  have nodir1: "lookup f1 (fst t) \<noteq> Some Dir"
    using nodir by (simp add: f1_def t_def mkdir_p_dirname_target)
  have ret: "(fst (syncChange cfg ext c w) = Returned ()) = fst (copy_step (fs w) s t)"
    and fs': "fs (snd (syncChange cfg ext c w)) = snd (copy_step (fs w) s t)"
    using syncChange_copy [OF pkg, of c ext w] st by (simp_all add: s_def t_def)
  have one: "content_at (fs (snd (syncChange cfg ext c w))) t = Some bytes"
    if "fst (syncChange cfg ext c w) = Returned ()"
  proof -
    from that ret have "fst (copy_step (fs w) s t)" by simp
    with ex obtain f2 where c: "cp f1 s t = Some f2" and f2: "snd (copy_step (fs w) s t) = f2"
      by (auto simp: copy_step_def f1_def split: if_splits option.splits)
    from cp_onto_target [OF src1 nodir1 c] fs' f2 show ?thesis
      by (simp add: content_at_def lookup_def)
  qed
  have two: "fst (syncChange cfg ext c w) = Returned ()"
    if nofile: "\<forall>k<length (fst t). \<forall>d. lookup (fs w) (take k (fst t)) \<noteq> Some (File d)"
      and slash: "\<not> snd t" and differ: "fst t \<noteq> s"
  proof -
    have "lookup (fs w) ([] @ take k (dirname t)) \<noteq> Some (File d)"
      if "0 < k" "k \<le> length (dirname t)" for k d
    proof -
      from that have "k < length (fst t)" by (simp add: dirname_def)
      moreover from that have "take k (dirname t) = take k (fst t)"
        by (simp add: dirname_def take_butlast)
      ultimately show ?thesis using nofile by simp
    qed
    then have ok: "fst (mkdir_p (fs w) (dirname t))"
      unfolding mkdir_p_def by (rule mkdir_chain_succeeds)
    from mkdir_p_ok [OF ok, of "length (dirname t)"]
    have "lookup f1 (butlast (fst t)) = Some Dir" by (simp add: f1_def dirname_def)
    from cp_succeeds [OF src1 nodir1 this slash differ] ok ex
    have "fst (copy_step (fs w) s t)" by (auto simp: copy_step_def f1_def)
    with ret show ?thesis by simp
  qed
  from one two show ?thesis unfolding t_def s_def by blast
qed


theorem added_entry_copied_witness:
  "fst (syncChange demo_config demo_externals hello_entry \<lparr>fs = hello_fs, trace = []\<rparr>) = Returned () \<and>
   content_at (fs (snd (syncChange demo_config demo_externals hello_entry \<lparr>fs = hello_fs, trace = []\<rparr>)))
     (staged_root @ [''apps'', ''server'', ''a'', ''b.txt''], False) = Some ''hello''"
proof -
  define w0 :: world where "w0 = \<lparr>fs = hello_fs, trace = []\<rparr>"
  have 1: "env_MONOREPO_PACKAGE_LOCATION demo_config = Some ''apps/server''"
    by (simp add: demo_config_def)
  have 2: "status hello_entry = ''added''" by (simp add: hello_entry_def)
  have 3: "lookup (fs w0) (sourcePath demo_config hello_entry) = Some (File ''hello'')"
    by (simp add: w0_def hello_fs_def hello_entry_def replay_defs)
  have 4: "lookup (fs w0) (fst (targetPath demo_config ''apps/server'' hello_entry)) \<noteq> Some Dir"
    by (simp add: w0_def hello_fs_def hello_entry_def replay_defs)
  have 5: "fst (syncChange demo_config demo_externals hello_entry w0) = Returned ()"
    by (simp add: w0_def hello_fs_def hello_entry_def replay_defs)
  have 6: "targetPath demo_config ''apps/server'' hello_entry =
      (staged_root @ [''apps'', ''server'', ''a'', ''b.txt''], False)"
    by (simp add: hello_entry_def replay_defs)
  from added_entry_copied [OF 1 2 3 4, of demo_externals] 5 6 show ?thesis
    by (simp add: w0_def)
qed

text \<open>
  Where the translated location is an existing directory, \<^verbatim>\<open>cp\<close> puts the file inside
  it: the location itself stays a directory.
\<close>

theorem added_entry_lands_inside_directory:
  "lookup docs_fs (sourcePath demo_config docs_entry) = Some (File ''hello'') \<and>
   targetPath demo_config ''apps/server'' docs_entry = (staged_root @ [''apps'', ''server'', ''docs''], False) \<and>
   fst (syncChange demo_config demo_externals docs_entry \<lparr>fs = docs_fs, trace = []\<rparr>) = Returned () \<and>
   fs (snd (syncChange demo_config demo_externals docs_entry \<lparr>fs = docs_fs, trace = []\<rparr>))
     (staged_root @ [''apps'', ''server'', ''docs'']) = Some Dir \<and>
   fs (snd (syncChange demo_config demo_externals docs_entry \<lparr>fs = docs_fs, trace = []\<rparr>))
     (staged_root @ [''apps'', ''server'', ''docs'', ''docs'']) = Some (File ''hello'')"
  by (simp add: docs_fs_def docs_entry_def replay_defs)

text \<open>
  The renamed case, step by step. The deletion at the previous location either fails,
  which it does on a directory, or leaves a file system without a regular file
  there that reads as before everywhere else.
\<close>

lemma removal_cases:
  obtains (failed) "exists_at f p" and "rm f p = None" and "lookup f (fst p) = Some Dir"
  | (removed) f1 where "(if exists_at f p then rm f p else Some f) = Some f1"
      and "content_at f1 p = None"
      and "\<And>q. q \<noteq> fst p \<Longrightarrow> lookup f1 q = lookup f q"
      and "\<And>q. lookup f1 q = None \<or> lookup f1 q = lookup f q"
proof (cases "exists_at f p")
  case False
  then have "(if exists_at f p then rm f p else Some f) = Some f" "content_at f p = None"
    by (simp_all add: content_at_absent)
  then show ?thesis by (rule removed) simp_all
next
  case True
  show ?thesis
  proof (cases "rm f p")
    case None
    with True have "lookup f (fst p) = Some Dir"
      by (auto simp: rm_def exists_at_def split: option.splits node.splits if_splits)
    with True None show ?thesis by (rule failed)
  next
    case (Some f1)
    with True have "(if exists_at f p then rm f p else Some f) = Some f1" by simp
    moreover have "content_at f1 p = None"
      by (simp add: content_at_def lookup_after_rm [OF Some])
    moreover have "lookup f1 q = lookup f q" if "q \<noteq> fst p" for q
      using that by (simp add: lookup_after_rm [OF Some])
    moreover have "lookup f1 q = None \<or> lookup f1 q = lookup f q" for q
      by (simp add: lookup_after_rm [OF Some])
    ultimately show ?thesis by (rule removed)
  qed
qed

lemma rename_step_previous_gone:
  assumes "fst t \<noteq> fst p" and "lookup f (fst t) \<noteq> Some Dir"
  shows "content_at (snd (rename_step f p s t)) p = None"
proof (cases f p rule: removal_cases)
  case failed
  then show ?thesis by (simp add: rename_step_def content_at_def)
next
  case (removed f1)
  define f2 where "f2 = snd (mkdir_p f1 (dirname t))"
  have gone2: "content_at f2 p = None"
    using removed(2) by (simp add: f2_def mkdir_p_content)
  have nodir: "lookup f2 (fst t) \<noteq> Some Dir"
    using removed(3) [of "fst t"] assms by (simp add: f2_def mkdir_p_dirname_target)
  show ?thesis
  proof (cases "cp f2 s t")
    case None
    with removed(1,2) gone2 show ?thesis
      by (simp add: rename_step_def f2_def)
  next
    case (Some f3)
    from cp_result(1) [OF Some nodir] obtain bytes' where "f3 = f2(fst t \<mapsto> File bytes')"
      by blast
    with assms(1) have "content_at f3 p = content_at f2 p"
      by (simp add: content_at_def lookup_def)
    with removed(1,2) gone2 Some show ?thesis
      by (simp add: rename_step_def f2_def)
  qed
qed

lemma rename_step_copied:
  assumes ok: "fst (rename_step f p s t)"
    and src: "lookup f s = Some (File bytes)" and apart: "s \<noteq> fst p"
    and nodir: "lookup f (fst t) \<noteq> Some Dir"
  shows "content_at (snd (rename_step f p s t)) t = Some bytes"
proof (cases f p rule: removal_cases)
  case failed
  with ok show ?thesis by (simp add: rename_step_def)
next
  case (removed f1)
  define f2 where "f2 = snd (mkdir_p f1 (dirname t))"
  from src apart have s1: "lookup f1 s = Some (File bytes)" by (simp add: removed(3))
  then have ex: "exists_at f1 (s, False)" by (simp add: exists_at_def)
  from s1 have s2: "lookup f2 s = Some (File bytes)" by (simp add: f2_def mkdir_p_keeps)
  have nd: "lookup f2 (fst t) \<noteq> Some Dir"
  proof (cases "fst t = fst p")
    case True
    with removed(2) have "lookup f1 (fst t) \<noteq> Some Dir" using removed(4) [of "fst t"] nodir by auto
    then show ?thesis by (simp add: f2_def mkdir_p_dirname_target)
  next
    case False
    with removed(3) [of "fst t"] nodir show ?thesis by (simp add: f2_def mkdir_p_dirname_target)
  qed
  from ok removed(1) ex obtain f3 where f3: "cp f2 s t = Some f3"
    and step: "snd (rename_step f p s t) = f3"
    by (auto simp: rename_step_def f2_def split: option.splits if_splits)
  from cp_onto_target [OF s2 nd f3] step show ?thesis
    by (simp add: content_at_def lookup_def)
qed

lemma rename_step_completes:
  assumes src: "lookup f s = Some (File bytes)" and apart: "s \<noteq> fst p"
    and nodir: "lookup f (fst t) \<noteq> Some Dir"
    and prev: "lookup f (fst p) \<noteq> Some Dir"
    and nofile: "\<forall>k<length (fst t). \<forall>d. lookup f (take k (fst t)) \<noteq> Some (File d)"
    and slash: "\<not> snd t" and differ: "fst t \<noteq> s"
  shows "fst (rename_step f p s t)"
proof (cases f p rule: removal_cases)
  case failed
  with prev show ?thesis by simp
next
  case (removed f1)
  define f2 where "f2 = snd (mkdir_p f1 (dirname t))"
  from src apart have s1: "lookup f1 s = Some (File bytes)" by (simp add: removed(3))
  then have ex: "exists_at f1 (s, False)" by (simp add: exists_at_def)
  from s1 have s2: "lookup f2 s = Some (File bytes)" by (simp add: f2_def mkdir_p_keeps)
  have "lookup f1 (fst t) \<noteq> Some Dir" using removed(4) [of "fst t"] nodir by auto
  then have nd: "lookup f2 (fst t) \<noteq> Some Dir" by (simp add: f2_def mkdir_p_dirname_target)
  have "lookup f1 ([] @ take k (dirname t)) \<noteq> Some (File d)"
    if "0 < k" "k \<le> length (dirname t)" for k d
  proof -
    from that have "k < length (fst t)" by (simp add: dirname_def)
    moreover from that have "take k (dirname t) = take k (fst t)"
      by (simp add: dirname_def take_butlast)
    ultimately have "lookup f (take k (dirname t)) \<noteq> Some (File d)" using nofile by simp
    with removed(4) [of "take k (dirname t)"] show ?thesis by auto
  qed
  then have ok: "fst (mkdir_p f1 (dirname t))"
    unfolding mkdir_p_def by (rule mkdir_chain_succeeds)
  from mkdir_p_ok [OF ok, of "length (dirname t)"]
  have "lookup f2 (butlast (fst t)) = Some Dir" by (simp add: f2_def dirname_def)
  from cp_succeeds [OF s2 nd this slash differ] ok ex removed(1) show ?thesis
    by (auto simp: rename_step_def f2_def)
qed

lemma rename_step_missing:
  assumes missing: "\<not> exists_at f (s, False)" and prev: "lookup f (fst p) \<noteq> Some Dir"
  shows "fst (rename_step f p s t)"
proof (cases f p rule: removal_cases)
  case failed
  with prev show ?thesis by simp
next
  case (removed f1)
  have "\<not> exists_at f1 (s, False)"
    using missing removed(4) [of s] by (auto simp: exists_at_def split: option.splits node.splits)
  with removed(1) show ?thesis by (simp add: rename_step_def)
qed

text \<open>
  Claim C4 (amended). Take a renamed entry. If the translated new location is not an
  existing directory and differs from the translated previous location, no regular
  file is left at the translated previous location. If the source at the new path is
  a regular file other than the translated previous location, and the translated new
  location is not an existing directory, then the translated new location holds
  exactly the source's bytes whenever \<^verbatim>\<open>syncChange\<close> returns; and it does return when
  the translated previous location is not a directory, no regular file lies on the way
  to the translated new location, the new path does not end in a separator, and the
  translated new location is not the source file itself. If the source at the new
  path is missing and the translated previous location is not a directory,
  \<^verbatim>\<open>syncChange\<close> returns, only the deletion is done (the previous location is removed if
  it existed) and the run's last event is the warning.
\<close>

theorem renamed_entry_effect:
  assumes pkg: "env_MONOREPO_PACKAGE_LOCATION cfg = Some pkg"
    and st: "status c = ''renamed''" and prev: "previous_path c = Some previous"
  shows "(fst (targetPath cfg pkg c) \<noteq> fst (previousTargetPath cfg pkg previous) \<and>
          lookup (fs w) (fst (targetPath cfg pkg c)) \<noteq> Some Dir \<longrightarrow>
            content_at (fs (snd (syncChange cfg ext c w))) (previousTargetPath cfg pkg previous)
              = None) \<and>
         (lookup (fs w) (sourcePath cfg c) = Some (File bytes) \<and>
          sourcePath cfg c \<noteq> fst (previousTargetPath cfg pkg previous) \<and>
          lookup (fs w) (fst (targetPath cfg pkg c)) \<noteq> Some Dir \<longrightarrow>
            (fst (syncChange cfg ext c w) = Returned () \<longrightarrow>
               content_at (fs (snd (syncChange cfg ext c w))) (targetPath cfg pkg c) = Some bytes) \<and>
            (lookup (fs w) (fst (previousTargetPath cfg pkg previous)) \<noteq> Some Dir \<and>
             (\<forall>k<length (fst (targetPath cfg pkg c)). \<forall>d.
                 lookup (fs w) (take k (fst (targetPath cfg pkg c))) \<noteq> Some (File d)) \<and>
             \<not> snd (targetPath cfg pkg c) \<and> fst (targetPath cfg pkg c) \<noteq> sourcePath cfg c \<longrightarrow>
               fst (syncChange cfg ext c w) = Returned ())) \<and>
         (\<not> exists_at (fs w) (sourcePath cfg c, False) \<and>
          lookup (fs w) (fst (previousTargetPath cfg pkg previous)) \<noteq> Some Dir \<longrightarrow>
            fst (syncChange cfg ext c w) = Returned () \<and>
            fs (snd (syncChange cfg ext c w)) =
              (if exists_at (fs w) (previousTargetPath cfg pkg previous)
               then (fs w)(fst (previousTargetPath cfg pkg previous) := None) else fs w) \<and>
            trace (snd (syncChange cfg ext c w)) =
              trace w @
                [Console Info [Txt ''Syncing change:'', ObjChange c],
                 Console Info
                   [Txt (''Renaming '' @ show_location (previousTargetPath cfg pkg previous)
                      @ '' to '' @ show_location (targetPath cfg pkg c))]]
                @ (if exists_at (fs w) (previousTargetPath cfg pkg previous)
                   then [Ran (Rm (previousTargetPath cfg pkg previous)) True []] else [])
                @ [Console Warn
                     [Txt (''Source file does not exist: '' @ show_path (sourcePath cfg c))]])"
proof -
  define p where "p = previousTargetPath cfg pkg previous"
  define t where "t = targetPath cfg pkg c"
  define s where "s = sourcePath cfg c"
  define f where "f = fs w"
  have fs': "fs (snd (syncChange cfg ext c w)) = snd (rename_step f p s t)"
    and ok: "(fst (syncChange cfg ext c w) = Returned ()) = fst (rename_step f p s t)"
    using syncChange_rename [OF pkg st prev, of ext w] by (simp_all add: p_def t_def s_def f_def)
  have a: "content_at (fs (snd (syncChange cfg ext c w))) p = None"
    if "fst t \<noteq> fst p" "lookup f (fst t) \<noteq> Some Dir"
    unfolding fs' using that by (rule rename_step_previous_gone)
  have b: "content_at (fs (snd (syncChange cfg ext c w))) t = Some bytes"
    if "fst (syncChange cfg ext c w) = Returned ()"
      "lookup f s = Some (File bytes)" "s \<noteq> fst p" "lookup f (fst t) \<noteq> Some Dir"
    unfolding fs' using that by (simp add: ok rename_step_copied)
  have c: "fst (syncChange cfg ext c w) = Returned ()"
    if "lookup f s = Some (File bytes)" "s \<noteq> fst p" "lookup f (fst t) \<noteq> Some Dir"
      "lookup f (fst p) \<noteq> Some Dir"
      "\<forall>k<length (fst t). \<forall>d. lookup f (take k (fst t)) \<noteq> Some (File d)"
      "\<not> snd t" "fst t \<noteq> s"
    unfolding ok using that by (rule rename_step_completes)
  have d: "fst (syncChange cfg ext c w) = Returned ()"
    if "\<not> exists_at f (s, False)" "lookup f (fst p) \<noteq> Some Dir"
    unfolding ok using that by (rule rename_step_missing)
  have e: "fs (snd (syncChange cfg ext c w)) = (if exists_at f p then f(fst p := None) else f) \<and>
      trace (snd (syncChange cfg ext c w)) =
        trace w @
          [Console Info [Txt ''Syncing change:'', ObjChange c],
           Console Info [Txt (''Renaming '' @ show_location p @ '' to '' @ show_location t)]]
          @ (if exists_at f p then [Ran (Rm p) True []] else [])
          @ [Console Warn [Txt (''Source file does not exist: '' @ show_path s)]]"
    if "\<not> exists_at f (s, False)" "lookup f (fst p) \<noteq> Some Dir"
    using syncChange_rename_missing [OF pkg st prev _ d [OF that]] that(1)
    by (simp add: p_def t_def s_def f_def)
  from a b c d e show ?thesis unfolding p_def t_def s_def f_def by blast
qed

theorem renamed_entry_effect_witness:
  "fst (syncChange demo_config demo_externals renamed_entry \<lparr>fs = renamed_fs, trace = []\<rparr>) =
     Returned () \<and>
   content_at (fs (snd (syncChange demo_config demo_externals renamed_entry \<lparr>fs = renamed_fs, trace = []\<rparr>)))
     (staged_root @ [''apps'', ''server'', ''a'', ''old.txt''], False) = None \<and>
   content_at (fs (snd (syncChange demo_config demo_externals renamed_entry \<lparr>fs = renamed_fs, trace = []\<rparr>)))
     (staged_root @ [''apps'', ''server'', ''a'', ''b.txt''], False) = Some ''hello'' \<and>
   fst (syncChange demo_config demo_externals vanished_entry \<lparr>fs = renamed_fs, trace = []\<rparr>) =
     Returned () \<and>
   fs (snd (syncChange demo_config demo_externals vanished_entry \<lparr>fs = renamed_fs, trace = []\<rparr>)) =
     renamed_fs(staged_root @ [''apps'', ''server'', ''a'', ''old.txt''] := None)"
proof -
  define w0 :: world where "w0 = \<lparr>fs = renamed_fs, trace = []\<rparr>"
  define old where "old = staged_root @ [''apps'', ''server'', ''a'', ''old.txt'']"
  define new where "new = staged_root @ [''apps'', ''server'', ''a'', ''b.txt'']"
  have 1: "env_MONOREPO_PACKAGE_LOCATION demo_config = Some ''apps/server''"
    by (simp add: demo_config_def)
  have 2: "status renamed_entry = ''renamed''" "previous_path renamed_entry = Some ''a/old.txt''"
    by (simp_all add: renamed_entry_def)
  have 4: "previousTargetPath demo_config ''apps/server'' ''a/old.txt'' = (old, False)"
    "targetPath demo_config ''apps/server'' renamed_entry = (new, False)"
    "sourcePath demo_config renamed_entry = [''work'', ''formio'', ''a'', ''b.txt'']"
    by (simp_all add: renamed_entry_def old_def new_def replay_defs)
  have 5: "lookup (fs w0) new \<noteq> Some Dir"
    "lookup (fs w0) [''work'', ''formio'', ''a'', ''b.txt''] = Some (File ''hello'')"
    "lookup (fs w0) old \<noteq> Some Dir"
    "new \<noteq> old" "[''work'', ''formio'', ''a'', ''b.txt''] \<noteq> old"
    "new \<noteq> [''work'', ''formio'', ''a'', ''b.txt'']"
    by (simp_all add: w0_def renamed_fs_def hello_fs_def old_def new_def replay_defs)
  have chain: "\<forall>k<length new. \<forall>d. lookup (fs w0) (take k new) \<noteq> Some (File d)"
  proof (intro allI impI)
    fix k d assume "k < length new"
    then have "k \<in> {0, 1, 2, 3, 4, 5, 6}" by (auto simp: new_def staged_root_def)
    then show "lookup (fs w0) (take k new) \<noteq> Some (File d)"
      by (auto simp: w0_def renamed_fs_def hello_fs_def new_def replay_defs)
  qed
  have 6: "status vanished_entry = ''renamed''" "previous_path vanished_entry = Some ''a/old.txt''"
    by (simp_all add: vanished_entry_def)
  have 8: "\<not> exists_at (fs w0) (sourcePath demo_config vanished_entry, False)"
    "exists_at (fs w0) (old, False)"
    by (simp_all add: w0_def renamed_fs_def hello_fs_def vanished_entry_def old_def replay_defs)
  from renamed_entry_effect [OF 1 2, where w = w0 and bytes = "''hello''" and ext = demo_externals]
    4 5 chain
    renamed_entry_effect [OF 1 6, where w = w0 and bytes = "''hello''" and ext = demo_externals] 8
  have "fst (syncChange demo_config demo_externals renamed_entry w0) = Returned () \<and>
      content_at (fs (snd (syncChange demo_config demo_externals renamed_entry w0))) (old, False)
        = None \<and>
      content_at (fs (snd (syncChange demo_config demo_externals renamed_entry w0))) (new, False)
        = Some ''hello'' \<and>
      fst (syncChange demo_config demo_externals vanished_entry w0) = Returned () \<and>
      fs (snd (syncChange demo_config demo_externals vanished_entry w0)) = (fs w0)(old := None)"
    by simp
  then show ?thesis by (simp add: w0_def old_def new_def)
qed

text \<open>
  A file renamed from \<^verbatim>\<open>docs/docs\<close> to \<^verbatim>\<open>docs\<close>: the staged \<^verbatim>\<open>docs\<close> is still a directory
  after the deletion, so the copy lands at the previous path again.
\<close>

theorem renamed_entry_written_back:
  "previousTargetPath demo_config ''apps/server'' ''docs/docs'' =
     (staged_root @ [''apps'', ''server'', ''docs'', ''docs''], False) \<and>
   fst (syncChange demo_config demo_externals moved_entry \<lparr>fs = moved_fs, trace = []\<rparr>) = Returned () \<and>
   fs (snd (syncChange demo_config demo_externals moved_entry \<lparr>fs = moved_fs, trace = []\<rparr>))
     (staged_root @ [''apps'', ''server'', ''docs'', ''docs'']) = Some (File ''new'') \<and>
   fs (snd (syncChange demo_config demo_externals moved_entry \<lparr>fs = moved_fs, trace = []\<rparr>))
     (staged_root @ [''apps'', ''server'', ''docs'']) = Some Dir"
  by (simp add: moved_fs_def moved_entry_def replay_defs)

text \<open>
  And where the translated previous location is a directory, the deletion fails: the
  error of \<^verbatim>\<open>rm\<close> is thrown and the entry is not processed further.
\<close>

lemma renamed_directory_throws:
  "lookup renamed_fs (fst (previousTargetPath demo_config ''apps/server'' ''a'')) = Some Dir \<and>
   fst (syncChange demo_config demo_externals folder_entry \<lparr>fs = renamed_fs, trace = []\<rparr>) =
     Threw (ProcessOutput (Rm (staged_root @ [''apps'', ''server'', ''a''], False)))"
  by (simp add: renamed_fs_def hello_fs_def folder_entry_def replay_defs)

text \<open>
  Claim C7. In the added/modified case the directory chain is created before the
  source is looked for (the renamed case creates it only when the source is there).
  For an added entry \<^verbatim>\<open>lib/new/f.txt\<close> whose source is missing, the change is skipped
  and the run goes on, but the staged package has gained the directories \<^verbatim>\<open>lib\<close> and
  \<^verbatim>\<open>lib/new\<close>.
\<close>

theorem missing_source_creates_directories:
  "\<not> exists_at demo_dirs (sourcePath demo_config orphan_entry, False) \<and>
   demo_dirs (staged_root @ [''apps'', ''server'', ''lib'']) = None \<and>
   fst (syncChange demo_config demo_externals orphan_entry \<lparr>fs = demo_dirs, trace = []\<rparr>) = Returned () \<and>
   fs (snd (syncChange demo_config demo_externals orphan_entry \<lparr>fs = demo_dirs, trace = []\<rparr>))
     (staged_root @ [''apps'', ''server'', ''lib'']) = Some Dir \<and>
   fs (snd (syncChange demo_config demo_externals orphan_entry \<lparr>fs = demo_dirs, trace = []\<rparr>))
     (staged_root @ [''apps'', ''server'', ''lib'', ''new'']) = Some Dir"
  by (simp add: orphan_entry_def replay_defs)

text \<open>
  What such a skipped entry does not do: it changes no regular file. The file system
  after it is the one after \<^verbatim>\<open>mkdir -p\<close>, and every location reads as before.
\<close>

lemma skipped_entry_keeps_files:
  assumes pkg: "env_MONOREPO_PACKAGE_LOCATION cfg = Some pkg"
    and st: "status c = ''added'' \<or> status c = ''modified''"
    and missing: "content_at (fs w) (sourcePath cfg c, False) = None"
  shows "fs (snd (syncChange cfg ext c w)) =
           snd (mkdir_p (fs w) (dirname (targetPath cfg pkg c)))"
    and "content_at (fs (snd (syncChange cfg ext c w))) q = content_at (fs w) q"
proof -
  define f1 where "f1 = snd (mkdir_p (fs w) (dirname (targetPath cfg pkg c)))"
  from missing have "content_at f1 (sourcePath cfg c, False) = None"
    by (simp add: f1_def mkdir_p_content)
  then have "cp f1 (sourcePath cfg c) (targetPath cfg pkg c) = None"
    by (auto simp: cp_def content_at_def split: option.splits node.splits)
  then show 1: "fs (snd (syncChange cfg ext c w)) =
           snd (mkdir_p (fs w) (dirname (targetPath cfg pkg c)))"
    using syncChange_copy(1) [OF pkg st, of ext w] by (simp add: copy_step_def f1_def)
  show "content_at (fs (snd (syncChange cfg ext c w))) q = content_at (fs w) q"
    unfolding 1 by (rule mkdir_p_content)
qed

text \<open>
  And where a regular file is on the directory chain, the entry whose source is
  missing is not skipped: \<^verbatim>\<open>mkdir -p\<close> fails and the error is thrown.
\<close>

lemma missing_source_can_throw:
  "\<not> exists_at blocked_fs (sourcePath demo_config orphan_entry, False) \<and>
   fst (syncChange demo_config demo_externals orphan_entry \<lparr>fs = blocked_fs, trace = []\<rparr>) =
     Threw (ProcessOutput (MkdirP (staged_root @ [''apps'', ''server'', ''lib'', ''new''])))"
  by (simp add: orphan_entry_def blocked_fs_def replay_defs)

section \<open>Replaying a change list twice\<close>

lemma cp_write:
  assumes "cp m s t = Some f2"
  shows "\<exists>b. lookup m s = Some (File b) \<and> f2 = m(dest m s t \<mapsto> File b)"
    and "dest m s t \<noteq> s" and "dest m s t \<noteq> []" and "lookup m (dest m s t) \<noteq> Some Dir"
    and "lookup m (fst t) \<noteq> Some Dir \<Longrightarrow> \<not> snd t"
  using assms
  by (auto simp: cp_def dest_def lookup_def split: option.splits node.splits if_splits)

lemma dest_mkdir: "dest (snd (mkdir_p f (dirname t))) s t = dest f s t"
  by (simp add: dest_def mkdir_p_dirname_target)

lemma copy_step_success:
  assumes src: "lookup f s = Some (File b)" and ok: "fst (copy_step f s t)"
  shows "fst (mkdir_p f (dirname t))"
    and "snd (copy_step f s t) = (snd (mkdir_p f (dirname t)))(dest f s t \<mapsto> File b)"
    and "dest f s t \<noteq> s" and "dest f s t \<noteq> []"
    and "lookup (snd (mkdir_p f (dirname t))) (dest f s t) \<noteq> Some Dir"
    and "lookup f (fst t) \<noteq> Some Dir \<Longrightarrow> \<not> snd t"
proof -
  define m where "m = snd (mkdir_p f (dirname t))"
  from src have sm: "lookup m s = Some (File b)" by (simp add: m_def mkdir_p_keeps)
  then have ex: "exists_at m (s, False)" by (simp add: exists_at_def)
  from ok show mk: "fst (mkdir_p f (dirname t))" by (auto simp: copy_step_def split: if_splits)
  with ok ex obtain f2 where c: "cp m s t = Some f2" and f2: "snd (copy_step f s t) = f2"
    by (auto simp: copy_step_def m_def split: option.splits if_splits)
  from cp_write [OF c] sm f2
  show "snd (copy_step f s t) = (snd (mkdir_p f (dirname t)))(dest f s t \<mapsto> File b)"
    and "dest f s t \<noteq> s" and "dest f s t \<noteq> []"
    and "lookup (snd (mkdir_p f (dirname t))) (dest f s t) \<noteq> Some Dir"
    and "lookup f (fst t) \<noteq> Some Dir \<Longrightarrow> \<not> snd t"
    by (auto simp: m_def dest_mkdir mkdir_p_dirname_target)
qed

lemma copy_step_keeps:
  assumes src: "lookup f s = Some (File b)" and ok: "fst (copy_step f s t)"
    and q: "f q \<noteq> None" "q \<noteq> dest f s t"
  shows "snd (copy_step f s t) q = f q"
  using copy_step_success(2) [OF src ok] q by (simp add: mkdir_p_def mkdir_chain_keeps)

lemma copy_step_kind:
  assumes src: "lookup f s = Some (File b)" and ok: "fst (copy_step f s t)"
  shows "lookup f q = Some Dir \<Longrightarrow> lookup (snd (copy_step f s t)) q = Some Dir"
    and "\<exists>c. lookup f q = Some (File c) \<Longrightarrow> \<exists>c. lookup (snd (copy_step f s t)) q = Some (File c)"
proof -
  define m where "m = snd (mkdir_p f (dirname t))"
  note s = copy_step_success [OF src ok, folded m_def]
  show "lookup (snd (copy_step f s t)) q = Some Dir" if "lookup f q = Some Dir"
  proof -
    from that have "lookup m q = Some Dir" by (simp add: m_def mkdir_p_keeps)
    with s(5) have "q \<noteq> dest f s t" by auto
    with \<open>lookup m q = Some Dir\<close> s(2) show ?thesis
      by (auto simp: lookup_def split: if_splits)
  qed
  show "\<exists>c. lookup (snd (copy_step f s t)) q = Some (File c)" if "\<exists>c. lookup f q = Some (File c)"
  proof -
    from that obtain c where "lookup m q = Some (File c)" by (auto simp: m_def mkdir_p_keeps)
    with s(2,4) show ?thesis by (auto simp: lookup_def split: if_splits)
  qed
qed


lemma dest_cases: "dest h s t = fst t \<or> dest h s t = fst t @ [last s]"
  by (simp add: dest_def)

lemma dest_not_source:
  "sources_apart xs \<Longrightarrow> x \<in> set xs \<Longrightarrow> y \<in> set xs \<Longrightarrow> dest h (fst y) (snd y) \<noteq> fst x"
proof -
  assume "sources_apart xs" "x \<in> set xs" "y \<in> set xs"
  then have "fst x \<noteq> fst (snd y)" "fst x \<noteq> fst (snd y) @ [last (fst y)]"
    by (simp_all add: sources_apart_def)
  with dest_cases [of h "fst y" "snd y"] show ?thesis by metis
qed

lemma sources_apart_tail: "sources_apart (x # xs) \<Longrightarrow> sources_apart xs"
  by (simp add: sources_apart_def)

lemma writes_dest:
  "d \<in> fst ` set (writes f xs) \<Longrightarrow> \<exists>h y. y \<in> set xs \<and> d = dest h (fst y) (snd y)"
proof (induction xs arbitrary: f)
  case Nil
  then show ?case by simp
next
  case (Cons x xs)
  then show ?case by (fastforce simp: image_iff)
qed

lemma step_keeps_sources:
  assumes "regular_sources f (x # xs)" and "sources_apart (x # xs)"
    and ok: "fst (copy_step f (fst x) (snd x))" and y: "y \<in> set (x # xs)"
  shows "lookup (snd (copy_step f (fst x) (snd x))) (fst y) = lookup f (fst y)"
proof -
  from assms(1) obtain b where b: "lookup f (fst x) = Some (File b)"
    by (auto simp: regular_sources_def)
  from assms(1) y obtain c where c: "lookup f (fst y) = Some (File c)"
    by (auto simp: regular_sources_def)
  then have ne: "fst y \<noteq> []" "f (fst y) \<noteq> None" by (auto simp: lookup_def split: if_splits)
  from dest_not_source [OF assms(2) y, of x f] have "fst y \<noteq> dest f (fst x) (snd x)" by simp
  from copy_step_keeps [OF b ok ne(2) this] ne(1) show ?thesis by (simp add: lookup_def)
qed

lemma regular_sources_step:
  assumes "regular_sources f (x # xs)" and "sources_apart (x # xs)"
    and ok: "fst (copy_step f (fst x) (snd x))"
  shows "regular_sources (snd (copy_step f (fst x) (snd x))) xs"
  unfolding regular_sources_def
proof
  fix y assume y: "y \<in> set xs"
  then have "lookup (snd (copy_step f (fst x) (snd x))) (fst y) = lookup f (fst y)"
    using step_keeps_sources [OF assms, of y] by simp
  with assms(1) y show "\<exists>b. lookup (snd (copy_step f (fst x) (snd x))) (fst y) = Some (File b)"
    by (auto simp: regular_sources_def)
qed

lemma replay_kind:
  assumes "fst (replay_fs f xs)" and "regular_sources f xs" and "sources_apart xs"
  shows "(lookup f q = Some Dir \<longrightarrow> lookup (snd (replay_fs f xs)) q = Some Dir) \<and>
         ((\<exists>c. lookup f q = Some (File c)) \<longrightarrow> (\<exists>c. lookup (snd (replay_fs f xs)) q = Some (File c)))"
  using assms
proof (induction xs arbitrary: f)
  case Nil
  then show ?case by simp
next
  case (Cons x xs)
  define f1 where "f1 = snd (copy_step f (fst x) (snd x))"
  from Cons.prems(1) have ok: "fst (copy_step f (fst x) (snd x))" and rest: "fst (replay_fs f1 xs)"
    by (auto simp: f1_def split: if_splits)
  from Cons.prems(2) obtain b where b: "lookup f (fst x) = Some (File b)"
    by (auto simp: regular_sources_def)
  have "regular_sources f1 xs"
    unfolding f1_def by (rule regular_sources_step [OF Cons.prems(2,3) ok])
  from Cons.IH [OF rest this sources_apart_tail [OF Cons.prems(3)]]
    copy_step_kind [OF b ok, of q, folded f1_def] ok
  show ?case by (simp add: f1_def)
qed

lemma replay_keeps:
  assumes "fst (replay_fs f xs)" and "regular_sources f xs" and "sources_apart xs"
    and "f q \<noteq> None" and "q \<notin> fst ` set (writes f xs)"
  shows "snd (replay_fs f xs) q = f q"
  using assms
proof (induction xs arbitrary: f)
  case Nil
  then show ?case by simp
next
  case (Cons x xs)
  define f1 where "f1 = snd (copy_step f (fst x) (snd x))"
  from Cons.prems(1) have ok: "fst (copy_step f (fst x) (snd x))" and rest: "fst (replay_fs f1 xs)"
    by (auto simp: f1_def split: if_splits)
  from Cons.prems(2) obtain b where b: "lookup f (fst x) = Some (File b)"
    by (auto simp: regular_sources_def)
  have rs: "regular_sources f1 xs"
    unfolding f1_def by (rule regular_sources_step [OF Cons.prems(2,3) ok])
  from Cons.prems(5) have q: "q \<noteq> dest f (fst x) (snd x)" "q \<notin> fst ` set (writes f1 xs)"
    by (simp_all add: f1_def)
  from copy_step_keeps [OF b ok Cons.prems(4) q(1)] have k: "f1 q = f q" by (simp add: f1_def)
  with Cons.prems(4) have "f1 q \<noteq> None" by simp
  from Cons.IH [OF rest rs sources_apart_tail [OF Cons.prems(3)] this q(2)] k ok
  show ?case by (simp add: f1_def)
qed

lemma apply_writes_update:
  "apply_writes ws (g(d \<mapsto> n)) =
     (if d \<in> fst ` set ws then apply_writes ws g else (apply_writes ws g)(d \<mapsto> n))"
proof (induction ws arbitrary: g)
  case Nil
  show ?case by (simp only: apply_writes.simps list.set image_empty empty_iff if_False)
next
  case (Cons x ws)
  have unfold: "apply_writes (x # ws) h = apply_writes ws (h(fst x \<mapsto> File (snd x)))" for h
    by (simp only: apply_writes.simps)
  show ?case
  proof (cases "fst x = d")
    case True
    then have "(g(d \<mapsto> n))(fst x \<mapsto> File (snd x)) = g(fst x \<mapsto> File (snd x))"
      by (simp only: fun_upd_upd)
    then have "apply_writes (x # ws) (g(d \<mapsto> n)) = apply_writes (x # ws) g"
      by (simp only: unfold)
    moreover from True have "d \<in> fst ` set (x # ws)"
      by (simp only: list.set image_insert insert_iff simp_thms)
    ultimately show ?thesis by (simp only: if_True)
  next
    case False
    then have tw: "(g(d \<mapsto> n))(fst x \<mapsto> File (snd x)) = (g(fst x \<mapsto> File (snd x)))(d \<mapsto> n)"
      by (rule fun_upd_twist [OF not_sym])
    from False have mem: "(d \<in> fst ` set (x # ws)) = (d \<in> fst ` set ws)"
      by (simp only: list.set image_insert insert_iff) metis
    have "apply_writes (x # ws) (g(d \<mapsto> n)) =
        apply_writes ws ((g(fst x \<mapsto> File (snd x)))(d \<mapsto> n))"
      by (simp only: unfold tw)
    also have "\<dots> = (if d \<in> fst ` set ws then apply_writes ws (g(fst x \<mapsto> File (snd x)))
        else (apply_writes ws (g(fst x \<mapsto> File (snd x))))(d \<mapsto> n))"
      by (rule Cons.IH)
    finally show ?thesis by (simp only: mem unfold)
  qed
qed

lemma replay_settled:
  assumes "fst (replay_fs f xs)" and "regular_sources f xs" and "sources_apart xs"
  shows "apply_writes (writes f xs) (snd (replay_fs f xs)) = snd (replay_fs f xs)"
  using assms
proof (induction xs arbitrary: f)
  case Nil
  then show ?case by simp
next
  case (Cons x xs)
  define f1 where "f1 = snd (copy_step f (fst x) (snd x))"
  define d where "d = dest f (fst x) (snd x)"
  define F where "F = snd (replay_fs f1 xs)"
  from Cons.prems(1) have ok: "fst (copy_step f (fst x) (snd x))" and rest: "fst (replay_fs f1 xs)"
    by (auto simp: f1_def split: if_splits)
  from Cons.prems(2) obtain b where b: "lookup f (fst x) = Some (File b)"
    by (auto simp: regular_sources_def)
  have rs: "regular_sources f1 xs"
    unfolding f1_def by (rule regular_sources_step [OF Cons.prems(2,3) ok])
  note ap = sources_apart_tail [OF Cons.prems(3)]
  from Cons.IH [OF rest rs ap] have ih: "apply_writes (writes f1 xs) F = F" by (simp add: F_def)
  from copy_step_success(2) [OF b ok] have f1d: "f1 d = Some (File b)"
    by (simp add: f1_def d_def)
  have "apply_writes (writes f1 xs) (F(d \<mapsto> File b)) = F"
  proof (cases "d \<in> fst ` set (writes f1 xs)")
    case True
    with ih show ?thesis by (simp add: apply_writes_update)
  next
    case False
    from f1d have "f1 d \<noteq> None" by simp
    from replay_keeps [OF rest rs ap this False] f1d have "F d = Some (File b)" by (simp add: F_def)
    then have "F(d \<mapsto> File b) = F" by (simp add: fun_upd_idem)
    with ih show ?thesis by simp
  qed
  with ok b show ?case by (simp add: f1_def [symmetric] F_def [symmetric] d_def bytes_of_def)
qed


lemma copy_step_dirs:
  assumes src: "lookup f s = Some (File b)" and ok: "fst (copy_step f s t)"
    and k: "k \<le> length (dirname t)"
  shows "lookup (snd (copy_step f s t)) (take k (dirname t)) = Some Dir"
proof -
  define m where "m = snd (mkdir_p f (dirname t))"
  note s = copy_step_success [OF src ok, folded m_def]
  from mkdir_p_ok [OF s(1) k] have d: "lookup m (take k (dirname t)) = Some Dir"
    by (simp add: m_def)
  with s(5) have "take k (dirname t) \<noteq> dest f s t" by auto
  with d s(2) show ?thesis by (auto simp: lookup_def split: if_splits)
qed

lemma copy_step_again:
  assumes src: "lookup g s = Some (File b)"
    and dirs: "\<And>k. k \<le> length (dirname t) \<Longrightarrow> lookup g (take k (dirname t)) = Some Dir"
    and d: "\<exists>c. lookup g (dest g s t) = Some (File c)" "dest g s t \<noteq> s"
    and slash: "lookup g (fst t) \<noteq> Some Dir \<Longrightarrow> \<not> snd t"
  shows "copy_step g s t = (True, g(dest g s t \<mapsto> File b))"
proof -
  have "mkdir_chain g [] (dirname t) = (True, g)"
    by (rule mkdir_chain_noop) (simp add: dirs)
  then have mk: "mkdir_p g (dirname t) = (True, g)" by (simp add: mkdir_p_def)
  from src have ex: "exists_at g (s, False)" by (simp add: exists_at_def)
  have "cp g s t = Some (g(dest g s t \<mapsto> File b))"
  proof (cases "lookup g (fst t) = Some Dir")
    case True
    with src d show ?thesis by (auto simp: cp_def dest_def)
  next
    case False
    with d(1) obtain c where "lookup g (fst t) = Some (File c)" by (auto simp: dest_def)
    with src d(2) slash [OF False] False show ?thesis by (simp add: cp_def dest_def)
  qed
  with mk ex show ?thesis by (simp add: copy_step_def)
qed

lemma replay_again:
  assumes "fst (replay_fs f xs)" and "regular_sources f xs" and "sources_apart xs"
    and "same_kind g (snd (replay_fs f xs))"
    and "\<And>x. x \<in> set xs \<Longrightarrow> lookup g (fst x) = lookup f (fst x)"
  shows "replay_fs g xs = (True, apply_writes (writes f xs) g)"
  using assms
proof (induction xs arbitrary: f g)
  case Nil
  then show ?case by simp
next
  case (Cons x xs)
  define s where "s = fst x"
  define t where "t = snd x"
  define f1 where "f1 = snd (copy_step f s t)"
  define F where "F = snd (replay_fs f1 xs)"
  define d where "d = dest f s t"
  from Cons.prems(1) have ok: "fst (copy_step f s t)" and rest: "fst (replay_fs f1 xs)"
    by (auto simp: f1_def s_def t_def split: if_splits)
  from Cons.prems(1) have F: "snd (replay_fs f (x # xs)) = F"
    by (auto simp: F_def f1_def s_def t_def split: if_splits)
  from Cons.prems(2) obtain b where b: "lookup f s = Some (File b)"
    by (auto simp: regular_sources_def s_def)
  have rs: "regular_sources f1 xs"
    unfolding f1_def s_def t_def by (rule regular_sources_step [OF Cons.prems(2,3) ok [unfolded s_def t_def]])
  note ap = sources_apart_tail [OF Cons.prems(3)]
  note sk = Cons.prems(4) [unfolded F same_kind_def, rule_format]
  note kind1 = copy_step_kind [OF b ok, folded f1_def]
  note kindF = replay_kind [OF rest rs ap, folded F_def]
  note succ = copy_step_success [OF b ok, folded f1_def d_def]
  have gs: "lookup g s = Some (File b)"
    using Cons.prems(5) [of x] b by (simp add: s_def)
  have f1d: "lookup f1 d = Some (File b)"
    using succ(2,4) by (simp add: lookup_def)
  then have Fd: "\<exists>c. lookup F d = Some (File c)" using kindF [of d] by blast
  then have gd: "\<exists>c. lookup g d = Some (File c)" using sk [of d] by simp
  have dest_eq: "dest g s t = d"
  proof (cases "lookup f (fst t) = Some Dir")
    case True
    then have "lookup f1 (fst t) = Some Dir" by (rule kind1(1))
    then have "lookup F (fst t) = Some Dir" using kindF [of "fst t"] by blast
    then have "lookup g (fst t) = Some Dir" using sk [of "fst t"] by simp
    with True show ?thesis by (simp add: dest_def d_def)
  next
    case False
    then have "d = fst t" by (simp add: d_def dest_def)
    with gd have "lookup g (fst t) \<noteq> Some Dir" by auto
    with False show ?thesis by (simp add: dest_def d_def)
  qed
  have dirs: "lookup g (take k (dirname t)) = Some Dir" if "k \<le> length (dirname t)" for k
  proof -
    from copy_step_dirs [OF b ok that] have "lookup f1 (take k (dirname t)) = Some Dir"
      by (simp add: f1_def)
    then have "lookup F (take k (dirname t)) = Some Dir" using kindF [of "take k (dirname t)"] by blast
    then show ?thesis using sk [of "take k (dirname t)"] by simp
  qed
  have slash: "\<not> snd t" if "lookup g (fst t) \<noteq> Some Dir"
  proof -
    have "lookup f (fst t) \<noteq> Some Dir"
    proof
      assume "lookup f (fst t) = Some Dir"
      then have "lookup f1 (fst t) = Some Dir" by (rule kind1(1))
      then have "lookup F (fst t) = Some Dir" using kindF [of "fst t"] by blast
      then have "lookup g (fst t) = Some Dir" using sk [of "fst t"] by simp
      with that show False by simp
    qed
    then show ?thesis by (rule succ(6))
  qed
  from copy_step_again [OF gs dirs _ _ slash] gd succ(3) dest_eq
  have step: "copy_step g s t = (True, g(d \<mapsto> File b))" by simp
  define g1 where "g1 = g(d \<mapsto> File b)"
  have sk1: "same_kind g1 (snd (replay_fs f1 xs))"
    unfolding same_kind_def F_def [symmetric]
  proof
    fix q
    show "(lookup g1 q = Some Dir) = (lookup F q = Some Dir) \<and>
          (\<exists>b. lookup g1 q = Some (File b)) = (\<exists>b. lookup F q = Some (File b))"
    proof (cases "q = d")
      case True
      with Fd succ(4) show ?thesis by (auto simp: g1_def lookup_def)
    next
      case False
      then have "lookup g1 q = lookup g q" by (simp add: g1_def lookup_def)
      with sk [of q] show ?thesis by simp
    qed
  qed
  have src1: "lookup g1 (fst y) = lookup f1 (fst y)" if "y \<in> set xs" for y
  proof -
    from that have y: "y \<in> set (x # xs)" by simp
    from dest_not_source [OF Cons.prems(3) y, of x f] have "fst y \<noteq> d" by (simp add: d_def s_def t_def)
    then have "lookup g1 (fst y) = lookup g (fst y)" by (simp add: g1_def lookup_def)
    also have "\<dots> = lookup f (fst y)" using y by (rule Cons.prems(5))
    also have "\<dots> = lookup f1 (fst y)"
      using step_keeps_sources [OF Cons.prems(2,3) ok [unfolded s_def t_def] y]
      by (simp add: f1_def s_def t_def)
    finally show ?thesis .
  qed
  from Cons.IH [OF rest rs ap sk1 src1]
  have "replay_fs g1 xs = (True, apply_writes (writes f1 xs) g1)" by simp
  with step b show ?case
    by (simp add: g1_def f1_def d_def s_def t_def bytes_of_def)
qed

lemma replay_fs_idempotent:
  assumes ok: "fst (replay_fs f xs)" and rs: "regular_sources f xs" and ap: "sources_apart xs"
  shows "replay_fs (snd (replay_fs f xs)) xs = (True, snd (replay_fs f xs))"
proof -
  define F where "F = snd (replay_fs f xs)"
  have sk: "same_kind F (snd (replay_fs f xs))" by (simp add: same_kind_def F_def)
  have src: "lookup F (fst x) = lookup f (fst x)" if "x \<in> set xs" for x
  proof -
    from rs that obtain b where b: "lookup f (fst x) = Some (File b)"
      by (auto simp: regular_sources_def)
    then have ne: "fst x \<noteq> []" "f (fst x) \<noteq> None" by (auto simp: lookup_def split: if_splits)
    have "fst x \<notin> fst ` set (writes f xs)"
    proof
      assume "fst x \<in> fst ` set (writes f xs)"
      from writes_dest [OF this] obtain h y where "y \<in> set xs" "fst x = dest h (fst y) (snd y)"
        by blast
      with dest_not_source [OF ap that, of y h] show False by simp
    qed
    from replay_keeps [OF ok rs ap ne(2) this] ne(1) show ?thesis by (simp add: F_def lookup_def)
  qed
  from replay_again [OF ok rs ap sk src] replay_settled [OF ok rs ap]
  show ?thesis by (simp add: F_def)
qed


lemma syncChanges_replay:
  assumes pkg: "env_MONOREPO_PACKAGE_LOCATION cfg = Some pkg"
    and st: "\<forall>c\<in>set cs. status c = ''added'' \<or> status c = ''modified''"
  shows "fs (snd (syncChanges cfg ext cs w)) = snd (replay_fs (fs w) (replay_pairs cfg pkg cs)) \<and>
         (fst (syncChanges cfg ext cs w) = Returned ()) = fst (replay_fs (fs w) (replay_pairs cfg pkg cs))"
  using st
proof (induction cs arbitrary: w)
  case Nil
  show ?case by (simp add: replay_pairs_def io_return_def)
next
  case (Cons c cs)
  from Cons.prems have c: "status c = ''added'' \<or> status c = ''modified''"
    and cs: "\<forall>c\<in>set cs. status c = ''added'' \<or> status c = ''modified''" by simp_all
  obtain r w1 where run: "syncChange cfg ext c w = (r, w1)" by (cases "syncChange cfg ext c w")
  from syncChange_copy(1,2) [OF pkg c, of ext w] run
  have f1: "fs w1 = snd (copy_step (fs w) (sourcePath cfg c) (targetPath cfg pkg c))"
    and ok: "(r = Returned ()) = fst (copy_step (fs w) (sourcePath cfg c) (targetPath cfg pkg c))"
    by simp_all
  show ?case
  proof (cases r)
    case (Returned u)
    with run ok Cons.IH [OF cs, of w1] f1 show ?thesis
      by (simp add: io_seq_def io_bind_def replay_pairs_def)
  next
    case (Exited n)
    with run ok f1 show ?thesis
      by (simp add: io_seq_def io_bind_def replay_pairs_def)
  next
    case (Threw e)
    with run ok f1 show ?thesis
      by (simp add: io_seq_def io_bind_def replay_pairs_def)
  qed
qed

lemma syncChanges_twice:
  assumes pkg: "env_MONOREPO_PACKAGE_LOCATION cfg = Some pkg"
    and st: "\<forall>c\<in>set cs. status c = ''added'' \<or> status c = ''modified''"
    and first: "fst (replay_fs (fs w) (replay_pairs cfg pkg cs))"
  shows "fs (snd (io_seq (syncChanges cfg ext cs) (syncChanges cfg ext cs) w)) =
     snd (replay_fs (snd (replay_fs (fs w) (replay_pairs cfg pkg cs))) (replay_pairs cfg pkg cs))"
proof -
  obtain r w1 where run: "syncChanges cfg ext cs w = (r, w1)" by (cases "syncChanges cfg ext cs w")
  from syncChanges_replay [OF pkg st, of ext w] run first
  have "fs w1 = snd (replay_fs (fs w) (replay_pairs cfg pkg cs))" "r = Returned ()" by simp_all
  with run syncChanges_replay [OF pkg st, of ext w1] show ?thesis
    by (simp add: io_seq_def io_bind_def)
qed

text \<open>
  The replay of a change list, twice in succession. Take added and modified entries
  whose sources are regular files, such that no entry's source path is a place the
  replay writes to: the translated location of an entry of the list, or the file of
  that entry's base name directly inside it. Then the second replay changes nothing.
\<close>

lemma replay_twice_same_files:
  assumes pkg: "env_MONOREPO_PACKAGE_LOCATION cfg = Some pkg"
    and st: "\<forall>c\<in>set cs. status c = ''added'' \<or> status c = ''modified''"
    and files: "\<forall>c\<in>set cs. \<exists>bytes. lookup (fs w) (sourcePath cfg c) = Some (File bytes)"
    and apart: "\<forall>c\<in>set cs. \<forall>c'\<in>set cs.
        sourcePath cfg c \<noteq> fst (targetPath cfg pkg c') \<and>
        sourcePath cfg c \<noteq> fst (targetPath cfg pkg c') @ [last (sourcePath cfg c')]"
  shows "fs (snd (io_seq (syncChanges cfg ext cs) (syncChanges cfg ext cs) w)) =
           fs (snd (syncChanges cfg ext cs w)) \<and>
         fst (io_seq (syncChanges cfg ext cs) (syncChanges cfg ext cs) w) =
           fst (syncChanges cfg ext cs w)"
proof -
  define xs where "xs = replay_pairs cfg pkg cs"
  obtain r w1 where run: "syncChanges cfg ext cs w = (r, w1)" by (cases "syncChanges cfg ext cs w")
  from syncChanges_replay [OF pkg st, of ext w] run
  have f1: "fs w1 = snd (replay_fs (fs w) xs)" and ok: "(r = Returned ()) = fst (replay_fs (fs w) xs)"
    by (simp_all add: xs_def)
  show ?thesis
  proof (cases r)
    case (Returned u)
    with ok have first: "fst (replay_fs (fs w) xs)" by simp
    from files have rs: "regular_sources (fs w) xs"
      by (simp add: regular_sources_def xs_def replay_pairs_def)
    from apart have ap: "sources_apart xs"
      by (simp add: sources_apart_def xs_def replay_pairs_def)
    from replay_fs_idempotent [OF first rs ap] f1
    have "replay_fs (fs w1) xs = (True, fs w1)" by simp
    with syncChanges_replay [OF pkg st, of ext w1]
    have "fs (snd (syncChanges cfg ext cs w1)) = fs w1" "fst (syncChanges cfg ext cs w1) = Returned ()"
      by (simp_all add: xs_def)
    with run Returned show ?thesis by (simp add: io_seq_def io_bind_def)
  next
    case (Exited n)
    with run show ?thesis by (simp add: io_seq_def io_bind_def)
  next
    case (Threw e)
    with run show ?thesis by (simp add: io_seq_def io_bind_def)
  qed
qed

text \<open>
  The translated location of an entry stays inside the staged clone when neither the
  package location nor the entry's path climbs with \<^verbatim>\<open>..\<close>.
\<close>

lemma inside_append:
  assumes "inside d q"
  shows "inside d (q @ r)"
proof -
  from assms have "length (take (length d) q) = length d" by (simp add: inside_def)
  then have "length d \<le> length q" by simp
  with assms show ?thesis by (simp add: inside_def)
qed

lemma normalizeString_inside:
  "inside d acc \<Longrightarrow> ''..'' \<notin> set ss \<Longrightarrow> inside d (normalizeString acc ss)"
proof (induction ss arbitrary: acc)
  case Nil
  then show ?case by simp
next
  case (Cons s ss)
  from Cons.prems(1) have "inside d (acc @ [s])" by (rule inside_append)
  moreover from Cons.prems(1) have "inside d (butlast acc)" if "s = ''..''"
    using that Cons.prems(2) by simp
  ultimately show ?case using Cons by simp
qed

lemma targetPath_inside:
  assumes "''..'' \<notin> set (segments pkg)" and "''..'' \<notin> set (segments (path c))"
  shows "inside (TEMP_DIR cfg) (fst (targetPath cfg pkg c))"
  using assms normalizeString_inside [of "TEMP_DIR cfg" "TEMP_DIR cfg" "segments pkg @ segments (path c)"]
  by (simp add: targetPath_def path_join_def inside_def)

text \<open>
  Claim C1. The replay has two roots, the source checkout and the staged clone. Take
  a change list of added and modified entries whose sources are regular files, with
  every source outside the staged clone and every translated location inside it.
  Then replaying the list twice in succession leaves the same file system as
  replaying it once, with the same outcome.
\<close>

theorem replay_is_idempotent:
  assumes pkg: "env_MONOREPO_PACKAGE_LOCATION cfg = Some pkg"
    and st: "\<forall>c\<in>set cs. status c = ''added'' \<or> status c = ''modified''"
    and files: "\<forall>c\<in>set cs. \<exists>bytes. lookup (fs w) (sourcePath cfg c) = Some (File bytes)"
    and outside: "\<forall>c\<in>set cs. \<not> inside (TEMP_DIR cfg) (sourcePath cfg c)"
    and within: "\<forall>c\<in>set cs. inside (TEMP_DIR cfg) (fst (targetPath cfg pkg c))"
  shows "fs (snd (io_seq (syncChanges cfg ext cs) (syncChanges cfg ext cs) w)) =
           fs (snd (syncChanges cfg ext cs w)) \<and>
         fst (io_seq (syncChanges cfg ext cs) (syncChanges cfg ext cs) w) =
           fst (syncChanges cfg ext cs w)"
proof -
  have "sourcePath cfg c \<noteq> fst (targetPath cfg pkg c') \<and>
        sourcePath cfg c \<noteq> fst (targetPath cfg pkg c') @ [last (sourcePath cfg c')]"
    if "c \<in> set cs" "c' \<in> set cs" for c c'
  proof -
    from that(1) outside have out: "\<not> inside (TEMP_DIR cfg) (sourcePath cfg c)" by blast
    from that(2) within have "inside (TEMP_DIR cfg) (fst (targetPath cfg pkg c'))" by blast
    with out inside_append [of "TEMP_DIR cfg" "fst (targetPath cfg pkg c')"
        "[last (sourcePath cfg c')]"]
    show ?thesis by metis
  qed
  then have "\<forall>c\<in>set cs. \<forall>c'\<in>set cs.
        sourcePath cfg c \<noteq> fst (targetPath cfg pkg c') \<and>
        sourcePath cfg c \<noteq> fst (targetPath cfg pkg c') @ [last (sourcePath cfg c')]"
    by blast
  from replay_twice_same_files [OF pkg st files this] show ?thesis .
qed

theorem replay_is_idempotent_witness:
  "fs (snd (io_seq (syncChanges demo_config demo_externals readme_changes)
                   (syncChanges demo_config demo_externals readme_changes)
                   \<lparr>fs = readme_fs, trace = []\<rparr>)) =
   fs (snd (syncChanges demo_config demo_externals readme_changes \<lparr>fs = readme_fs, trace = []\<rparr>)) \<and>
   fs (snd (syncChanges demo_config demo_externals readme_changes \<lparr>fs = readme_fs, trace = []\<rparr>))
     (staged_root @ [''apps'', ''server'', ''README.md'']) = Some (File ''read me'')"
proof -
  define w0 :: world where "w0 = \<lparr>fs = readme_fs, trace = []\<rparr>"
  have 1: "env_MONOREPO_PACKAGE_LOCATION demo_config = Some ''apps/server''"
    by (simp add: demo_config_def)
  have 2: "\<forall>c\<in>set readme_changes. status c = ''added'' \<or> status c = ''modified''"
    by (simp add: readme_changes_def hello_entry_def)
  have 3: "\<forall>c\<in>set readme_changes.
      \<exists>bytes. lookup (fs w0) (sourcePath demo_config c) = Some (File bytes)"
    by (simp add: w0_def readme_changes_def readme_fs_def hello_fs_def hello_entry_def replay_defs)
  have 4: "\<forall>c\<in>set readme_changes. \<not> inside (TEMP_DIR demo_config) (sourcePath demo_config c)"
    by (simp add: readme_changes_def hello_entry_def inside_def replay_defs)
  have 5: "\<forall>c\<in>set readme_changes.
      inside (TEMP_DIR demo_config) (fst (targetPath demo_config ''apps/server'' c))"
    by (simp add: readme_changes_def hello_entry_def inside_def replay_defs)
  have 6: "fs (snd (syncChanges demo_config demo_externals readme_changes w0))
      (staged_root @ [''apps'', ''server'', ''README.md'']) = Some (File ''read me'')"
    by (simp add: w0_def readme_changes_def readme_fs_def hello_fs_def hello_entry_def replay_defs)
  from replay_is_idempotent [OF 1 2 3 4 5, of demo_externals] 6 show ?thesis
    by (simp add: w0_def)
qed

text \<open>
  The two roots are apart unless the checkout's own directory is named \<^verbatim>\<open>tmp\<close> (or is
  the root) and an entry's path leads into \<^verbatim>\<open>formio-monorepo\<close>. In that layout the second
  replay can copy what the first one wrote: here the first entry's source is the
  second entry's translated location, and the copy of the first entry holds the old
  bytes after one replay and the new bytes after two.
\<close>

lemma replay_twice_differs:
  "lookup nested_fs (sourcePath nested_config staged_entry) = Some (File ''old'') \<and>
   lookup nested_fs (sourcePath nested_config outer_entry) = Some (File ''new'') \<and>
   fst (syncChanges nested_config demo_externals nested_changes \<lparr>fs = nested_fs, trace = []\<rparr>)
     = Returned () \<and>
   fs (snd (syncChanges nested_config demo_externals nested_changes \<lparr>fs = nested_fs, trace = []\<rparr>))
     nested_copy = Some (File ''old'') \<and>
   fs (snd (io_seq (syncChanges nested_config demo_externals nested_changes)
                   (syncChanges nested_config demo_externals nested_changes)
                   \<lparr>fs = nested_fs, trace = []\<rparr>))
     nested_copy = Some (File ''new'')"
proof -
  define staged where "staged = [''work'', ''tmp'', ''formio-monorepo'', ''apps'', ''server'']"
  define s1 where "s1 = staged @ [''x.txt'']"
  define s2 where "s2 = [''work'', ''tmp'', ''x.txt'']"
  define t1 :: location where "t1 = (nested_copy, False)"
  define t2 :: location where "t2 = (s1, False)"
  define f1 where "f1 = nested_fs(staged @ [''formio-monorepo''] \<mapsto> Dir,
      staged @ [''formio-monorepo'', ''apps''] \<mapsto> Dir,
      staged @ [''formio-monorepo'', ''apps'', ''server''] \<mapsto> Dir,
      nested_copy \<mapsto> File ''old'')"
  define f2 where "f2 = f1(s1 \<mapsto> File ''new'')"
  define f3 where "f3 = f2(nested_copy \<mapsto> File ''new'')"
  define f4 where "f4 = f3(s1 \<mapsto> File ''new'')"
  note path_defs = staged_def s1_def s2_def t1_def t2_def nested_copy_def
  note step_defs = copy_step_def mkdir_p_def cp_def lookup_def exists_at_def dirname_def
  have pairs: "replay_pairs nested_config ''apps/server'' nested_changes = [(s1, t1), (s2, t2)]"
    by (simp add: replay_pairs_def nested_changes_def staged_entry_def outer_entry_def nested_config_def path_defs replay_defs)
  have a: "copy_step nested_fs s1 t1 = (True, f1)"
    by (simp add: f1_def nested_fs_def path_defs step_defs)
  have b: "copy_step f1 s2 t2 = (True, f2)"
    by (simp add: f2_def f1_def nested_fs_def path_defs step_defs)
  have c: "copy_step f2 s1 t1 = (True, f3)"
    by (simp add: f3_def f2_def f1_def nested_fs_def path_defs step_defs)
  have d: "copy_step f3 s2 t2 = (True, f4)"
    by (simp add: f4_def f3_def f2_def f1_def nested_fs_def path_defs step_defs)
  have once: "replay_fs nested_fs [(s1, t1), (s2, t2)] = (True, f2)"
    by (simp add: a b)
  have twice: "replay_fs f2 [(s1, t1), (s2, t2)] = (True, f4)"
    by (simp add: c d)
  have pkg: "env_MONOREPO_PACKAGE_LOCATION nested_config = Some ''apps/server''"
    by (simp add: nested_config_def demo_config_def)
  have st: "\<forall>c\<in>set nested_changes. status c = ''added'' \<or> status c = ''modified''"
    by (simp add: nested_changes_def staged_entry_def outer_entry_def)
  have srcs: "sourcePath nested_config staged_entry = s1"
    "sourcePath nested_config outer_entry = s2"
    by (simp_all add: staged_entry_def outer_entry_def nested_config_def path_defs replay_defs)
  have "lookup nested_fs s1 = Some (File ''old'')" "lookup nested_fs s2 = Some (File ''new'')"
    by (simp_all add: nested_fs_def path_defs lookup_def)
  moreover from syncChanges_replay [OF pkg st, of demo_externals "\<lparr>fs = nested_fs, trace = []\<rparr>",
      unfolded pairs world.simps once]
  have "fst (syncChanges nested_config demo_externals nested_changes \<lparr>fs = nested_fs, trace = []\<rparr>)
      = Returned ()"
    "fs (snd (syncChanges nested_config demo_externals nested_changes \<lparr>fs = nested_fs, trace = []\<rparr>))
      = f2"
    by simp_all
  moreover have first: "fst (replay_fs (fs \<lparr>fs = nested_fs, trace = []\<rparr>)
      (replay_pairs nested_config ''apps/server'' nested_changes))"
    unfolding pairs world.simps once by simp
  from syncChanges_twice [OF pkg st first, of demo_externals, unfolded pairs world.simps once snd_conv twice]
  have "fs (snd (io_seq (syncChanges nested_config demo_externals nested_changes)
                   (syncChanges nested_config demo_externals nested_changes)
                   \<lparr>fs = nested_fs, trace = []\<rparr>)) = f4"
    by simp
  moreover have "f2 nested_copy = Some (File ''old'')" "f4 nested_copy = Some (File ''new'')"
    by (simp_all add: f4_def f3_def f2_def f1_def path_defs)
  ultimately show ?thesis by (simp add: srcs)
qed

end
